(* ===== verification/Prelude.thy ===== *)
theory Prelude
  imports "HOL-Library.Word" "HOL-Library.AList"
begin

unbundle bit_operations_syntax

text \<open>
  Shared vocabulary of the development: the Go data types the packages use, big-endian
  encoding as \<^verbatim>\<open>encoding/binary\<close> does it, \<open>int64\<close> arithmetic, directories as
  association lists, cancellation contexts and readers, and the collections of facts that
  the component theories feed and reuse.
\<close>

section \<open>Types\<close>

text \<open>A Go \<^verbatim>\<open>[]byte\<close> is a list of 8-bit words, a Go \<^verbatim>\<open>string\<close> (a byte sequence too) an
  Isabelle \<open>string\<close>, whose characters are bytes. Go's conversions between the two keep
  every byte.\<close>

type_synonym byte = "8 word"
type_synonym bytes = "byte list"
type_synonym u32 = "32 word"
type_synonym u64 = "64 word"

text \<open>A Go \<^verbatim>\<open>time.Time\<close> is the number of nanoseconds since the zero time (1 January of year 1,
  UTC), so \<^verbatim>\<open>IsZero\<close> is equality with 0. Durations are nanoseconds too.\<close>

type_synonym time = int

abbreviation (input) second_ns :: int where
  "second_ns \<equiv> 1000000000"

definition byte_of_char :: "char \<Rightarrow> byte" where
  "byte_of_char c = word_of_nat (of_char c)"

definition char_of_byte :: "byte \<Rightarrow> char" where
  "char_of_byte b = char_of (unat b)"

definition bytes_of :: "string \<Rightarrow> bytes" where
  "bytes_of s = map byte_of_char s"

definition string_of :: "bytes \<Rightarrow> string" where
  "string_of bs = map char_of_byte bs"

section \<open>Fact collections\<close>

named_theorems wire \<open>facts about encodings on the wire and their inverses\<close>
named_theorems nonce_facts \<open>facts about chunk nonces\<close>
named_theorems dir_facts \<open>facts about directories and keyed stores\<close>
named_theorems handler_defs \<open>definitions of request handlers and of what they call\<close>
named_theorems step_preserves \<open>preservation of invariants by single steps\<close>

section \<open>Bytes and strings\<close>

lemma unat_byte_less [simp]: "unat (b :: byte) < 256"
  using unsigned_less [of b, where ?'a = nat] by simp

lemma char_of_byte_of_char [simp]: "char_of_byte (byte_of_char c) = c"
proof -
  have "(of_char c :: nat) < 256" by simp
  then have "unat (word_of_nat (of_char c) :: byte) = of_char c"
    by (simp add: unat_of_nat)
  then show ?thesis by (simp add: char_of_byte_def byte_of_char_def)
qed

lemma byte_of_char_of_byte [simp]: "byte_of_char (char_of_byte b) = b"
proof -
  have "(of_char (char_of (unat b) :: char) :: nat) = unat b mod 256" by simp
  also have "\<dots> = unat b" by simp
  finally show ?thesis by (simp add: char_of_byte_def byte_of_char_def)
qed

lemma byte_of_char_eq_iff [simp]: "byte_of_char c = byte_of_char d \<longleftrightarrow> c = d"
  by (metis char_of_byte_of_char)

lemma string_of_bytes_of [simp]: "string_of (bytes_of s) = s"
  by (simp add: string_of_def bytes_of_def comp_def)

lemma bytes_of_string_of [simp]: "bytes_of (string_of bs) = bs"
  by (simp add: string_of_def bytes_of_def comp_def)

lemma bytes_of_inj [simp]: "bytes_of s = bytes_of t \<longleftrightarrow> s = t"
  by (metis string_of_bytes_of)

lemma length_bytes_of [simp]: "length (bytes_of s) = length s"
  by (simp add: bytes_of_def)

lemma length_string_of [simp]: "length (string_of bs) = length bs"
  by (simp add: string_of_def)

lemma bytes_of_append [simp]: "bytes_of (s @ t) = bytes_of s @ bytes_of t"
  by (simp add: bytes_of_def)

lemma string_of_append [simp]: "string_of (a @ b) = string_of a @ string_of b"
  by (simp add: string_of_def)

section \<open>Big-endian integers\<close>

text \<open>\<^verbatim>\<open>binary.BigEndian.PutUint32/PutUint64\<close> and \<^verbatim>\<open>Uint32/Uint64\<close>: shifts, truncation to a
  byte, and the disjunction of the shifted bytes. Reading looks at the first four (eight)
  bytes, as the Go functions do.\<close>

definition be32 :: "u32 \<Rightarrow> bytes" where
  "be32 v = [ucast (drop_bit 24 v), ucast (drop_bit 16 v), ucast (drop_bit 8 v), ucast v]"

definition rd32 :: "bytes \<Rightarrow> u32" where
  "rd32 b = ucast (b ! 3) OR push_bit 8 (ucast (b ! 2)) OR push_bit 16 (ucast (b ! 1))
     OR push_bit 24 (ucast (b ! 0))"

definition be64 :: "u64 \<Rightarrow> bytes" where
  "be64 v = [ucast (drop_bit 56 v), ucast (drop_bit 48 v), ucast (drop_bit 40 v),
     ucast (drop_bit 32 v), ucast (drop_bit 24 v), ucast (drop_bit 16 v),
     ucast (drop_bit 8 v), ucast v]"

definition rd64 :: "bytes \<Rightarrow> u64" where
  "rd64 b = ucast (b ! 7) OR push_bit 8 (ucast (b ! 6)) OR push_bit 16 (ucast (b ! 5))
     OR push_bit 24 (ucast (b ! 4)) OR push_bit 32 (ucast (b ! 3))
     OR push_bit 40 (ucast (b ! 2)) OR push_bit 48 (ucast (b ! 1))
     OR push_bit 56 (ucast (b ! 0))"

lemma length_be32 [simp]: "length (be32 v) = 4"
  by (simp add: be32_def)

lemma length_be64 [simp]: "length (be64 v) = 8"
  by (simp add: be64_def)

lemma be32_not_Nil [simp]: "be32 v \<noteq> []"
  by (simp add: be32_def)

lemma rd32_be32 [simp, wire]: "rd32 (be32 v) = v"
proof (rule bit_word_eqI)
  fix n assume "n < LENGTH(32)"
  then consider "n < 8" | "8 \<le> n" "n < 16" | "16 \<le> n" "n < 24" | "24 \<le> n" "n < 32"
    by fastforce
  then show "bit (rd32 (be32 v)) n = bit v n"
    by cases (auto simp: rd32_def be32_def bit_simps)
qed

lemma rd64_be64 [simp, wire]: "rd64 (be64 v) = v"
proof (rule bit_word_eqI)
  fix n assume "n < LENGTH(64)"
  then consider "n < 8" | "8 \<le> n" "n < 16" | "16 \<le> n" "n < 24" | "24 \<le> n" "n < 32"
    | "32 \<le> n" "n < 40" | "40 \<le> n" "n < 48" | "48 \<le> n" "n < 56" | "56 \<le> n" "n < 64"
    by fastforce
  then show "bit (rd64 (be64 v)) n = bit v n"
    by cases (auto simp: rd64_def be64_def bit_simps)
qed

lemma be64_rd64 [wire]: "length b = 8 \<Longrightarrow> be64 (rd64 b) = b"
proof -
  assume "length b = 8"
  then obtain b0 b1 b2 b3 b4 b5 b6 b7 where b: "b = [b0, b1, b2, b3, b4, b5, b6, b7]"
    by (auto simp: numeral_eq_Suc length_Suc_conv)
  show ?thesis
    unfolding b be64_def rd64_def
    by (simp; intro conjI; rule bit_word_eqI; auto simp: bit_simps dest: bit_imp_le_length)
qed

lemma be32_rd32 [wire]: "length b = 4 \<Longrightarrow> be32 (rd32 b) = b"
proof -
  assume "length b = 4"
  then obtain b0 b1 b2 b3 where b: "b = [b0, b1, b2, b3]"
    by (auto simp: numeral_eq_Suc length_Suc_conv)
  show ?thesis
    unfolding b be32_def rd32_def
    by (simp; intro conjI; rule bit_word_eqI; auto simp: bit_simps dest: bit_imp_le_length)
qed

lemma be64_xor [wire]: "be64 (v XOR w) = map2 (XOR) (be64 v) (be64 w)"
  by (simp add: be64_def drop_bit_xor) (simp_all add: unsigned_xor_eq)

text \<open>\<^verbatim>\<open>a ^= b\<close> byte by byte.\<close>

definition xor_bytes :: "bytes \<Rightarrow> bytes \<Rightarrow> bytes" where
  "xor_bytes a b = map2 (XOR) a b"

lemma length_xor_bytes [simp]: "length (xor_bytes a b) = min (length a) (length b)"
  by (simp add: xor_bytes_def)

lemma xor_bytes_cancel [nonce_facts]:
  "length a = length b \<Longrightarrow> length c = length b \<Longrightarrow> xor_bytes a b = xor_bytes a c \<Longrightarrow> b = c"
proof (induction a b arbitrary: c rule: list_induct2)
  case Nil
  then show ?case by simp
next
  case (Cons x xs y ys)
  then obtain z zs where c: "c = z # zs" and len: "length zs = length ys"
    by (cases c) auto
  from Cons.prems have "x XOR y = x XOR z" and "xor_bytes xs ys = xor_bytes xs zs"
    by (auto simp: xor_bytes_def c)
  moreover have "x XOR (x XOR y) = y" and "x XOR (x XOR z) = z"
    by (simp_all flip: xor.assoc)
  ultimately show ?case
    using Cons.IH len by (metis c)
qed

lemma rd32_be32_append [simp]: "rd32 (be32 v @ rest) = v"
proof -
  have "rd32 (be32 v @ rest) = rd32 (be32 v)" by (simp add: rd32_def be32_def nth_append)
  then show ?thesis by simp
qed

lemma unat_u32: "n < 2 ^ 32 \<Longrightarrow> unat (of_nat n :: u32) = n"
  by (simp add: unat_of_nat)

lemma length_take_le: "n \<le> length xs \<Longrightarrow> length (take n xs) = n"
  by simp

section \<open>Signed 64-bit arithmetic\<close>

text \<open>\<^verbatim>\<open>int64\<close> values are integers in range; \<open>wrap64\<close> is what Go's \<^verbatim>\<open>int64\<close> addition and
  multiplication do to an exact result. It is written only where an overflow is possible.\<close>

definition wrap64 :: "int \<Rightarrow> int" where
  "wrap64 x = signed_take_bit 63 x"

definition in_int64 :: "int \<Rightarrow> bool" where
  "in_int64 x \<longleftrightarrow> - (2 ^ 63) \<le> x \<and> x < 2 ^ 63"

lemma wrap64_id [simp]: "in_int64 x \<Longrightarrow> wrap64 x = x"
  by (simp add: wrap64_def in_int64_def signed_take_bit_int_eq_self)

lemma in_int64_wrap64 [simp]: "in_int64 (wrap64 x)"
  unfolding wrap64_def in_int64_def
  using signed_take_bit_int_greater_eq_minus_exp [of 63 x] signed_take_bit_int_less_exp [of 63 x]
  by simp

section \<open>Keyed stores and directories\<close>

text \<open>A Go map, and a directory of files, is an association list with distinct keys: a sum or
  a sweep over all entries is then a sum or a recursion over the list, and the order of the
  entries is the (unspecified) iteration order.\<close>

type_synonym 'v dir = "(string \<times> 'v) list"

abbreviation dget :: "'v dir \<Rightarrow> string \<Rightarrow> 'v option" where
  "dget d k \<equiv> map_of d k"

abbreviation dput :: "string \<Rightarrow> 'v \<Rightarrow> 'v dir \<Rightarrow> 'v dir" where
  "dput \<equiv> AList.update"

abbreviation ddel :: "string \<Rightarrow> 'v dir \<Rightarrow> 'v dir" where
  "ddel \<equiv> AList.delete"

abbreviation dir_ok :: "'v dir \<Rightarrow> bool" where
  "dir_ok d \<equiv> distinct (map fst d)"

definition dsum :: "(string \<Rightarrow> 'v \<Rightarrow> int) \<Rightarrow> 'v dir \<Rightarrow> int" where
  "dsum f d = sum_list (map (\<lambda>(k, v). f k v) d)"

definition dweight :: "(string \<Rightarrow> 'v \<Rightarrow> int) \<Rightarrow> 'v dir \<Rightarrow> string \<Rightarrow> int" where
  "dweight f d k = (case dget d k of None \<Rightarrow> 0 | Some v \<Rightarrow> f k v)"

lemma dget_dput [simp, dir_facts]: "dget (dput k v d) = (dget d)(k \<mapsto> v)"
  by (rule update_conv')

lemma dget_ddel [simp, dir_facts]: "dget (ddel k d) = (dget d)(k := None)"
  by (rule delete_conv')

lemma dir_ok_dput [simp, dir_facts]: "dir_ok d \<Longrightarrow> dir_ok (dput k v d)"
  by (rule distinct_update)

lemma dir_ok_ddel [simp, dir_facts]: "dir_ok d \<Longrightarrow> dir_ok (ddel k d)"
  by (rule distinct_delete)

lemma dsum_Nil [simp]: "dsum f [] = 0"
  by (simp add: dsum_def)

lemma dsum_Cons [simp]: "dsum f ((k, v) # d) = f k v + dsum f d"
  by (simp add: dsum_def)

lemma dweight_notin: "k \<notin> fst ` set d \<Longrightarrow> dweight f d k = 0"
  by (simp add: dweight_def map_of_eq_None_iff [THEN iffD2])

lemma dsum_dput [dir_facts]:
  "dir_ok d \<Longrightarrow> dsum f (dput k v d) = dsum f d - dweight f d k + f k v"
proof (induction d)
  case Nil
  then show ?case by (simp add: dweight_def)
next
  case (Cons a d)
  then show ?case
    by (cases a) (auto simp: dweight_def map_of_eq_None_iff)
qed

lemma ddel_notin [simp]: "k \<notin> fst ` set d \<Longrightarrow> ddel k d = d"
  by (rule delete_id)

lemma dsum_ddel [dir_facts]:
  "dir_ok d \<Longrightarrow> dsum f (ddel k d) = dsum f d - dweight f d k"
proof (induction d)
  case Nil
  then show ?case by (simp add: dweight_def)
next
  case (Cons a d)
  then show ?case
    by (cases a) (auto simp: dweight_def AList.delete_eq dweight_notin [unfolded dweight_def])
qed

lemma dsum_nonneg: "(\<And>k v. dget d k = Some v \<Longrightarrow> 0 \<le> f k v) \<Longrightarrow> dir_ok d \<Longrightarrow> 0 \<le> dsum f d"
proof (induction d)
  case Nil
  then show ?case by simp
next
  case (Cons a d)
  obtain k v where a: "a = (k, v)" by (cases a)
  have "0 \<le> f k v" using Cons.prems(1) [of k v] by (simp add: a)
  moreover have "0 \<le> dsum f d"
  proof (rule Cons.IH)
    fix k' v' assume h: "dget d k' = Some v'"
    then have "k' \<in> fst ` set d" by (force dest: map_of_SomeD)
    then have "k' \<noteq> k" using Cons.prems(2) by (auto simp: a)
    with h show "0 \<le> f k' v'" using Cons.prems(1) [of k' v'] by (simp add: a)
  next
    show "dir_ok d" using Cons.prems(2) by simp
  qed
  ultimately show ?case by (simp add: a)
qed

lemma dsum_ge_weight:
  assumes ok: "dir_ok d" and nn: "\<And>k v. dget d k = Some v \<Longrightarrow> 0 \<le> f k v"
  shows "dweight f d k \<le> dsum f d"
proof -
  have "0 \<le> dsum f (ddel k d)"
    by (rule dsum_nonneg) (use ok nn in \<open>auto split: if_splits\<close>)
  then show ?thesis using dsum_ddel [OF ok, of f k] by simp
qed

section \<open>Cancellation and readers\<close>

text \<open>A \<^verbatim>\<open>context.Context\<close>, as the storage code uses it, answers \<^verbatim>\<open>ctx.Err()\<close>: the context says for
  the \<open>n\<close>-th check whether it is cancelled by then.\<close>

type_synonym ctx = "nat \<Rightarrow> bool"

definition live_ctx :: ctx where
  "live_ctx = (\<lambda>n. False)"

lemma live_ctx_apply [simp]: "\<not> live_ctx n"
  by (simp add: live_ctx_def)

lemma live_ctx_fold [simp]: "(\<lambda>n. False) = live_ctx"
  by (simp add: fun_eq_iff)

text \<open>An \<^verbatim>\<open>io.Reader\<close> that a function drains is the bytes it yields and whether it then fails
  instead of reporting the end of the stream.\<close>

record reader =
  rd_data :: bytes
  rd_fails :: bool

definition reader_of :: "bytes \<Rightarrow> reader" where
  "reader_of b = \<lparr>rd_data = b, rd_fails = False\<rparr>"

lemma reader_of_simps [simp]: "rd_data (reader_of b) = b" "rd_fails (reader_of b) = False"
  by (simp_all add: reader_of_def)

section \<open>Writing at an offset\<close>

text \<open>Writing at an offset of a file; a gap is filled with zeros.\<close>

definition write_at :: "nat \<Rightarrow> bytes \<Rightarrow> bytes \<Rightarrow> bytes" where
  "write_at off data old =
     take off (old @ replicate (off - length old) 0) @ data @ drop (off + length data) old"

lemma length_write_at:
  "off \<le> length old \<Longrightarrow> length (write_at off data old) = max (length old) (off + length data)"
  by (auto simp: write_at_def)

lemma take_write_at:
  "off \<le> length old \<Longrightarrow> take (off + length data) (write_at off data old) = take off old @ data"
  by (simp add: write_at_def)

end
