(* ===== verification/Primitives.thy ===== *)
theory Primitives
  imports Prelude
begin

text \<open>
  The cryptographic primitives the program calls but does not contain: XChaCha20-Poly1305,
  X25519 and Argon2id of \<^verbatim>\<open>golang.org/x/crypto\<close>, SHA-256 and Ed25519. They are one record of
  functions, an argument of every definition that uses them. What the code relies on is
  stated by the predicates below, each the documented behaviour of one primitive; no law is
  assumed of SHA-256 or Argon2id. \<open>sample_prims\<close> is a record of computable stand-ins that
  satisfies every law, used by the witnesses.
\<close>

record prims =
  p_seal :: "bytes \<Rightarrow> bytes \<Rightarrow> bytes \<Rightarrow> bytes" \<comment> \<open>key, nonce, plaintext\<close>
  p_open :: "bytes \<Rightarrow> bytes \<Rightarrow> bytes \<Rightarrow> bytes option" \<comment> \<open>key, nonce, ciphertext\<close>
  p_x25519 :: "bytes \<Rightarrow> bytes \<Rightarrow> bytes option" \<comment> \<open>scalar, point\<close>
  p_sha256 :: "bytes \<Rightarrow> bytes"
  p_argon2 :: "bytes \<Rightarrow> bytes \<Rightarrow> nat \<Rightarrow> nat \<Rightarrow> nat \<Rightarrow> nat \<Rightarrow> bytes"
    \<comment> \<open>password, salt, iterations, memory in KiB, threads, key length\<close>
  p_sign :: "bytes \<Rightarrow> bytes \<Rightarrow> bytes" \<comment> \<open>64-byte private key, message\<close>
  p_verify :: "bytes \<Rightarrow> bytes \<Rightarrow> bytes \<Rightarrow> bool" \<comment> \<open>public key, message, signature\<close>
  p_seed_pub :: "bytes \<Rightarrow> bytes" \<comment> \<open>public key of a 32-byte seed\<close>

text \<open>Poly1305 tags are 16 bytes (\<^verbatim>\<open>aead.Overhead()\<close>); ChaCha20 limits one message to
  $2^{38} - 64$ bytes.\<close>

abbreviation (input) overhead :: nat where
  "overhead \<equiv> 16"

definition aead_max :: nat where
  "aead_max = 2 ^ 38 - 64"

text \<open>The AEAD opens what it sealed, a sealed message is 16 bytes longer, and it opens nothing
  but the sealing of the result: encryption is deterministic given key and nonce, and the
  tag is recomputed and compared.\<close>

definition aead_ok :: "prims \<Rightarrow> bool" where
  "aead_ok P \<longleftrightarrow>
     (\<forall>k n p. length p \<le> aead_max \<longrightarrow> p_open P k n (p_seal P k n p) = Some p) \<and>
     (\<forall>k n p. length p \<le> aead_max \<longrightarrow> length (p_seal P k n p) = length p + overhead) \<and>
     (\<forall>k n c p. p_open P k n c = Some p \<longrightarrow> c = p_seal P k n p \<and> length p \<le> aead_max)"

lemma aead_open_seal: "aead_ok P \<Longrightarrow> length p \<le> aead_max \<Longrightarrow> p_open P k n (p_seal P k n p) = Some p"
  by (simp add: aead_ok_def)

lemma aead_seal_length:
  "aead_ok P \<Longrightarrow> length p \<le> aead_max \<Longrightarrow> length (p_seal P k n p) = length p + overhead"
  by (simp add: aead_ok_def)

lemma aead_open_only_sealed:
  "aead_ok P \<Longrightarrow> p_open P k n c = Some p \<Longrightarrow> c = p_seal P k n p \<and> length p \<le> aead_max"
  unfolding aead_ok_def by blast

lemma aead_open_length:
  "aead_ok P \<Longrightarrow> p_open P k n c = Some p \<Longrightarrow> length c = length p + overhead"
  using aead_open_only_sealed aead_seal_length by metis

text \<open>X25519 is a Diffie-Hellman function on 32-byte values.\<close>

definition basepoint :: bytes where
  "basepoint = 9 # replicate 31 0"

definition dh_ok :: "prims \<Rightarrow> bool" where
  "dh_ok P \<longleftrightarrow>
     (\<forall>a b pa pb. p_x25519 P a basepoint = Some pa \<longrightarrow> p_x25519 P b basepoint = Some pb \<longrightarrow>
        p_x25519 P a pb = p_x25519 P b pa) \<and>
     (\<forall>a p r. p_x25519 P a p = Some r \<longrightarrow> length r = 32)"

lemma dh_agree:
  "dh_ok P \<Longrightarrow> p_x25519 P a basepoint = Some pa \<Longrightarrow> p_x25519 P b basepoint = Some pb \<Longrightarrow>
    p_x25519 P a pb = p_x25519 P b pa"
  unfolding dh_ok_def by blast

lemma dh_length: "dh_ok P \<Longrightarrow> p_x25519 P a p = Some r \<Longrightarrow> length r = 32"
  unfolding dh_ok_def by blast

text \<open>Ed25519: a private key is a seed followed by its public key; signatures verify.\<close>

definition sig_ok :: "prims \<Rightarrow> bool" where
  "sig_ok P \<longleftrightarrow>
     (\<forall>seed. length seed = 32 \<longrightarrow> length (p_seed_pub P seed) = 32) \<and>
     (\<forall>priv m. length (p_sign P priv m) = 64) \<and>
     (\<forall>seed m. length seed = 32 \<longrightarrow>
        p_verify P (p_seed_pub P seed) m (p_sign P (seed @ p_seed_pub P seed) m))"

lemma sig_verify:
  "sig_ok P \<Longrightarrow> length seed = 32 \<Longrightarrow>
    p_verify P (p_seed_pub P seed) m (p_sign P (seed @ p_seed_pub P seed) m)"
  by (simp add: sig_ok_def)

lemma sig_lengths:
  "sig_ok P \<Longrightarrow> length (p_sign P priv m) = 64"
  "sig_ok P \<Longrightarrow> length seed = 32 \<Longrightarrow> length (p_seed_pub P seed) = 32"
  by (simp_all add: sig_ok_def)

section \<open>Computable stand-ins\<close>

definition sample_tag :: "bytes \<Rightarrow> bytes \<Rightarrow> bytes" where
  "sample_tag k n = take 16 (xor_bytes (k @ replicate 16 0) (n @ replicate 16 0) @ replicate 16 0)"

definition sample_prims :: prims where
  "sample_prims =
     \<lparr>p_seal = (\<lambda>k n p. p @ sample_tag k n),
      p_open = (\<lambda>k n c. let m = length c - 16 in
        if 16 \<le> length c \<and> m \<le> aead_max \<and> drop m c = sample_tag k n then Some (take m c) else None),
      p_x25519 = (\<lambda>a p. if length a = 32 \<and> length p = 32 then Some (xor_bytes a p) else None),
      p_sha256 = (\<lambda>b. take 32 (b @ replicate 32 0)),
      p_argon2 = (\<lambda>pw salt t m th n. take n (pw @ salt @ replicate n 0)),
      p_sign = (\<lambda>priv m. take 64 (drop 32 priv @ m @ replicate 64 0)),
      p_verify = (\<lambda>pub m s. s = take 64 (pub @ m @ replicate 64 0)),
      p_seed_pub = (\<lambda>seed. seed)\<rparr>"

lemma length_sample_tag [simp]: "length (sample_tag k n) = 16"
  by (simp add: sample_tag_def)

lemma sample_aead_ok: "aead_ok sample_prims"
  unfolding aead_ok_def sample_prims_def
  by (auto simp: Let_def split: if_splits) (metis append_take_drop_id)

lemma xor_bytes_swap:
  "length a = length b \<Longrightarrow> length b = length c \<Longrightarrow>
    xor_bytes a (xor_bytes b c) = xor_bytes b (xor_bytes a c)"
  by (induction a b c rule: list_induct3) (auto simp: xor_bytes_def xor.left_commute)

lemma sample_dh_ok: "dh_ok sample_prims"
  unfolding dh_ok_def sample_prims_def
  by (auto simp: basepoint_def xor_bytes_swap split: if_splits)

lemma sample_sig_ok: "sig_ok sample_prims"
  by (auto simp: sig_ok_def sample_prims_def)

end
