(* ===== verification/Framing.thy ===== *)
theory Framing
  imports Primitives
begin

text \<open>
  What the three encrypting packages (\<^verbatim>\<open>internal/crypto\<close>, \<^verbatim>\<open>internal/app\<close>, \<^verbatim>\<open>internal/p2p\<close>)
  agree on: splitting a stream into chunks, the chunk nonce, and the frame
  \<open>BE32(length) || sealed\<close>. The contract of a nonce derivation and of a frame reader are
  locales; each package's own functions interpret them.
\<close>

section \<open>Chunks\<close>

fun chunks :: "nat \<Rightarrow> 'a list \<Rightarrow> 'a list list" where
  "chunks n xs = (if n = 0 \<or> xs = [] then [] else take n xs # chunks n (drop n xs))"

declare chunks.simps [simp del]

lemma chunks_Nil [simp]: "chunks n [] = []"
  by (simp add: chunks.simps)

lemma chunks_step: "0 < n \<Longrightarrow> xs \<noteq> [] \<Longrightarrow> chunks n xs = take n xs # chunks n (drop n xs)"
  by (simp add: chunks.simps [of n xs])

lemma concat_chunks [simp]: "0 < n \<Longrightarrow> concat (chunks n xs) = xs"
proof (induction n xs rule: chunks.induct)
  case (1 n xs)
  then show ?case by (cases "xs = []") (simp_all add: chunks_step)
qed

lemma chunks_bound: "c \<in> set (chunks n xs) \<Longrightarrow> length c \<le> n \<and> c \<noteq> []"
proof (induction n xs rule: chunks.induct)
  case (1 n xs)
  then show ?case by (auto simp: chunks.simps [of n xs] split: if_splits)
qed

lemma length_chunks: "0 < n \<Longrightarrow> length (chunks n xs) = (length xs + n - 1) div n"
proof (induction n xs rule: chunks.induct)
  case (1 n xs)
  show ?case
  proof (cases "xs = []")
    case True
    then show ?thesis using "1.prems" by simp
  next
    case False
    then have IH: "length (chunks n (drop n xs)) = (length xs - n + n - 1) div n"
      using "1" by simp
    show ?thesis
    proof (cases "n \<le> length xs")
      case True
      obtain m where m: "length xs = Suc m" using False by (cases xs) auto
      have "(length xs + n - 1) div n = Suc ((length xs - 1) div n)"
        using "1.prems" by (simp add: m div_add_self2)
      then show ?thesis using IH False True "1.prems" by (simp add: chunks_step)
    next
      case lt: False
      obtain m where m: "length xs = Suc m" using False by (cases xs) auto
      have "(length xs + n - 1) div n = 1"
        using lt by (intro div_nat_eqI) (simp_all add: m)
      then show ?thesis using lt False "1.prems" by (simp add: chunks_step)
    qed
  qed
qed

section \<open>Chunk nonces\<close>

text \<open>The contract of the file format: the header nonce with its last eight bytes XORed by the
  big-endian chunk index.\<close>

locale nonce_scheme =
  fixes cn :: "bytes \<Rightarrow> u64 \<Rightarrow> bytes"
  assumes cn_contract:
    "length h = 24 \<Longrightarrow> cn h i = take 16 h @ xor_bytes (drop 16 h) (be64 i)"
begin

lemma cn_length [simp]: "length h = 24 \<Longrightarrow> length (cn h i) = 24"
  by (simp add: cn_contract)

lemma cn_inj:
  assumes "length h = 24" "cn h i = cn h j" shows "i = j"
proof -
  have x: "xor_bytes (drop 16 h) (be64 i) = xor_bytes (drop 16 h) (be64 j)"
    using assms(2) unfolding cn_contract [OF assms(1)] by simp
  have "be64 i = be64 j"
    by (rule xor_bytes_cancel [OF _ _ x]) (simp_all add: assms(1))
  then show ?thesis by (metis rd64_be64)
qed

text \<open>No nonce repeats within one file of at most $2^{64}$ chunks.\<close>

lemma cn_distinct:
  assumes "length h = 24" "n \<le> 2 ^ 64"
  shows "distinct (map (\<lambda>i. cn h (start + of_nat i)) [0..<n])"
proof -
  have "inj_on (\<lambda>i. cn h (start + of_nat i)) {0..<n}"
  proof (rule inj_onI)
    fix i j assume ij: "i \<in> {0..<n}" "j \<in> {0..<n}"
      and "cn h (start + of_nat i) = cn h (start + of_nat j)"
    then have "(of_nat i :: u64) = of_nat j" using cn_inj [OF assms(1)] by fastforce
    then have "take_bit 64 i = take_bit 64 j" by (simp add: word_of_nat_eq_iff)
    moreover have "i < 2 ^ 64" "j < 2 ^ 64" using ij assms(2) by simp_all
    ultimately show "i = j" by (simp only: take_bit_nat_eq_self)
  qed
  then show ?thesis by (simp add: distinct_map)
qed

end

section \<open>Frames\<close>

definition frame :: "prims \<Rightarrow> (bytes \<Rightarrow> u64 \<Rightarrow> bytes) \<Rightarrow> bytes \<Rightarrow> bytes \<Rightarrow> u64 \<Rightarrow> bytes \<Rightarrow> bytes" where
  "frame P cn key h i p =
     (let sealed = p_seal P key (cn h i) p in be32 (of_nat (length sealed)) @ sealed)"

fun frames :: "prims \<Rightarrow> (bytes \<Rightarrow> u64 \<Rightarrow> bytes) \<Rightarrow> bytes \<Rightarrow> bytes \<Rightarrow> u64 \<Rightarrow> bytes list \<Rightarrow> bytes" where
  "frames P cn key h i [] = []"
| "frames P cn key h i (p # ps) = frame P cn key h i p @ frames P cn key h (i + 1) ps"

lemma frames_append:
  "frames P cn key h i (ps @ qs) = frames P cn key h i ps @ frames P cn key h (i + of_nat (length ps)) qs"
  by (induction ps arbitrary: i) (simp_all add: algebra_simps)

lemma length_frame:
  "aead_ok P \<Longrightarrow> length p \<le> aead_max \<Longrightarrow> length (frame P cn key h i p) = length p + 20"
  by (simp add: frame_def Let_def aead_seal_length)

lemma length_frames:
  "aead_ok P \<Longrightarrow> \<forall>p \<in> set ps. length p \<le> aead_max \<Longrightarrow>
    length (frames P cn key h i ps) = length (concat ps) + 20 * length ps"
  by (induction ps arbitrary: i) (auto simp: length_frame)

text \<open>What a reader finds when the length prefix fits and the payload opens is a frame.\<close>

lemma frame_split:
  assumes "aead_ok P" "4 \<le> length src" "unat (rd32 src) \<le> length (drop 4 src)"
    and o: "p_open P key (cn h i) (take (unat (rd32 src)) (drop 4 src)) = Some p"
  shows "src = frame P cn key h i p @ drop (unat (rd32 src)) (drop 4 src) \<and>
    unat (rd32 src) = length p + 16"
proof -
  let ?n = "unat (rd32 src)" and ?rest = "drop 4 src"
  let ?c = "take ?n ?rest"
  have c: "?c = p_seal P key (cn h i) p"
    using aead_open_only_sealed [OF assms(1) o] by blast
  have lc: "length ?c = ?n" using assms(3) by (rule length_take_le)
  then have l: "?n = length p + 16"
    using aead_open_length [OF assms(1) o] by (simp only:)
  have "rd32 src = rd32 (take 4 src)" by (simp add: rd32_def)
  then have "be32 (rd32 src) = take 4 src"
    using be32_rd32 [of "take 4 src"] assms(2) by simp
  moreover have "rd32 src = of_nat (length ?c)" using assms(3) by simp
  ultimately have "frame P cn key h i p = take 4 src @ ?c"
    by (simp add: frame_def Let_def flip: c)
  then have "src = frame P cn key h i p @ drop ?n ?rest"
    by (metis append_assoc append_take_drop_id)
  then show ?thesis using l by blast
qed

text \<open>
  A frame reader maps a byte stream to an error, if any, and the plaintext written so far.
  It accepts the empty stream, reads a frame of an acceptable plaintext and goes on with the
  next index, and where it succeeds the stream starts with such a frame.
\<close>

locale frame_reader =
  fixes reader :: "prims \<Rightarrow> bytes \<Rightarrow> bytes \<Rightarrow> u64 \<Rightarrow> bytes \<Rightarrow> 'e option \<times> bytes"
    and cn :: "bytes \<Rightarrow> u64 \<Rightarrow> bytes"
    and max_plain :: nat
  assumes reader_Nil: "reader P key h i [] = (None, [])"
    and reader_frame: "aead_ok P \<Longrightarrow> length p \<le> max_plain \<Longrightarrow>
      reader P key h i (frame P cn key h i p @ rest) =
        map_prod id ((@) p) (reader P key h (i + 1) rest)"
    and reader_inv: "aead_ok P \<Longrightarrow> reader P key h i src = (None, out) \<Longrightarrow> src \<noteq> [] \<Longrightarrow>
      \<exists>p rest out'. src = frame P cn key h i p @ rest \<and> out = p @ out' \<and> length p \<le> max_plain \<and>
        reader P key h (i + 1) rest = (None, out')"
begin

lemma reader_frames:
  "aead_ok P \<Longrightarrow> \<forall>p \<in> set ps. length p \<le> max_plain \<Longrightarrow>
    reader P key h i (frames P cn key h i ps) = (None, concat ps)"
  by (induction ps arbitrary: i) (simp_all add: reader_Nil reader_frame)

lemma reader_prefix:
  "aead_ok P \<Longrightarrow> \<forall>p \<in> set ps. length p \<le> max_plain \<Longrightarrow>
    reader P key h i (frames P cn key h i ps @ rest) =
      map_prod id ((@) (concat ps)) (reader P key h (i + of_nat (length ps)) rest)"
proof (induction ps arbitrary: i)
  case Nil
  then show ?case by (simp add: map_prod_def)
next
  case (Cons p ps)
  then show ?case by (simp add: reader_frame map_prod_def split_def add_ac)
qed

lemma reader_sound:
  assumes "aead_ok P" "reader P key h i src = (None, out)"
  shows "\<exists>ps. src = frames P cn key h i ps \<and> out = concat ps \<and> (\<forall>p \<in> set ps. length p \<le> max_plain)"
  using assms(2)
proof (induction "length src" arbitrary: src i out rule: less_induct)
  case less
  show ?case
  proof (cases "src = []")
    case True
    then show ?thesis using less.prems by (intro exI [of _ "[]"]) (simp add: reader_Nil)
  next
    case False
    from reader_inv [OF assms(1) less.prems False] obtain p rest out' where
      src: "src = frame P cn key h i p @ rest" and out: "out = p @ out'"
      and p: "length p \<le> max_plain" and r: "reader P key h (i + 1) rest = (None, out')"
      by blast
    have "length rest < length src" by (simp add: src frame_def Let_def)
    from less.hyps [OF this r] obtain ps where
      "rest = frames P cn key h (i + 1) ps" "out' = concat ps" "\<forall>p \<in> set ps. length p \<le> max_plain"
      by blast
    then show ?thesis using src out p by (intro exI [of _ "p # ps"]) simp
  qed
qed

text \<open>A reader accepts exactly the framings of acceptable plaintexts.\<close>

lemma reader_iff:
  "aead_ok P \<Longrightarrow> reader P key h i src = (None, out) \<longleftrightarrow>
    (\<exists>ps. src = frames P cn key h i ps \<and> out = concat ps \<and> (\<forall>p \<in> set ps. length p \<le> max_plain))"
  using reader_sound reader_frames by blast

end

end
