(* ===== verification/GoStrings.thy ===== *)
theory GoStrings
  imports Prelude
begin

text \<open>
  The functions of Go's \<^verbatim>\<open>strings\<close>, \<^verbatim>\<open>strconv\<close> and \<^verbatim>\<open>encoding/hex\<close> that the packages call,
  on byte strings, with the facts about them the components share: trimming is idempotent,
  decimal and hexadecimal printing are undone by parsing.
\<close>

section \<open>Prefixes, suffixes, searching\<close>

definition has_prefix :: "string \<Rightarrow> string \<Rightarrow> bool" where
  "has_prefix p s \<longleftrightarrow> take (length p) s = p"

definition has_suffix :: "string \<Rightarrow> string \<Rightarrow> bool" where
  "has_suffix p s \<longleftrightarrow> has_prefix (rev p) (rev s)"

definition trim_prefix :: "string \<Rightarrow> string \<Rightarrow> string" where
  "trim_prefix p s = (if has_prefix p s then drop (length p) s else s)"

definition trim_suffix :: "string \<Rightarrow> string \<Rightarrow> string" where
  "trim_suffix p s = (if has_suffix p s then take (length s - length p) s else s)"

fun index_byte :: "string \<Rightarrow> char \<Rightarrow> nat option" where
  "index_byte [] c = None"
| "index_byte (x # xs) c = (if x = c then Some 0 else map_option Suc (index_byte xs c))"

fun contains :: "string \<Rightarrow> string \<Rightarrow> bool" where
  "contains p [] \<longleftrightarrow> p = []"
| "contains p (x # xs) \<longleftrightarrow> has_prefix p (x # xs) \<or> contains p xs"

lemma has_prefix_append [simp]: "has_prefix p (p @ s)"
  by (simp add: has_prefix_def)

lemma has_prefix_iff: "has_prefix p s \<longleftrightarrow> (\<exists>t. s = p @ t)"
  unfolding has_prefix_def by (metis append_eq_conv_conj append_take_drop_id)

lemma has_suffix_iff: "has_suffix p s \<longleftrightarrow> (\<exists>t. s = t @ p)"
  unfolding has_suffix_def has_prefix_iff
  by (metis rev_append rev_rev_ident)

lemma has_suffix_append [simp]: "has_suffix p (s @ p)"
  by (auto simp: has_suffix_iff)

lemma trim_suffix_append [simp]: "trim_suffix p (s @ p) = s"
  by (simp add: trim_suffix_def)

lemma trim_prefix_append [simp]: "trim_prefix p (p @ s) = s"
  by (simp add: trim_prefix_def)

lemma index_byte_append:
  "c \<notin> set a \<Longrightarrow> index_byte (a @ c # b) c = Some (length a)"
  by (induction a) auto

lemma index_byte_None: "index_byte s c = None \<longleftrightarrow> c \<notin> set s"
  by (induction s) auto

section \<open>Character classes\<close>

abbreviation code :: "char \<Rightarrow> nat" where
  "code c \<equiv> of_char c"

definition is_digit :: "char \<Rightarrow> bool" where
  "is_digit c \<longleftrightarrow> 48 \<le> code c \<and> code c \<le> 57"

definition is_lower :: "char \<Rightarrow> bool" where
  "is_lower c \<longleftrightarrow> 97 \<le> code c \<and> code c \<le> 122"

definition is_upper :: "char \<Rightarrow> bool" where
  "is_upper c \<longleftrightarrow> 65 \<le> code c \<and> code c \<le> 90"

definition is_ascii :: "char \<Rightarrow> bool" where
  "is_ascii c \<longleftrightarrow> code c < 128"

text \<open>A visible ASCII character: neither a space nor the first or last byte of any Unicode
  space.\<close>

definition is_graph :: "char \<Rightarrow> bool" where
  "is_graph c \<longleftrightarrow> 33 \<le> code c \<and> code c < 127"

lemma is_digit_graph [simp]: "is_digit c \<Longrightarrow> is_graph c"
  by (simp add: is_digit_def is_graph_def)

lemma code_inj: "code c = code d \<longleftrightarrow> c = d"
  using of_char_eq_iff by blast

section \<open>TrimSpace\<close>

text \<open>
  \<^verbatim>\<open>strings.TrimSpace\<close> strips the runes for which \<^verbatim>\<open>unicode.IsSpace\<close> holds from both ends. On
  the byte level these are the following encodings. A valid encoding at the start (end) of a
  byte string is the first (last) rune Go decodes there, so stripping encodings is stripping
  runes.
\<close>

definition space_encodings :: "string list" where
  "space_encodings = map (map char_of)
     ([[32], [9], [10], [11], [12], [13], [194, 133], [194, 160], [225, 154, 128],
       [226, 128, 128], [226, 128, 129], [226, 128, 130], [226, 128, 131], [226, 128, 132],
       [226, 128, 133], [226, 128, 134], [226, 128, 135], [226, 128, 136], [226, 128, 137],
       [226, 128, 138], [226, 128, 168], [226, 128, 169], [226, 128, 175], [226, 129, 159],
       [227, 128, 128]] :: nat list list)"

function strip_left :: "string list \<Rightarrow> string \<Rightarrow> string" where
  "strip_left encs s =
     (case find (\<lambda>e. e \<noteq> [] \<and> has_prefix e s) encs of
        None \<Rightarrow> s
      | Some e \<Rightarrow> strip_left encs (drop (length e) s))"
  by pat_completeness auto
termination
proof (relation "measure (\<lambda>(encs, s). length s)", goal_cases)
  case 1
  show ?case by simp
next
  case (2 encs s e)
  then have "e \<noteq> []" and "has_prefix e s"
    by (auto simp: find_Some_iff)
  then show ?case
    by (cases s) (auto simp: has_prefix_def)
qed

declare strip_left.simps [simp del]

definition strip_right :: "string list \<Rightarrow> string \<Rightarrow> string" where
  "strip_right encs s = rev (strip_left (map rev encs) (rev s))"

definition trim_space :: "string \<Rightarrow> string" where
  "trim_space s = strip_right space_encodings (strip_left space_encodings s)"

lemma strip_left_fixed:
  "find (\<lambda>e. e \<noteq> [] \<and> has_prefix e s) encs = None \<Longrightarrow> strip_left encs s = s"
  by (simp add: strip_left.simps)

lemma strip_left_no_prefix:
  "find (\<lambda>e. e \<noteq> [] \<and> has_prefix e (strip_left encs s)) encs = None"
proof (induction encs s rule: strip_left.induct)
  case (1 encs s)
  show ?case
  proof (cases "find (\<lambda>e. e \<noteq> [] \<and> has_prefix e s) encs")
    case None
    then show ?thesis by (simp add: strip_left_fixed)
  next
    case (Some e)
    then show ?thesis using "1" by (simp add: strip_left.simps [of encs s])
  qed
qed

lemma strip_left_suffix: "\<exists>t. s = t @ strip_left encs s"
proof (induction encs s rule: strip_left.induct)
  case (1 encs s)
  show ?case
  proof (cases "find (\<lambda>e. e \<noteq> [] \<and> has_prefix e s) encs")
    case None
    then show ?thesis by (simp add: strip_left_fixed)
  next
    case (Some e)
    then obtain t where "drop (length e) s = t @ strip_left encs (drop (length e) s)"
      using "1" by blast
    then have "s = (take (length e) s @ t) @ strip_left encs (drop (length e) s)"
      by (metis append_assoc append_take_drop_id)
    then show ?thesis using Some
      by (intro exI [of _ "take (length e) s @ t"]) (simp add: strip_left.simps [of encs s])
  qed
qed

lemma strip_right_prefix: "\<exists>t. s = strip_right encs s @ t"
  using strip_left_suffix [of "rev s" "map rev encs"]
  unfolding strip_right_def by (metis rev_append rev_rev_ident)

lemma trim_space_idem [simp]: "trim_space (trim_space s) = trim_space s"
proof -
  let ?E = "space_encodings" and ?l = "strip_left space_encodings s"
  obtain t where t: "?l = strip_right ?E ?l @ t" using strip_right_prefix by blast
  have "find (\<lambda>e. e \<noteq> [] \<and> has_prefix e (strip_right ?E ?l)) ?E = None"
  proof (rule ccontr)
    assume "find (\<lambda>e. e \<noteq> [] \<and> has_prefix e (strip_right ?E ?l)) ?E \<noteq> None"
    then obtain e where "e \<in> set ?E" "e \<noteq> []" "has_prefix e (strip_right ?E ?l)"
      by (auto simp: find_None_iff)
    moreover from this have "has_prefix e ?l"
      using t unfolding has_prefix_iff by (metis append_assoc)
    ultimately show False using strip_left_no_prefix [of ?E s] by (auto simp: find_None_iff)
  qed
  then have "strip_left ?E (strip_right ?E ?l) = strip_right ?E ?l"
    by (rule strip_left_fixed)
  moreover have "strip_right ?E (strip_right ?E ?l) = strip_right ?E ?l"
    unfolding strip_right_def
    using strip_left_fixed [OF strip_left_no_prefix [of "map rev ?E" "rev ?l"]] by simp
  ultimately show ?thesis by (simp add: trim_space_def)
qed

lemma space_encodings_ends:
  "e \<in> set space_encodings \<Longrightarrow> e \<noteq> [] \<and> \<not> is_graph (hd e) \<and> \<not> is_graph (last e)"
  by (auto simp: space_encodings_def is_graph_def)

lemma trim_space_id:
  assumes "s \<noteq> []" "is_graph (hd s)" "is_graph (last s)"
  shows "trim_space s = s"
proof -
  have no: "\<not> has_prefix e s" if "e \<in> set space_encodings" for e
    using space_encodings_ends [OF that] assms by (auto simp: has_prefix_iff)
  then have l: "strip_left space_encodings s = s"
    by (intro strip_left_fixed) (auto simp: find_None_iff)
  have "\<not> has_prefix (rev e) (rev s)" if "e \<in> set space_encodings" for e
  proof
    assume "has_prefix (rev e) (rev s)"
    then obtain t where "rev s = rev e @ t" by (auto simp: has_prefix_iff)
    then have "s = rev t @ e" by (metis rev_append rev_rev_ident)
    with space_encodings_ends [OF that] assms show False by (auto simp: last_append)
  qed
  then have "strip_left (map rev space_encodings) (rev s) = rev s"
    by (intro strip_left_fixed) (auto simp: find_None_iff)
  with l show ?thesis by (simp add: trim_space_def strip_right_def)
qed

lemma trim_space_Nil [simp]: "trim_space [] = []"
  by (simp add: trim_space_def strip_right_def strip_left.simps has_prefix_def
      find_None_iff [THEN iffD2])

section \<open>Case\<close>

text \<open>\<^verbatim>\<open>strings.ToLower/ToUpper\<close> map ASCII strings byte by byte; other strings go through the
  Unicode tables, which are a parameter.\<close>

definition ascii_lower :: "char \<Rightarrow> char" where
  "ascii_lower c = (if is_upper c then char_of (code c + 32) else c)"

definition ascii_upper :: "char \<Rightarrow> char" where
  "ascii_upper c = (if is_lower c then char_of (code c - 32) else c)"

definition to_lower :: "(string \<Rightarrow> string) \<Rightarrow> string \<Rightarrow> string" where
  "to_lower uni s = (if list_all is_ascii s then map ascii_lower s else uni s)"

definition to_upper :: "(string \<Rightarrow> string) \<Rightarrow> string \<Rightarrow> string" where
  "to_upper uni s = (if list_all is_ascii s then map ascii_upper s else uni s)"

section \<open>Decimal integers\<close>

definition digit_char :: "nat \<Rightarrow> char" where
  "digit_char d = char_of (48 + d)"

definition digit_val :: "char \<Rightarrow> nat" where
  "digit_val c = code c - 48"

fun digits_val :: "nat \<Rightarrow> string \<Rightarrow> nat option" where
  "digits_val acc [] = Some acc"
| "digits_val acc (c # cs) =
     (if is_digit c then digits_val (10 * acc + digit_val c) cs else None)"

text \<open>\<^verbatim>\<open>strconv.ParseInt(s, 10, 64)\<close>: an optional sign, at least one digit, digits only, a value in
  range. Every error is \<open>None\<close>: the callers only test for one.\<close>

definition parse_int :: "string \<Rightarrow> int option" where
  "parse_int s =
     (let neg = (case s of c # _ \<Rightarrow> c = CHR ''-'' | [] \<Rightarrow> False);
          body = (case s of c # cs \<Rightarrow> if c = CHR ''-'' \<or> c = CHR ''+'' then cs else s | [] \<Rightarrow> s)
      in if body = [] then None
         else case digits_val 0 body of
                None \<Rightarrow> None
              | Some n \<Rightarrow>
                  if neg then (if n \<le> 2 ^ 63 then Some (- int n) else None)
                  else (if n < 2 ^ 63 then Some (int n) else None))"

fun format_nat :: "nat \<Rightarrow> string" where
  "format_nat n = (if n < 10 then [digit_char n] else format_nat (n div 10) @ [digit_char (n mod 10)])"

declare format_nat.simps [simp del]

text \<open>\<^verbatim>\<open>strconv.FormatInt(n, 10)\<close>.\<close>

definition format_int :: "int \<Rightarrow> string" where
  "format_int n = (if n < 0 then CHR ''-'' # format_nat (nat (- n)) else format_nat (nat n))"

lemma is_digit_digit_char [simp]: "d < 10 \<Longrightarrow> is_digit (digit_char d)"
  by (simp add: is_digit_def digit_char_def)

lemma digit_val_digit_char [simp]: "d < 10 \<Longrightarrow> digit_val (digit_char d) = d"
  by (simp add: digit_val_def digit_char_def)

lemma digits_val_append:
  "digits_val acc (xs @ ys) = (case digits_val acc xs of None \<Rightarrow> None | Some a \<Rightarrow> digits_val a ys)"
  by (induction xs arbitrary: acc) auto

lemma digits_val_format_nat [simp]: "digits_val 0 (format_nat n) = Some n"
proof (induction n rule: format_nat.induct)
  case (1 n)
  then show ?case by (auto simp: format_nat.simps [of n] digits_val_append)
qed

lemma format_nat_digits: "c \<in> set (format_nat n) \<Longrightarrow> is_digit c"
proof (induction n rule: format_nat.induct)
  case (1 n)
  then show ?case by (cases "n < 10") (auto simp: format_nat.simps [of n])
qed

lemma format_nat_not_Nil [simp]: "format_nat n \<noteq> []"
  by (simp add: format_nat.simps [of n])

lemma format_nat_hd: "is_digit (hd (format_nat n))"
  by (rule format_nat_digits [of _ n]) simp

lemma format_nat_last: "is_digit (last (format_nat n))"
  by (rule format_nat_digits [of _ n]) simp

lemma format_int_nonneg: "0 \<le> n \<Longrightarrow> format_int n = format_nat (nat n)"
  by (simp add: format_int_def)

lemma parse_int_format_nat: "parse_int (format_nat n) = (if n < 2 ^ 63 then Some (int n) else None)"
proof -
  obtain c cs where f: "format_nat n = c # cs" by (cases "format_nat n") auto
  with format_nat_hd [of n] have "is_digit c" by simp
  then have "c \<noteq> CHR ''-''" "c \<noteq> CHR ''+''" by (auto simp: is_digit_def)
  moreover have "digits_val 0 (c # cs) = Some n"
    using digits_val_format_nat [of n] by (simp only: f)
  ultimately show ?thesis
    unfolding parse_int_def f by (simp del: digits_val.simps)
qed

lemma parse_format_nat: "int n < 2 ^ 63 \<Longrightarrow> parse_int (format_nat n) = Some (int n)"
  by (simp add: parse_int_format_nat)

lemma parse_int_minus:
  "parse_int (CHR ''-'' # s) =
     (if s = [] then None
      else case digits_val 0 s of
             None \<Rightarrow> None
           | Some n \<Rightarrow> if n \<le> 2 ^ 63 then Some (- int n) else None)"
  by (simp add: parse_int_def Let_def split: option.splits)

lemma parse_format_int [wire]:
  assumes "in_int64 n" shows "parse_int (format_int n) = Some n"
proof (cases "n < 0")
  case True
  then have f: "format_int n = CHR ''-'' # format_nat (nat (- n))" by (simp add: format_int_def)
  have "nat (- n) \<le> 2 ^ 63"
    using assms by (simp add: in_int64_def nat_le_iff)
  with True show ?thesis
    unfolding f parse_int_minus digits_val_format_nat by simp
next
  case False
  then have "int (nat n) < 2 ^ 63" using assms by (simp add: in_int64_def)
  with False show ?thesis
    using parse_format_nat [of "nat n"] by (simp only: format_int_nonneg [of n] not_less nat_0_le)
qed

lemma parse_int_range: "parse_int s = Some n \<Longrightarrow> in_int64 n"
  by (auto simp: parse_int_def in_int64_def Let_def split: option.splits if_splits)

section \<open>Hexadecimal\<close>

definition hex_char :: "nat \<Rightarrow> char" where
  "hex_char n = (if n < 10 then char_of (48 + n) else char_of (87 + n))"

definition hex_val :: "char \<Rightarrow> nat option" where
  "hex_val c =
     (if is_digit c then Some (code c - 48)
      else if 97 \<le> code c \<and> code c \<le> 102 then Some (code c - 87)
      else if 65 \<le> code c \<and> code c \<le> 70 then Some (code c - 55)
      else None)"

text \<open>\<^verbatim>\<open>hex.EncodeToString\<close> and \<^verbatim>\<open>hex.DecodeString\<close> (both errors of the latter, an odd length and a
  bad digit, are \<open>None\<close>).\<close>

fun hex_encode :: "bytes \<Rightarrow> string" where
  "hex_encode [] = []"
| "hex_encode (b # bs) = hex_char (unat b div 16) # hex_char (unat b mod 16) # hex_encode bs"

fun hex_decode :: "string \<Rightarrow> bytes option" where
  "hex_decode [] = Some []"
| "hex_decode [c] = None"
| "hex_decode (c # d # cs) =
     (case (hex_val c, hex_val d, hex_decode cs) of
        (Some h, Some l, Some bs) \<Rightarrow> Some (word_of_nat (16 * h + l) # bs)
      | _ \<Rightarrow> None)"

lemma hex_val_hex_char [simp]: "n < 16 \<Longrightarrow> hex_val (hex_char n) = Some n"
  by (auto simp: hex_val_def hex_char_def is_digit_def)

lemma hex_decode_encode [simp, wire]: "hex_decode (hex_encode bs) = Some bs"
proof (induction bs)
  case Nil
  then show ?case by simp
next
  case (Cons b bs)
  have "unat b div 16 < 16" using unat_byte_less [of b] by linarith
  moreover have "16 * (unat b div 16) + unat b mod 16 = unat b"
    by (rule mult_div_mod_eq)
  ultimately show ?case using Cons by simp
qed

lemma length_hex_encode [simp]: "length (hex_encode bs) = 2 * length bs"
  by (induction bs) auto

lemma hex_encode_Nil_iff [simp]: "hex_encode bs = [] \<longleftrightarrow> bs = []"
  by (cases bs) auto

lemma hex_encode_inj [simp]: "hex_encode a = hex_encode b \<longleftrightarrow> a = b"
  by (metis hex_decode_encode option.inject)

lemma hex_decode_length: "hex_decode s = Some bs \<Longrightarrow> length s = 2 * length bs"
  by (induction s arbitrary: bs rule: hex_decode.induct) (auto split: option.splits)

lemma hex_val_upper [simp]: "n < 16 \<Longrightarrow> hex_val (ascii_upper (hex_char n)) = Some n"
  by (auto simp: hex_val_def hex_char_def ascii_upper_def is_digit_def is_lower_def)

lemma hex_char_ascii [simp]: "n < 16 \<Longrightarrow> is_ascii (hex_char n)" "n < 16 \<Longrightarrow> is_ascii (ascii_upper (hex_char n))"
  by (auto simp: is_ascii_def hex_char_def ascii_upper_def is_lower_def)

lemma ascii_hex_encode [simp]: "list_all is_ascii (hex_encode bs)"
proof (induction bs)
  case (Cons b bs)
  have "unat b div 16 < 16" using unat_byte_less [of b] by linarith
  with Cons show ?case by simp
qed simp

lemma hex_decode_upper [wire]: "hex_decode (map ascii_upper (hex_encode bs)) = Some bs"
proof (induction bs)
  case (Cons b bs)
  have "unat b div 16 < 16" using unat_byte_less [of b] by linarith
  moreover have "16 * (unat b div 16) + unat b mod 16 = unat b"
    by (rule mult_div_mod_eq)
  ultimately show ?case using Cons by simp
qed simp

lemma to_upper_hex [simp]: "to_upper uni (hex_encode bs) = map ascii_upper (hex_encode bs)"
  by (simp add: to_upper_def)

end
