(* ===== verification/Crypto.thy ===== *)
theory Crypto
  imports Framing GoStrings
begin

text \<open>
  \<^verbatim>\<open>internal/crypto/crypto.go\<close>: the GD01 sealed-file format (\<open>crypto_seal_loop\<close>,
  \<open>crypto_SealFile\<close>, \<open>crypto_open_loop\<close>, \<open>crypto_OpenFile\<close>), single-message sealing, file-key
  wrapping, signatures and key generation. The file system is a map from paths to contents;
  the bytes read from \<^verbatim>\<open>crypto/rand\<close> are an argument, \<open>None\<close> where reading them fails. Faults of
  the device (a failing read or write of an open file) are not modelled.
\<close>

type_synonym fs = "string \<rightharpoonup> bytes"

datatype crypto_err =
    NoSuchFile
  | RandFailed
  | BadHeader
  | BadMagic bytes
  | BadHeaderNonce
  | TruncatedChunkHeader
  | BadChunkLength u32
  | TruncatedChunk
  | AuthFailed u64
  | MsgAuthFailed
  | BadKeyLength
  | BadNonceLength
  | X25519Failed
  | WrappedTooShort
  | UnwrapAuthFailed
  | BadUnwrappedLength nat
  | BadPrivateKeyLength

section \<open>Constants\<close>

definition ChunkSize :: nat where
  "ChunkSize = 2 ^ 20"

definition NonceSize :: nat where
  "NonceSize = 24"

definition KeySize :: nat where
  "KeySize = 32"

definition SaltSize :: nat where
  "SaltSize = 16"

definition Magic :: bytes where
  "Magic = bytes_of ''GD01''"

lemma ChunkSize_pos [simp]: "0 < ChunkSize" "ChunkSize \<noteq> 0"
  by (simp_all add: ChunkSize_def)

lemma ChunkSize_le_max [simp]: "ChunkSize \<le> aead_max"
  by (simp add: ChunkSize_def aead_max_def)

lemma length_Magic [simp]: "length Magic = 4"
  by (simp add: Magic_def)

section \<open>Sealing and opening files\<close>

text \<open>\<^verbatim>\<open>chunkNonce\<close>: copy the header nonce, XOR the big-endian index into its last 8 bytes.\<close>

definition crypto_chunkNonce :: "bytes \<Rightarrow> u64 \<Rightarrow> bytes" where
  "crypto_chunkNonce headerNonce index =
     (let ctr = be64 index in
        take (NonceSize - 8) headerNonce @ xor_bytes (drop (NonceSize - 8) headerNonce) ctr)"

lemma full_read_shrinks:
  "\<not> min (length src) ChunkSize < ChunkSize \<Longrightarrow> length src - ChunkSize < length src"
  using ChunkSize_pos(1) by linarith

text \<open>
  The loop of \<^verbatim>\<open>SealFile\<close>. One round reads up to a chunk with \<^verbatim>\<open>io.ReadFull\<close>, which reports
  the end of the file exactly when it got less than a chunk. The result is what was written
  to the sealed file, what was fed to the plaintext hash, and the count of plaintext bytes.
\<close>

function crypto_seal_loop :: "prims \<Rightarrow> bytes \<Rightarrow> bytes \<Rightarrow> u64 \<Rightarrow> bytes \<Rightarrow> bytes \<times> bytes \<times> int" where
  "crypto_seal_loop P key headerNonce index src =
     (let plain = take ChunkSize src;
          rn = length plain;
          (out, hashed, n, index') =
            (if rn > 0
             then (let nonce = crypto_chunkNonce headerNonce index;
                       sealed = p_seal P key nonce plain
                   in (be32 (of_nat (length sealed)) @ sealed, plain, int rn, index + 1))
             else ([], [], 0, index))
      in if rn < ChunkSize then (out, hashed, n)
         else (let (out', hashed', n') =
                     crypto_seal_loop P key headerNonce index' (drop ChunkSize src)
               in (out @ out', hashed @ hashed', n + n')))"
  by pat_completeness auto
termination
  by (relation "measure (\<lambda>(P, key, h, i, src). length src)")
    (auto intro!: full_read_shrinks)

declare crypto_seal_loop.simps [simp del]

text \<open>\<^verbatim>\<open>SealFile\<close>: the destination is created (truncated) before the source is read and removed
  when the nonce cannot be drawn.\<close>

definition crypto_SealFile ::
  "prims \<Rightarrow> bytes option \<Rightarrow> fs \<Rightarrow> string \<Rightarrow> string \<Rightarrow> bytes
     \<Rightarrow> (crypto_err + string \<times> string \<times> int) \<times> fs" where
  "crypto_SealFile P rnd fs srcPath dstPath key =
     (case fs srcPath of
        None \<Rightarrow> (Inl NoSuchFile, fs)
      | Some _ \<Rightarrow>
          (let fs1 = fs(dstPath \<mapsto> []) in
             case rnd of
               None \<Rightarrow> (Inl RandFailed, fs1(dstPath := None))
             | Some headerNonce \<Rightarrow>
                 (let src = the (fs1 srcPath);
                      (out, hashed, n) = crypto_seal_loop P key headerNonce 0 src;
                      file = Magic @ headerNonce @ out
                  in (Inr (hex_encode (p_sha256 P file), hex_encode (p_sha256 P hashed), n),
                      fs1(dstPath \<mapsto> file)))))"

text \<open>
  The loop of \<^verbatim>\<open>OpenFile\<close>: the error that ends it, if any, and the plaintext written so far.
\<close>

function crypto_open_loop ::
  "prims \<Rightarrow> bytes \<Rightarrow> bytes \<Rightarrow> u64 \<Rightarrow> bytes \<Rightarrow> crypto_err option \<times> bytes" where
  "crypto_open_loop P key headerNonce index src =
     (if src = [] then (None, [])
      else if length src < 4 then (Some TruncatedChunkHeader, [])
      else
        (let slen = rd32 src; rest = drop 4 src in
           if slen < 16 \<or> slen > of_nat (ChunkSize + 16) then (Some (BadChunkLength slen), [])
           else if length rest < unat slen then (Some TruncatedChunk, [])
           else
             (let sealed = take (unat slen) rest in
                case p_open P key (crypto_chunkNonce headerNonce index) sealed of
                  None \<Rightarrow> (Some (AuthFailed index), [])
                | Some plain \<Rightarrow>
                    (let (e, written) =
                           crypto_open_loop P key headerNonce (index + 1) (drop (unat slen) rest)
                     in (e, plain @ written)))))"
  by pat_completeness auto
termination
  by (relation "measure (\<lambda>(P, key, h, i, src). length src)") auto

declare crypto_open_loop.simps [simp del]

text \<open>\<^verbatim>\<open>OpenFile\<close>, for distinct paths: the destination exists only after a clean end.\<close>

definition crypto_OpenFile ::
  "prims \<Rightarrow> fs \<Rightarrow> string \<Rightarrow> string \<Rightarrow> bytes \<Rightarrow> crypto_err option \<times> fs" where
  "crypto_OpenFile P fs srcPath dstPath key =
     (case fs srcPath of
        None \<Rightarrow> (Some NoSuchFile, fs)
      | Some file \<Rightarrow>
          (if length file < 4 then (Some BadHeader, fs)
           else if take 4 file \<noteq> Magic then (Some (BadMagic (take 4 file)), fs)
           else if length (drop 4 file) < NonceSize then (Some BadHeaderNonce, fs)
           else
             (let headerNonce = take NonceSize (drop 4 file);
                  body = drop NonceSize (drop 4 file);
                  fs1 = fs(dstPath \<mapsto> []);
                  (e, written) = crypto_open_loop P key headerNonce 0 body
              in case e of
                   Some err \<Rightarrow> (Some err, fs1(dstPath := None))
                 | None \<Rightarrow> (None, fs1(dstPath \<mapsto> written)))))"

section \<open>Messages, keys, signatures\<close>

definition crypto_SealBytes ::
  "prims \<Rightarrow> bytes option \<Rightarrow> bytes \<Rightarrow> bytes \<Rightarrow> crypto_err + bytes \<times> bytes" where
  "crypto_SealBytes P rnd plain key =
     (if length key \<noteq> KeySize then Inl BadKeyLength
      else case rnd of
             None \<Rightarrow> Inl RandFailed
           | Some nonce \<Rightarrow> Inr (nonce, p_seal P key nonce plain))"

definition crypto_OpenBytes :: "prims \<Rightarrow> bytes \<Rightarrow> bytes \<Rightarrow> bytes \<Rightarrow> crypto_err + bytes" where
  "crypto_OpenBytes P nonce cipher key =
     (if length key \<noteq> KeySize then Inl BadKeyLength
      else if length nonce \<noteq> NonceSize then Inl BadNonceLength
      else case p_open P key nonce cipher of
             None \<Rightarrow> Inl MsgAuthFailed
           | Some plain \<Rightarrow> Inr plain)"

text \<open>\<^verbatim>\<open>copy\<close> of a slice into a zeroed \<^verbatim>\<open>[32]byte\<close>.\<close>

definition copy32 :: "bytes \<Rightarrow> bytes" where
  "copy32 b = take 32 (b @ replicate 32 0)"

lemma copy32_id [simp]: "length b = 32 \<Longrightarrow> copy32 b = b"
  by (simp add: copy32_def)

lemma length_copy32 [simp]: "length (copy32 b) = 32"
  by (simp add: copy32_def)

definition crypto_DeriveKeyFromPassphrase :: "prims \<Rightarrow> string \<Rightarrow> bytes \<Rightarrow> bytes" where
  "crypto_DeriveKeyFromPassphrase P passphrase salt =
     copy32 (p_argon2 P (bytes_of passphrase) salt 3 (64 * 1024) 4 KeySize)"

definition crypto_NewSalt :: "bytes option \<Rightarrow> crypto_err + bytes" where
  "crypto_NewSalt rnd = (case rnd of None \<Rightarrow> Inl RandFailed | Some s \<Rightarrow> Inr s)"

definition crypto_GenerateFileKey :: "bytes option \<Rightarrow> crypto_err + bytes" where
  "crypto_GenerateFileKey rnd = (case rnd of None \<Rightarrow> Inl RandFailed | Some k \<Rightarrow> Inr k)"

text \<open>\<^verbatim>\<open>GenerateDropID\<close>: six random bytes as upper-case hex; \<open>None\<close> is the panic. Hex digits are
  ASCII, so the Unicode part of \<^verbatim>\<open>ToUpper\<close> plays no role.\<close>

definition crypto_GenerateDropID :: "bytes option \<Rightarrow> string option" where
  "crypto_GenerateDropID rnd =
     map_option (\<lambda>b. ''GD-'' @ to_upper id (hex_encode b)) rnd"

definition crypto_Wipe :: "bytes \<Rightarrow> bytes" where
  "crypto_Wipe b = map (\<lambda>_. 0) b"

definition crypto_Sha256HexFile :: "prims \<Rightarrow> fs \<Rightarrow> string \<Rightarrow> crypto_err + string \<times> int" where
  "crypto_Sha256HexFile P fs path =
     (case fs path of
        None \<Rightarrow> Inl NoSuchFile
      | Some content \<Rightarrow> Inr (hex_encode (p_sha256 P content), int (length content)))"

definition crypto_GenerateRecipientKeypair ::
  "prims \<Rightarrow> bytes option \<Rightarrow> crypto_err + bytes \<times> bytes" where
  "crypto_GenerateRecipientKeypair P rnd =
     (case rnd of
        None \<Rightarrow> Inl RandFailed
      | Some priv \<Rightarrow>
          (case p_x25519 P priv basepoint of
             None \<Rightarrow> Inl X25519Failed
           | Some pub \<Rightarrow> Inr (copy32 pub, priv)))"

definition crypto_wrapKey :: "prims \<Rightarrow> bytes \<Rightarrow> bytes \<Rightarrow> bytes \<Rightarrow> bytes" where
  "crypto_wrapKey P shared ephemPub recipientPub =
     copy32 (p_sha256 P (shared @ ephemPub @ recipientPub))"

definition crypto_WrapFileKey ::
  "prims \<Rightarrow> bytes option \<Rightarrow> bytes \<Rightarrow> bytes \<Rightarrow> bytes \<Rightarrow> crypto_err + bytes \<times> bytes" where
  "crypto_WrapFileKey P rnd fileKey recipientPub ephemPriv =
     (case p_x25519 P ephemPriv recipientPub of
        None \<Rightarrow> Inl X25519Failed
      | Some shared \<Rightarrow>
          (case p_x25519 P ephemPriv basepoint of
             None \<Rightarrow> Inl X25519Failed
           | Some pub \<Rightarrow>
               (let ephemPub = copy32 pub;
                    wk = crypto_wrapKey P shared ephemPub recipientPub
                in case rnd of
                     None \<Rightarrow> Inl RandFailed
                   | Some nonce \<Rightarrow> Inr (nonce @ p_seal P wk nonce fileKey, ephemPub))))"

definition crypto_UnwrapFileKey ::
  "prims \<Rightarrow> bytes \<Rightarrow> bytes \<Rightarrow> bytes \<Rightarrow> crypto_err + bytes" where
  "crypto_UnwrapFileKey P wrapped ephemPub recipientPriv =
     (if length wrapped < NonceSize then Inl WrappedTooShort
      else case p_x25519 P recipientPriv ephemPub of
             None \<Rightarrow> Inl X25519Failed
           | Some shared \<Rightarrow>
               (case p_x25519 P recipientPriv basepoint of
                  None \<Rightarrow> Inl X25519Failed
                | Some recipPub \<Rightarrow>
                    (let wk = crypto_wrapKey P shared ephemPub recipPub;
                         nonce = take NonceSize wrapped;
                         sealed = drop NonceSize wrapped
                     in case p_open P wk nonce sealed of
                          None \<Rightarrow> Inl UnwrapAuthFailed
                        | Some plain \<Rightarrow>
                            (if length plain \<noteq> KeySize then Inl (BadUnwrappedLength (length plain))
                             else Inr (copy32 plain)))))"

definition crypto_Sign :: "prims \<Rightarrow> bytes \<Rightarrow> bytes \<Rightarrow> crypto_err + bytes" where
  "crypto_Sign P priv msg =
     (if length priv \<noteq> 64 then Inl BadPrivateKeyLength else Inr (p_sign P priv msg))"

definition crypto_Verify :: "prims \<Rightarrow> bytes \<Rightarrow> bytes \<Rightarrow> bytes \<Rightarrow> bool" where
  "crypto_Verify P pub msg sig =
     (if length pub \<noteq> 32 \<or> length sig \<noteq> 64 then False else p_verify P pub msg sig)"

section \<open>The chunk nonces and the frame reader meet their contracts\<close>

interpretation crypto_nonce: nonce_scheme crypto_chunkNonce
  by unfold_locales (simp add: crypto_chunkNonce_def NonceSize_def Let_def)

lemma max_sealed_word:
  assumes "length p \<le> ChunkSize"
  shows "unat (of_nat (length p + 16) :: u32) = length p + 16"
    and "\<not> (of_nat (length p + 16) :: u32) < 16"
    and "\<not> of_nat (ChunkSize + 16) < (of_nat (length p + 16) :: u32)"
proof -
  have u: "unat (of_nat n :: u32) = n" if "n \<le> ChunkSize + 16" for n
    using that by (simp add: unat_of_nat ChunkSize_def)
  show "unat (of_nat (length p + 16) :: u32) = length p + 16" using assms by (intro u) simp
  then show "\<not> (of_nat (length p + 16) :: u32) < 16" by (simp add: word_less_nat_alt)
  show "\<not> of_nat (ChunkSize + 16) < (of_nat (length p + 16) :: u32)"
    using assms u [of "length p + 16"] u [of "ChunkSize + 16"] by (simp add: word_less_nat_alt)
qed

lemma crypto_open_frame:
  assumes "aead_ok P" "length p \<le> ChunkSize"
  shows "crypto_open_loop P key h i (frame P crypto_chunkNonce key h i p @ rest) =
    map_prod id ((@) p) (crypto_open_loop P key h (i + 1) rest)"
proof -
  let ?s = "p_seal P key (crypto_chunkNonce h i) p"
  have pm: "length p \<le> aead_max" using assms(2) ChunkSize_le_max by linarith
  have l: "length ?s = length p + 16" by (rule aead_seal_length [OF assms(1) pm])
  have o: "p_open P key (crypto_chunkNonce h i) ?s = Some p"
    by (rule aead_open_seal [OF assms(1) pm])
  show ?thesis
    using max_sealed_word [OF assms(2)] l o
    by (subst crypto_open_loop.simps) (simp add: frame_def Let_def map_prod_def split: prod.splits)
qed

lemma crypto_open_inv:
  assumes "aead_ok P" and run: "crypto_open_loop P key h i src = (None, out)" and "src \<noteq> []"
  shows "\<exists>p rest out'. src = frame P crypto_chunkNonce key h i p @ rest \<and> out = p @ out' \<and>
    length p \<le> ChunkSize \<and> crypto_open_loop P key h (i + 1) rest = (None, out')"
proof -
  let ?n = "unat (rd32 src)" and ?rest = "drop 4 src"
  let ?c = "take ?n ?rest"
  have len: "4 \<le> length src" and lo: "\<not> rd32 src < 16" and hi: "\<not> rd32 src > of_nat (ChunkSize + 16)"
    and n: "?n \<le> length ?rest"
    using run assms(3) by (subst (asm) crypto_open_loop.simps; simp add: Let_def split: if_splits)+
  obtain p where o: "p_open P key (crypto_chunkNonce h i) ?c = Some p"
    using run assms(3) len lo hi n
    by (subst (asm) crypto_open_loop.simps) (auto simp: Let_def split: option.splits)
  obtain out' where r: "crypto_open_loop P key h (i + 1) (drop ?n ?rest) = (None, out')"
    and out: "out = p @ out'"
    using run assms(3) len lo hi n o
    by (subst (asm) crypto_open_loop.simps) (auto simp: Let_def split: prod.splits)
  from frame_split [where cn = crypto_chunkNonce, OF assms(1) len n o]
  have src: "src = frame P crypto_chunkNonce key h i p @ drop ?n ?rest" and l: "?n = length p + 16"
    by blast+
  have "?n \<le> ChunkSize + 16"
    using hi by (simp add: word_less_nat_alt unat_of_nat ChunkSize_def)
  then have "length p \<le> ChunkSize" using l by simp
  with src out r show ?thesis by blast
qed

interpretation crypto_reader: frame_reader crypto_open_loop crypto_chunkNonce ChunkSize
proof unfold_locales
  show "crypto_open_loop P key h i [] = (None, [])" for P key h i
    by (subst crypto_open_loop.simps) simp
qed (rule crypto_open_frame crypto_open_inv; assumption)+

section \<open>What SealFile writes\<close>

lemma crypto_seal_loop_frames:
  "crypto_seal_loop P key h i src =
    (frames P crypto_chunkNonce key h i (chunks ChunkSize src), src, int (length src))"
proof (induction P key h i src rule: crypto_seal_loop.induct)
  case (1 P key h i src)
  show ?case
  proof (cases "length src < ChunkSize")
    case True
    then show ?thesis
      by (subst crypto_seal_loop.simps)
        (cases "src = []", auto simp: chunks_step frame_def Let_def)
  next
    case False
    then have ne: "src \<noteq> []" and m: "min (length src) ChunkSize = ChunkSize"
      using ChunkSize_pos(1) by (auto simp: min_def)
    have "crypto_seal_loop P key h (i + 1) (drop ChunkSize src) =
      (frames P crypto_chunkNonce key h (i + 1) (chunks ChunkSize (drop ChunkSize src)),
       drop ChunkSize src, int (length (drop ChunkSize src)))"
      using "1" m ne by (simp add: Let_def)
    then show ?thesis
      using False ne m by (subst crypto_seal_loop.simps) (simp add: Let_def frame_def chunks_step)
  qed
qed

lemma crypto_SealFile_ok:
  assumes "fs src = Some plain" "src \<noteq> dst"
  shows "crypto_SealFile P (Some h) fs src dst key =
    (let file = Magic @ h @ frames P crypto_chunkNonce key h 0 (chunks ChunkSize plain)
     in (Inr (hex_encode (p_sha256 P file), hex_encode (p_sha256 P plain), int (length plain)),
         fs(dst \<mapsto> file)))"
  using assms by (simp add: crypto_SealFile_def crypto_seal_loop_frames Let_def)

lemma crypto_OpenFile_framed:
  assumes "fs src = Some (Magic @ h @ body)" "length h = 24"
  shows "crypto_OpenFile P fs src dst key =
    (case crypto_open_loop P key h 0 body of
       (None, written) \<Rightarrow> (None, fs(dst \<mapsto> written))
     | (Some e, written) \<Rightarrow> (Some e, fs(dst := None)))"
  using assms
  by (simp add: crypto_OpenFile_def NonceSize_def Let_def split: prod.splits option.splits)

lemma chunks_within: "p \<in> set (chunks ChunkSize xs) \<Longrightarrow> length p \<le> ChunkSize"
  using chunks_bound by blast

lemma length_chunkNonce [simp]: "length h = 24 \<Longrightarrow> length (crypto_chunkNonce h i) = 24"
  by (rule crypto_nonce.cn_length)

lemma gd01_split:
  assumes "28 \<le> length raw" "take 4 raw = Magic"
  obtains h body where "raw = Magic @ h @ body" "length h = 24"
proof
  show "raw = Magic @ take 24 (drop 4 raw) @ drop 24 (drop 4 raw)"
    using assms by (metis append_take_drop_id)
  show "length (take 24 (drop 4 raw)) = 24" using assms(1) by simp
qed

lemma crypto_OpenFile_cases:
  assumes "crypto_OpenFile P fs src dst key = (e, fs')"
  obtains "e = Some NoSuchFile" "fs src = None" "fs' = fs"
    | raw where "fs src = Some raw" "e \<noteq> None" "fs' = fs"
      "length raw < 28 \<or> take 4 raw \<noteq> Magic"
    | h body e' written where "fs src = Some (Magic @ h @ body)" "length h = 24"
      "crypto_open_loop P key h 0 body = (e', written)" "e = e'"
      "fs' = (if e' = None then fs(dst \<mapsto> written) else fs(dst := None))"
proof (cases "fs src")
  case None
  then have "(e, fs') = (Some NoSuchFile, fs)" using assms by (simp add: crypto_OpenFile_def)
  with None show thesis by (intro that(1)) simp_all
next
  case (Some raw)
  show thesis
  proof (cases "28 \<le> length raw \<and> take 4 raw = Magic")
    case False
    then show thesis
      using assms Some
      by (intro that(2) [OF Some])
        (auto simp: crypto_OpenFile_def NonceSize_def Let_def split: if_splits prod.splits)
  next
    case True
    then obtain h body where split: "raw = Magic @ h @ body" and len: "length h = 24"
      using gd01_split by blast
    obtain e' written where r: "crypto_open_loop P key h 0 body = (e', written)" by fastforce
    show thesis
      using assms crypto_OpenFile_framed [of fs src h body P dst key] Some r
      by (intro that(3) [OF _ len r]) (auto simp: split len split: option.splits)
  qed
qed

lemma crypto_OpenFile_accepts_iff:
  assumes "aead_ok P"
  shows "crypto_OpenFile P fs src dst key = (None, fs') \<longleftrightarrow>
    (\<exists>h ps. length h = 24 \<and> (\<forall>p \<in> set ps. length p \<le> ChunkSize) \<and>
       fs src = Some (Magic @ h @ frames P crypto_chunkNonce key h 0 ps) \<and>
       fs' = fs(dst \<mapsto> concat ps))"
  (is "?run \<longleftrightarrow> ?framed")
proof
  assume ?run
  then obtain h body written where "fs src = Some (Magic @ h @ body)" "length h = 24"
    "crypto_open_loop P key h 0 body = (None, written)" "fs' = fs(dst \<mapsto> written)"
    by (cases rule: crypto_OpenFile_cases) auto
  then show ?framed using crypto_reader.reader_sound [OF assms] by blast
next
  assume ?framed
  then show ?run
    using crypto_OpenFile_framed [of fs src _ _ P dst key] crypto_reader.reader_frames [OF assms]
    by fastforce
qed

text \<open>What a sealed payload looks like.\<close>

definition gd01_file :: "prims \<Rightarrow> bytes \<Rightarrow> bytes \<Rightarrow> bytes \<Rightarrow> bytes" where
  "gd01_file P h key plain = Magic @ h @ frames P crypto_chunkNonce key h 0 (chunks ChunkSize plain)"

lemma SealFile_gd01:
  "fs src = Some plain \<Longrightarrow> src \<noteq> dst \<Longrightarrow> crypto_SealFile P (Some h) fs src dst key =
    (Inr (hex_encode (p_sha256 P (gd01_file P h key plain)), hex_encode (p_sha256 P plain), int (length plain)),
     fs(dst \<mapsto> gd01_file P h key plain))"
  by (simp add: crypto_SealFile_ok gd01_file_def Let_def)

lemma OpenFile_gd01:
  assumes "aead_ok P" "fs src = Some (gd01_file P h key plain)" "length h = NonceSize"
  shows "crypto_OpenFile P fs src dst key = (None, fs(dst \<mapsto> plain))"
proof -
  have "concat (chunks ChunkSize plain) = plain" by simp
  then show ?thesis
    unfolding crypto_OpenFile_accepts_iff [OF assms(1)]
    using assms(2,3) chunks_within by (auto simp: gd01_file_def NonceSize_def intro!: exI [of _ h] exI [of _ "chunks ChunkSize plain"])
qed

section \<open>Properties of the file format\<close>


definition seal_demo_fs :: fs where
  "seal_demo_fs = [''in'' \<mapsto> [1, 2, 3]]"




text \<open>
  Failing to open leaves no plaintext behind: whatever the input, when \<^verbatim>\<open>OpenFile\<close> reports
  an error the destination either was not touched or does not exist, no other file has
  changed, and it was touched only if the header was well formed.
\<close>

theorem crypto_OpenFile_failure_clean:
  assumes "crypto_OpenFile P fs src dst key = (Some e, fs')"
  shows "(fs' = fs \<or> fs' dst = None) \<and> (\<forall>q. q \<noteq> dst \<longrightarrow> fs' q = fs q) \<and>
    (fs' \<noteq> fs \<longrightarrow> (\<exists>file. fs src = Some file \<and> 28 \<le> length file \<and> take 4 file = Magic))"
  using assms by (cases rule: crypto_OpenFile_cases) auto

theorem crypto_OpenFile_failure_clean_witness:
  "crypto_OpenFile sample_prims [''a'' \<mapsto> Magic @ replicate 24 0 @ [1, 2]] ''a'' ''b'' [] =
     (Some TruncatedChunkHeader, [''a'' \<mapsto> Magic @ replicate 24 0 @ [1, 2]]) \<and>
   [''a'' \<mapsto> Magic @ replicate 24 0 @ [1, 2 :: byte]] ''b'' = None"
proof -
  have run: "crypto_OpenFile sample_prims [''a'' \<mapsto> Magic @ replicate 24 0 @ [1, 2]] ''a'' ''b'' [] =
     (Some TruncatedChunkHeader, [''a'' \<mapsto> Magic @ replicate 24 0 @ [1, 2]])"
    by (subst crypto_OpenFile_framed) (auto simp: crypto_open_loop.simps)
  show ?thesis using run crypto_OpenFile_failure_clean [OF run] by auto
qed

text \<open>
  Truncation at a chunk boundary is not detected: of a sealed file, the header with any
  number of leading frames opens without an error, to the corresponding prefix of the
  plaintext. The format carries neither a length nor a final-chunk mark.
\<close>

theorem crypto_truncation_accepted:
  assumes "aead_ok P" "length h = 24"
    and "fs part = Some (Magic @ h @ frames P crypto_chunkNonce key h 0 (take k (chunks ChunkSize plain)))"
  shows "crypto_OpenFile P fs part dst key =
    (None, fs(dst \<mapsto> concat (take k (chunks ChunkSize plain))))"
  unfolding crypto_OpenFile_accepts_iff [OF assms(1)]
  using assms(2,3) chunks_within by (blast dest: in_set_takeD)

theorem crypto_truncation_accepted_witness:
  "crypto_OpenFile sample_prims [''cut'' \<mapsto> Magic @ replicate 24 0] ''cut'' ''out'' [] =
    (None, [''cut'' \<mapsto> Magic @ replicate 24 0, ''out'' \<mapsto> []])"
  using crypto_truncation_accepted [OF sample_aead_ok, of "replicate 24 0" _ "''cut''" "[]" 0] by simp

text \<open>
  The chunks of one file never share a nonce: for a 24-byte header nonce the nonces of
  the first $2^{64}$ chunk indices are pairwise distinct, so no two chunks sealed by one
  \<^verbatim>\<open>SealFile\<close> call reuse a key and nonce pair.
\<close>

theorem crypto_nonces_distinct:
  assumes "length h = 24" "n \<le> 2 ^ 64"
  shows "distinct (map (\<lambda>i. crypto_chunkNonce h (of_nat i)) [0..<n])"
  using crypto_nonce.cn_distinct [OF assms, of 0] by simp

theorem crypto_nonces_distinct_witness:
  "distinct (map (\<lambda>i. crypto_chunkNonce (replicate 24 0) (of_nat i)) [0..<3])"
  by (rule crypto_nonces_distinct) simp_all

text \<open>
  The size of a sealed file: 28 bytes of header, the plaintext, and 20 bytes for each
  started chunk.
\<close>

theorem crypto_sealed_size:
  assumes "aead_ok P" "fs src = Some plain" "length h = 24" "src \<noteq> dst"
  shows "map_option length (snd (crypto_SealFile P (Some h) fs src dst key) dst) =
    Some (28 + length plain + 20 * ((length plain + ChunkSize - 1) div ChunkSize))"
proof -
  have "\<forall>p \<in> set (chunks ChunkSize plain). length p \<le> aead_max"
    using chunks_within ChunkSize_le_max order_trans by blast
  then show ?thesis
    using assms by (simp add: crypto_SealFile_ok Let_def length_frames length_chunks)
qed

theorem crypto_sealed_size_witness:
  "map_option length (snd (crypto_SealFile sample_prims (Some (replicate 24 7)) seal_demo_fs
     ''in'' ''sealed'' []) ''sealed'') = Some 51"
  using crypto_sealed_size [of sample_prims seal_demo_fs "''in''" "[1, 2, 3]" "replicate 24 7" "''sealed''",
      OF sample_aead_ok]
  by (simp add: seal_demo_fs_def ChunkSize_def)

section \<open>Properties of messages, keys and signatures\<close>

lemma crypto_SealBytes_OpenBytes:
  assumes "aead_ok P" "length plain \<le> aead_max" "length nonce = 24"
    and "crypto_SealBytes P (Some nonce) plain key = Inr (n, c)"
  shows "crypto_OpenBytes P n c key = Inr plain"
  using assms
  by (auto simp: crypto_SealBytes_def crypto_OpenBytes_def NonceSize_def aead_open_seal split: if_splits)

lemma unwrap_wrapped:
  assumes "aead_ok P" "dh_ok P" "length fileKey = 32" "length nonce = 24"
    and kp: "crypto_GenerateRecipientKeypair P (Some priv) = Inr (pub, priv')"
    and w: "crypto_WrapFileKey P (Some nonce) fileKey pub ephemPriv = Inr (wrapped, ephemPub)"
  shows "crypto_UnwrapFileKey P wrapped ephemPub priv' = Inr fileKey \<and> length wrapped = 72"
proof -
  from kp dh_length [OF assms(2)] have pub: "p_x25519 P priv basepoint = Some pub" and pr: "priv' = priv"
    by (auto simp: crypto_GenerateRecipientKeypair_def split: option.splits)
  from w obtain shared e where s: "p_x25519 P ephemPriv pub = Some shared"
    and e: "p_x25519 P ephemPriv basepoint = Some e"
    by (auto simp: crypto_WrapFileKey_def split: option.splits)
  have "copy32 e = e" using dh_length [OF assms(2) e] by simp
  with w s e have out: "ephemPub = e"
    "wrapped = nonce @ p_seal P (crypto_wrapKey P shared e pub) nonce fileKey"
    by (auto simp: crypto_WrapFileKey_def Let_def)
  have "p_x25519 P priv e = Some shared" using dh_agree [OF assms(2) e pub] s by simp
  then show ?thesis
    using assms(1,3,4) pub
    by (simp add: crypto_UnwrapFileKey_def out pr NonceSize_def KeySize_def Let_def aead_open_seal
        aead_seal_length aead_max_def)
qed

text \<open>
  C15 Wrapping a file key for a recipient: with a key pair that \<^verbatim>\<open>GenerateRecipientKeypair\<close> made
  and any 24-byte nonce, \<^verbatim>\<open>UnwrapFileKey\<close> recovers the 32-byte file key that \<^verbatim>\<open>WrapFileKey\<close>
  wrapped for the public key, and the wrapped key has 72 bytes.
\<close>

theorem crypto_wrap_unwrap:
  assumes "aead_ok P" "dh_ok P" "length fileKey = 32" "length nonce = 24"
    and kp: "crypto_GenerateRecipientKeypair P (Some priv) = Inr (pub, priv')"
    and w: "crypto_WrapFileKey P (Some nonce) fileKey pub ephemPriv = Inr (wrapped, ephemPub)"
  shows "crypto_UnwrapFileKey P wrapped ephemPub priv' = Inr fileKey \<and> length wrapped = 72"
  by (rule unwrap_wrapped [OF assms])

theorem crypto_wrap_unwrap_witness:
  "\<exists>wrapped ephemPub.
     crypto_WrapFileKey sample_prims (Some (replicate 24 1)) (replicate 32 2)
       (xor_bytes (replicate 32 3) basepoint) (replicate 32 4) = Inr (wrapped, ephemPub) \<and>
     crypto_UnwrapFileKey sample_prims wrapped ephemPub (replicate 32 3) = Inr (replicate 32 2)"
proof -
  have kp: "crypto_GenerateRecipientKeypair sample_prims (Some (replicate 32 3)) =
      Inr (xor_bytes (replicate 32 3) basepoint, replicate 32 3)"
    by (simp add: crypto_GenerateRecipientKeypair_def sample_prims_def basepoint_def)
  obtain w e where w: "crypto_WrapFileKey sample_prims (Some (replicate 24 1)) (replicate 32 2)
       (xor_bytes (replicate 32 3) basepoint) (replicate 32 4) = Inr (w, e)"
    by (simp add: crypto_WrapFileKey_def sample_prims_def basepoint_def Let_def)
  show ?thesis
    using w crypto_wrap_unwrap [OF sample_aead_ok sample_dh_ok _ _ kp w] by simp
qed

lemma crypto_sign_verify:
  assumes "sig_ok P" "length seed = 32"
  shows "\<exists>sig. crypto_Sign P (seed @ p_seed_pub P seed) msg = Inr sig \<and>
    crypto_Verify P (p_seed_pub P seed) msg sig"
  using assms by (simp add: crypto_Sign_def crypto_Verify_def sig_lengths sig_verify)

lemma crypto_sign_rejects_seed: "length seed = 32 \<Longrightarrow> crypto_Sign P seed msg = Inl BadPrivateKeyLength"
  by (simp add: crypto_Sign_def)

lemma crypto_GenerateDropID_shape:
  assumes "crypto_GenerateDropID (Some b) = Some s" "length b = 6"
  shows "length s = 15 \<and> take 3 s = ''GD-''"
  using assms by (auto simp: crypto_GenerateDropID_def to_upper_def)

end
