(* ===== verification/AppCrypto.thy ===== *)
theory AppCrypto
  imports Crypto
begin

text \<open>
  \<^verbatim>\<open>internal/app/filecrypt.go\<close> and \<^verbatim>\<open>internal/app/seal.go\<close>: the application's own
  implementation of the GD01 format, written separately from \<^verbatim>\<open>internal/crypto\<close>. Its chunk
  nonce is derived by a 64-bit XOR, its reader bounds chunks differently, and it leaves
  partial output in place. \<open>app_crypto_interop\<close> shows that the two implementations nevertheless agree on the
  format. Model types and conventions are those of \<open>Crypto\<close>.
\<close>

datatype app_crypto_err =
    ANoSuchFile
  | ARandFailed
  | ABadKeyLength
  | AMsgAuthFailed
  | AReadingMagic
  | ABadMagic bytes
  | AReadingHeaderNonce
  | AReadingChunkLen
  | ACorruptChunkLength u32
  | AReadingChunk
  | AChunkAuthFailed u64
  | AX25519Failed
  | ABadWrappedLength nat
  | AKeyUnwrapFailed
  | ABadPrivateKeyLength nat

section \<open>Constants and keys\<close>

definition app_ChunkSize :: nat where
  "app_ChunkSize = 2 ^ 20"

definition app_FileMagic :: string where
  "app_FileMagic = ''GD01''"

definition app_NonceSize :: nat where
  "app_NonceSize = 24"

definition app_basepoint :: bytes where
  "app_basepoint = 9 # replicate 31 0"

definition app_GenerateFileKey :: "bytes option \<Rightarrow> app_crypto_err + bytes" where
  "app_GenerateFileKey rnd = (case rnd of None \<Rightarrow> Inl ARandFailed | Some k \<Rightarrow> Inr k)"

definition app_NewSalt :: "bytes option \<Rightarrow> app_crypto_err + bytes" where
  "app_NewSalt rnd = (case rnd of None \<Rightarrow> Inl ARandFailed | Some s \<Rightarrow> Inr s)"

definition app_GenerateDropID :: "bytes option \<Rightarrow> string option" where
  "app_GenerateDropID rnd =
     map_option (\<lambda>b. ''GD-'' @ to_upper id (hex_encode b)) rnd"

fun app_Wipe :: "bytes \<Rightarrow> bytes" where
  "app_Wipe [] = []"
| "app_Wipe (b # bs) = 0 # app_Wipe bs"

definition app_DeriveKeyFromPassphrase :: "prims \<Rightarrow> string \<Rightarrow> bytes \<Rightarrow> bytes" where
  "app_DeriveKeyFromPassphrase P passphrase salt =
     (let raw = p_argon2 P (bytes_of passphrase) salt 3 (64 * 1024) 4 32 in copy32 raw)"

text \<open>\<^verbatim>\<open>chacha20poly1305.NewX\<close> refuses a key that is not 32 bytes long; the AEAD itself refuses
  (by a panic) a nonce that is not 24 bytes long, which is \<open>None\<close>.\<close>

definition app_SealBytes ::
  "prims \<Rightarrow> bytes option \<Rightarrow> bytes \<Rightarrow> bytes \<Rightarrow> app_crypto_err + bytes \<times> bytes" where
  "app_SealBytes P rnd plain key =
     (if length key \<noteq> 32 then Inl ABadKeyLength
      else case rnd of
             None \<Rightarrow> Inl ARandFailed
           | Some nonce \<Rightarrow> Inr (nonce, p_seal P key nonce plain))"

definition app_OpenBytes ::
  "prims \<Rightarrow> bytes \<Rightarrow> bytes \<Rightarrow> bytes \<Rightarrow> (app_crypto_err + bytes) option" where
  "app_OpenBytes P nonce cipher key =
     (if length key \<noteq> 32 then Some (Inl ABadKeyLength)
      else if length nonce \<noteq> app_NonceSize then None
      else case p_open P key nonce cipher of
             None \<Rightarrow> Some (Inl AMsgAuthFailed)
           | Some plain \<Rightarrow> Some (Inr plain))"

section \<open>Sealing and opening files\<close>

definition app_chunkNonce :: "bytes \<Rightarrow> u64 \<Rightarrow> bytes" where
  "app_chunkNonce header index =
     (let n = take 24 (header @ replicate 24 0);
          v = rd64 (drop 16 n) XOR index
      in take 16 n @ be64 v)"

lemma app_full_read_shrinks:
  "\<not> min (length src) app_ChunkSize < app_ChunkSize \<Longrightarrow> length src - app_ChunkSize < length src"
  by (simp add: app_ChunkSize_def)

text \<open>The loop of \<^verbatim>\<open>SealFile\<close>: what is written after the header, what the plaintext hash is fed, the
  count of plaintext bytes.\<close>

function app_seal_loop :: "prims \<Rightarrow> bytes \<Rightarrow> bytes \<Rightarrow> u64 \<Rightarrow> bytes \<Rightarrow> bytes \<times> bytes \<times> int" where
  "app_seal_loop P key header index src =
     (let chunk = take app_ChunkSize src;
          nr = length chunk;
          (out, hashed, n, index') =
            (if nr > 0
             then (let sealed = p_seal P key (app_chunkNonce header index) chunk
                   in (be32 (of_nat (length sealed)) @ sealed, chunk, int nr, index + 1))
             else ([], [], 0, index))
      in if nr < app_ChunkSize then (out, hashed, n)
         else (let (out', hashed', n') = app_seal_loop P key header index' (drop app_ChunkSize src)
               in (out @ out', hashed @ hashed', n + n')))"
  by pat_completeness auto
termination
  by (relation "measure (\<lambda>(P, key, h, i, src). length src)")
    (auto intro!: app_full_read_shrinks)

declare app_seal_loop.simps [simp del]

text \<open>Unlike \<^verbatim>\<open>internal/crypto\<close>, a failure to draw the nonce leaves the created file.\<close>

definition app_SealFile ::
  "prims \<Rightarrow> bytes option \<Rightarrow> fs \<Rightarrow> string \<Rightarrow> string \<Rightarrow> bytes
     \<Rightarrow> (app_crypto_err + string \<times> string \<times> int) \<times> fs" where
  "app_SealFile P rnd fs srcPath dstPath key =
     (case fs srcPath of
        None \<Rightarrow> (Inl ANoSuchFile, fs)
      | Some _ \<Rightarrow>
          (let fs1 = fs(dstPath \<mapsto> []) in
             case rnd of
               None \<Rightarrow> (Inl ARandFailed, fs1)
             | Some header \<Rightarrow>
                 (let (out, hashed, n) = app_seal_loop P key header 0 (the (fs1 srcPath));
                      cipher = bytes_of app_FileMagic @ header @ out
                  in (Inr (hex_encode (p_sha256 P cipher), hex_encode (p_sha256 P hashed), n),
                      fs1(dstPath \<mapsto> cipher)))))"

text \<open>The loop of \<^verbatim>\<open>OpenFile\<close>, as \<open>crypto_open_loop\<close>; chunks of 1 to \<open>ChunkSize + 64\<close> sealed
  bytes are read.\<close>

function app_open_loop ::
  "prims \<Rightarrow> bytes \<Rightarrow> bytes \<Rightarrow> u64 \<Rightarrow> bytes \<Rightarrow> app_crypto_err option \<times> bytes" where
  "app_open_loop P key header index src =
     (if src = [] then (None, [])
      else if length src < 4 then (Some AReadingChunkLen, [])
      else
        (let ln = rd32 src; rest = drop 4 src in
           if ln = 0 \<or> ln > of_nat (app_ChunkSize + 64) then (Some (ACorruptChunkLength ln), [])
           else if length rest < unat ln then (Some AReadingChunk, [])
           else
             (case p_open P key (app_chunkNonce header index) (take (unat ln) rest) of
                None \<Rightarrow> (Some (AChunkAuthFailed index), [])
              | Some plain \<Rightarrow>
                  (let (e, written) = app_open_loop P key header (index + 1) (drop (unat ln) rest)
                   in (e, plain @ written)))))"
  by pat_completeness auto
termination
  by (relation "measure (\<lambda>(P, key, h, i, src). length src)") auto

declare app_open_loop.simps [simp del]

text \<open>\<^verbatim>\<open>OpenFile\<close>, for distinct paths: what was written before an error stays at the destination.\<close>

definition app_OpenFile ::
  "prims \<Rightarrow> fs \<Rightarrow> string \<Rightarrow> string \<Rightarrow> bytes \<Rightarrow> app_crypto_err option \<times> fs" where
  "app_OpenFile P fs srcPath dstPath key =
     (case fs srcPath of
        None \<Rightarrow> (Some ANoSuchFile, fs)
      | Some cipher \<Rightarrow>
          (if length cipher < length app_FileMagic then (Some AReadingMagic, fs)
           else (let magic = take (length app_FileMagic) cipher; rest = drop (length app_FileMagic) cipher in
             if string_of magic \<noteq> app_FileMagic then (Some (ABadMagic magic), fs)
             else if length rest < app_NonceSize then (Some AReadingHeaderNonce, fs)
             else (let (e, written) =
                         app_open_loop P key (take app_NonceSize rest) 0 (drop app_NonceSize rest)
                   in (e, fs(dstPath \<mapsto> written))))))"

text \<open>\<^verbatim>\<open>sealWithProgress\<close> also reports each round to the callback: the last component lists
  its calls, the bytes done and the size of the file.\<close>

function app_seal_progress_loop ::
  "prims \<Rightarrow> bytes \<Rightarrow> bytes \<Rightarrow> int \<Rightarrow> u64 \<Rightarrow> int \<Rightarrow> bytes \<Rightarrow> bytes \<times> bytes \<times> int \<times> (int \<times> int) list" where
  "app_seal_progress_loop P key header fsize index sofar src =
     (let chunk = take app_ChunkSize src;
          nr = length chunk;
          (out, hashed, done1, index', calls) =
            (if nr > 0
             then (let sealed = p_seal P key (app_chunkNonce header index) chunk
                   in (be32 (of_nat (length sealed)) @ sealed, chunk, sofar + int nr, index + 1,
                       [(sofar + int nr, fsize)]))
             else ([], [], sofar, index, []))
      in if nr < app_ChunkSize then (out, hashed, done1, calls)
         else (let (out', hashed', done2, calls') =
                 app_seal_progress_loop P key header fsize index' done1 (drop app_ChunkSize src)
               in (out @ out', hashed @ hashed', done2, calls @ calls')))"
  by pat_completeness auto
termination
  by (relation "measure (\<lambda>(P, key, h, t, i, d, src). length src)")
    (auto intro!: app_full_read_shrinks)

declare app_seal_progress_loop.simps [simp del]

definition app_sealWithProgress ::
  "prims \<Rightarrow> bytes option \<Rightarrow> fs \<Rightarrow> string \<Rightarrow> string \<Rightarrow> bytes
     \<Rightarrow> (app_crypto_err + string \<times> string \<times> int) \<times> fs \<times> (int \<times> int) list" where
  "app_sealWithProgress P rnd fs srcPath dstPath key =
     (case fs srcPath of
        None \<Rightarrow> (Inl ANoSuchFile, fs, [])
      | Some content \<Rightarrow>
          (let fsize = int (length content); fs1 = fs(dstPath \<mapsto> []) in
             case rnd of
               None \<Rightarrow> (Inl ARandFailed, fs1, [])
             | Some header \<Rightarrow>
                 (let (out, hashed, n, calls) =
                        app_seal_progress_loop P key header fsize 0 0 (the (fs1 srcPath));
                      cipher = bytes_of app_FileMagic @ header @ out
                  in (Inr (hex_encode (p_sha256 P cipher), hex_encode (p_sha256 P hashed), n),
                      fs1(dstPath \<mapsto> cipher), calls))))"

definition app_Sha256HexReader :: "prims \<Rightarrow> reader \<Rightarrow> (string \<times> int) option" where
  "app_Sha256HexReader P r =
     (if rd_fails r then None
      else Some (hex_encode (p_sha256 P (rd_data r)), int (length (rd_data r))))"

definition app_Sha256HexFile :: "prims \<Rightarrow> fs \<Rightarrow> string \<Rightarrow> app_crypto_err + string \<times> int" where
  "app_Sha256HexFile P fs path =
     (case fs path of
        None \<Rightarrow> Inl ANoSuchFile
      | Some content \<Rightarrow> Inr (the (app_Sha256HexReader P (reader_of content))))"

section \<open>Recipient keys and signatures\<close>

definition app_GenerateRecipientKeypair ::
  "prims \<Rightarrow> bytes option \<Rightarrow> app_crypto_err + bytes \<times> bytes" where
  "app_GenerateRecipientKeypair P rnd =
     (case rnd of
        None \<Rightarrow> Inl ARandFailed
      | Some priv \<Rightarrow>
          (case p_x25519 P priv app_basepoint of
             None \<Rightarrow> Inl AX25519Failed
           | Some raw \<Rightarrow> Inr (copy32 raw, priv)))"

definition app_wrapKEK :: "prims \<Rightarrow> bytes \<Rightarrow> bytes \<Rightarrow> bytes \<Rightarrow> bytes" where
  "app_wrapKEK P shared ephemPub recipientPub =
     copy32 (p_sha256 P (shared @ ephemPub @ recipientPub))"

definition app_WrapFileKey ::
  "prims \<Rightarrow> bytes option \<Rightarrow> bytes \<Rightarrow> bytes \<Rightarrow> bytes \<Rightarrow> app_crypto_err + bytes \<times> bytes" where
  "app_WrapFileKey P rnd fileKey recipientPub ephemPriv =
     (case p_x25519 P ephemPriv app_basepoint of
        None \<Rightarrow> Inl AX25519Failed
      | Some rawPub \<Rightarrow>
          (let ephemPub = copy32 rawPub in
             case p_x25519 P ephemPriv recipientPub of
               None \<Rightarrow> Inl AX25519Failed
             | Some shared \<Rightarrow>
                 (let kek = app_wrapKEK P shared ephemPub recipientPub in
                    case rnd of
                      None \<Rightarrow> Inl ARandFailed
                    | Some nonce \<Rightarrow> Inr (nonce @ p_seal P kek nonce fileKey, ephemPub))))"

definition app_UnwrapFileKey ::
  "prims \<Rightarrow> bytes \<Rightarrow> bytes \<Rightarrow> bytes \<Rightarrow> app_crypto_err + bytes" where
  "app_UnwrapFileKey P wrapped ephemPub recipientPriv =
     (if length wrapped \<noteq> app_NonceSize + 32 + 16 then Inl (ABadWrappedLength (length wrapped))
      else case p_x25519 P recipientPriv ephemPub of
             None \<Rightarrow> Inl AX25519Failed
           | Some shared \<Rightarrow>
               (case p_x25519 P recipientPriv app_basepoint of
                  None \<Rightarrow> Inl AX25519Failed
                | Some rawPub \<Rightarrow>
                    (let kek = app_wrapKEK P shared ephemPub (copy32 rawPub) in
                       case p_open P kek (take app_NonceSize wrapped) (drop app_NonceSize wrapped) of
                         None \<Rightarrow> Inl AKeyUnwrapFailed
                       | Some plain \<Rightarrow> Inr (copy32 plain))))"

definition app_Sign :: "prims \<Rightarrow> bytes \<Rightarrow> bytes \<Rightarrow> app_crypto_err + bytes" where
  "app_Sign P priv msg =
     (if length priv \<noteq> 64 then Inl (ABadPrivateKeyLength (length priv)) else Inr (p_sign P priv msg))"

definition app_Verify :: "prims \<Rightarrow> bytes \<Rightarrow> bytes \<Rightarrow> bytes \<Rightarrow> bool" where
  "app_Verify P pub msg sig = (if length pub \<noteq> 32 then False else p_verify P pub msg sig)"

section \<open>The two nonce derivations agree\<close>

lemma app_chunkNonce_eq [nonce_facts]:
  assumes "length h = 24"
  shows "app_chunkNonce h i = crypto_chunkNonce h i"
proof -
  have l: "length (drop 16 h) = 8" using assms by simp
  have "be64 (rd64 (drop 16 h) XOR i) = xor_bytes (drop 16 h) (be64 i)"
    unfolding be64_xor be64_rd64 [OF l] xor_bytes_def ..
  then show ?thesis using assms by (simp add: app_chunkNonce_def crypto_chunkNonce_def NonceSize_def Let_def)
qed

interpretation app_nonce: nonce_scheme app_chunkNonce
  by unfold_locales (simp add: app_chunkNonce_eq crypto_nonce.cn_contract)

lemma app_open_frame:
  assumes "aead_ok P" "length p \<le> app_ChunkSize + 48"
  shows "app_open_loop P key h i (frame P app_chunkNonce key h i p @ rest) =
    map_prod id ((@) p) (app_open_loop P key h (i + 1) rest)"
proof -
  let ?s = "p_seal P key (app_chunkNonce h i) p"
  have pm: "length p \<le> aead_max" using assms(2) by (simp add: app_ChunkSize_def aead_max_def)
  have l: "length ?s = length p + 16" by (rule aead_seal_length [OF assms(1) pm])
  have o: "p_open P key (app_chunkNonce h i) ?s = Some p" by (rule aead_open_seal [OF assms(1) pm])
  have u: "unat (of_nat (length p + 16) :: u32) = length p + 16"
    using assms(2) by (intro unat_u32) (simp add: app_ChunkSize_def)
  then have z: "(of_nat (length p + 16) :: u32) \<noteq> 0" by (metis add_is_0 unat_0 zero_neq_numeral)
  have b: "\<not> of_nat (app_ChunkSize + 64) < (of_nat (length p + 16) :: u32)"
    using assms(2) u unat_u32 [of "app_ChunkSize + 64"]
    by (simp add: word_less_nat_alt app_ChunkSize_def)
  show ?thesis
    using l o u z b
    by (subst app_open_loop.simps) (simp add: frame_def Let_def map_prod_def split: prod.splits)
qed

lemma app_open_inv:
  assumes "aead_ok P" and run: "app_open_loop P key h i src = (None, out)" and "src \<noteq> []"
  shows "\<exists>p rest out'. src = frame P app_chunkNonce key h i p @ rest \<and> out = p @ out' \<and>
    length p \<le> app_ChunkSize + 48 \<and> app_open_loop P key h (i + 1) rest = (None, out')"
proof -
  let ?n = "unat (rd32 src)" and ?rest = "drop 4 src"
  have len: "4 \<le> length src" and lo: "rd32 src \<noteq> 0"
    and hi: "\<not> rd32 src > of_nat (app_ChunkSize + 64)" and n: "?n \<le> length ?rest"
    using run assms(3) by (subst (asm) app_open_loop.simps; simp add: Let_def split: if_splits)+
  obtain p where o: "p_open P key (app_chunkNonce h i) (take ?n ?rest) = Some p"
    using run assms(3) len lo hi n
    by (subst (asm) app_open_loop.simps) (auto simp: Let_def split: option.splits)
  obtain out' where r: "app_open_loop P key h (i + 1) (drop ?n ?rest) = (None, out')"
    and out: "out = p @ out'"
    using run assms(3) len lo hi n o
    by (subst (asm) app_open_loop.simps) (auto simp: Let_def split: prod.splits)
  from frame_split [where cn = app_chunkNonce, OF assms(1) len n o]
  have src: "src = frame P app_chunkNonce key h i p @ drop ?n ?rest" and l: "?n = length p + 16"
    by blast+
  have "?n \<le> app_ChunkSize + 64"
    using hi unat_u32 [of "app_ChunkSize + 64"] by (simp add: word_less_nat_alt app_ChunkSize_def)
  then have "length p \<le> app_ChunkSize + 48" using l by simp
  with src out r show ?thesis by blast
qed

interpretation app_reader: frame_reader app_open_loop app_chunkNonce "app_ChunkSize + 48"
proof unfold_locales
  show "app_open_loop P key h i [] = (None, [])" for P key h i
    by (subst app_open_loop.simps) simp
qed (rule app_open_frame app_open_inv; assumption)+

lemma app_frames_eq:
  "length h = 24 \<Longrightarrow> frames P app_chunkNonce key h i ps = frames P crypto_chunkNonce key h i ps"
  by (induction ps arbitrary: i) (simp_all add: frame_def app_chunkNonce_eq)

section \<open>The two sealing loops agree\<close>

lemma app_seal_loop_eq:
  "length h = 24 \<Longrightarrow> app_seal_loop P key h i src = crypto_seal_loop P key h i src"
proof (induction P key h i src rule: app_seal_loop.induct)
  case (1 P key h i src)
  have c: "app_ChunkSize = ChunkSize" by (simp add: app_ChunkSize_def ChunkSize_def)
  show ?case
  proof (cases "length src < ChunkSize")
    case True
    then show ?thesis
      by (subst app_seal_loop.simps, subst crypto_seal_loop.simps)
        (simp add: c app_chunkNonce_eq "1.prems" Let_def)
  next
    case False
    then have ne: "src \<noteq> []" and m: "min (length src) ChunkSize = ChunkSize"
      using ChunkSize_pos(1) by (auto simp: min_def)
    have "app_seal_loop P key h (i + 1) (drop ChunkSize src) =
      crypto_seal_loop P key h (i + 1) (drop ChunkSize src)"
      using "1" m ne by (simp add: Let_def c)
    then show ?thesis
      using m ne
      by (subst app_seal_loop.simps, subst crypto_seal_loop.simps)
        (simp add: c app_chunkNonce_eq "1.prems" Let_def)
  qed
qed

text \<open>The progress calls: one for each chunk, with the running count of plaintext bytes.\<close>

fun running :: "int \<Rightarrow> bytes list \<Rightarrow> int list" where
  "running acc [] = []"
| "running acc (p # ps) = (acc + int (length p)) # running (acc + int (length p)) ps"

lemma app_seal_progress_loop_eq:
  "length h = 24 \<Longrightarrow> app_seal_progress_loop P key h fsize i sofar src =
    (let (out, hashed, n) = app_seal_loop P key h i src
     in (out, hashed, sofar + n, map (\<lambda>d. (d, fsize)) (running sofar (chunks ChunkSize src))))"
proof (induction P key h fsize i sofar src rule: app_seal_progress_loop.induct)
  case (1 P key h fsize i sofar src)
  have c: "app_ChunkSize = ChunkSize" by (simp add: app_ChunkSize_def ChunkSize_def)
  show ?case
  proof (cases "length src < ChunkSize")
    case True
    then show ?thesis
      by (subst app_seal_progress_loop.simps, subst app_seal_loop.simps)
        (cases "src = []", auto simp: c chunks_step Let_def)
  next
    case False
    then have ne: "src \<noteq> []" and m: "min (length src) ChunkSize = ChunkSize"
      using ChunkSize_pos(1) by (auto simp: min_def)
    have "app_seal_progress_loop P key h fsize (i + 1) (sofar + int ChunkSize) (drop ChunkSize src) =
      (let (out, hashed, n) = app_seal_loop P key h (i + 1) (drop ChunkSize src)
       in (out, hashed, sofar + int ChunkSize + n, map (\<lambda>d. (d, fsize))
             (running (sofar + int ChunkSize) (chunks ChunkSize (drop ChunkSize src)))))"
      using "1" m ne by (simp add: Let_def c)
    then show ?thesis
      using m ne
      by (subst app_seal_progress_loop.simps, subst app_seal_loop.simps)
        (simp add: c chunks_step Let_def split: prod.splits)
  qed
qed

lemma running_last:
  "ps \<noteq> [] \<Longrightarrow> last (running acc ps) = acc + int (length (concat ps))"
proof (induction ps arbitrary: acc)
  case (Cons p ps)
  then show ?case by (cases ps) (simp_all del: length_concat)
qed simp

lemma running_sorted: "sorted (running acc ps) \<and> (\<forall>d \<in> set (running acc ps). acc \<le> d)"
  by (induction ps arbitrary: acc) (auto, force)

lemma sorted_last_max: "sorted xs \<Longrightarrow> (x :: int) \<in> set xs \<Longrightarrow> x \<le> last xs"
  by (induction xs) auto

lemma app_OpenFile_framed:
  assumes "fs src = Some (Magic @ h @ body)" "length h = 24"
  shows "app_OpenFile P fs src dst key =
    (let (e, written) = app_open_loop P key h 0 body in (e, fs(dst \<mapsto> written)))"
  using assms
  by (simp add: app_OpenFile_def app_FileMagic_def Magic_def app_NonceSize_def Let_def)

lemma app_OpenFile_header:
  assumes "fs src = Some raw" "\<not> (28 \<le> length raw \<and> take 4 raw = Magic)"
  shows "fst (app_OpenFile P fs src dst key) \<noteq> None \<and> snd (app_OpenFile P fs src dst key) = fs"
proof -
  have "string_of (take 4 raw) = app_FileMagic \<longleftrightarrow> take 4 raw = Magic"
    unfolding Magic_def app_FileMagic_def by (metis bytes_of_string_of string_of_bytes_of)
  moreover have "length app_FileMagic = 4" by (simp add: app_FileMagic_def)
  ultimately show ?thesis
    using assms by (auto simp: app_OpenFile_def app_NonceSize_def Let_def)
qed

lemma app_OpenFile_accepts:
  assumes "aead_ok P"
  shows "app_OpenFile P fs src dst key = (None, fs') \<longleftrightarrow>
    (\<exists>h ps. length h = 24 \<and> (\<forall>p \<in> set ps. length p \<le> app_ChunkSize + 48) \<and>
       fs src = Some (Magic @ h @ frames P crypto_chunkNonce key h 0 ps) \<and> fs' = fs(dst \<mapsto> concat ps))"
  (is "?run \<longleftrightarrow> ?framed")
proof
  assume run: ?run
  obtain raw where raw: "fs src = Some raw"
    using run by (cases "fs src") (simp_all add: app_OpenFile_def)
  with run app_OpenFile_header [of fs src raw P dst key] have "28 \<le> length raw \<and> take 4 raw = Magic"
    by fastforce
  then obtain h body where s: "fs src = Some (Magic @ h @ body)" and l: "length h = 24"
    using gd01_split raw by metis
  from run obtain written where "app_open_loop P key h 0 body = (None, written)" "fs' = fs(dst \<mapsto> written)"
    unfolding app_OpenFile_framed [of fs src h body P dst key, OF s l] by (auto split: prod.splits)
  then show ?framed
    using s l app_reader.reader_sound [OF assms] by (fastforce simp: app_frames_eq)
next
  assume ?framed
  then obtain h ps where l: "length h = 24" and ps: "\<forall>p \<in> set ps. length p \<le> app_ChunkSize + 48"
    and s: "fs src = Some (Magic @ h @ frames P crypto_chunkNonce key h 0 ps)" "fs' = fs(dst \<mapsto> concat ps)"
    by blast
  have "app_open_loop P key h 0 (frames P crypto_chunkNonce key h 0 ps) = (None, concat ps)"
    using app_reader.reader_frames [OF assms ps, of key h 0] by (simp add: app_frames_eq l)
  then show ?run using app_OpenFile_framed [where fs = fs and src = src, OF s(1) l] s(2) by simp
qed

section \<open>Properties\<close>



text \<open>
  A failing \<^verbatim>\<open>app.OpenFile\<close> keeps partial plaintext: when a well-formed prefix of frames is
  followed by a chunk that does not authenticate, the error is that chunk's, and the
  destination holds the plaintext of the whole prefix. (\<^verbatim>\<open>internal/crypto\<close> removes it.)
\<close>

theorem app_OpenFile_keeps_partial:
  assumes "aead_ok P" "length h = 24" "\<forall>p \<in> set ps. length p \<le> ChunkSize"
    and "fs src = Some (Magic @ h @ frames P crypto_chunkNonce key h 0 ps @ be32 (of_nat (length c)) @ c)"
    and "c \<noteq> []" "length c \<le> ChunkSize + 16"
    and bad: "p_open P key (crypto_chunkNonce h (of_nat (length ps))) c = None"
  shows "app_OpenFile P fs src dst key =
    (Some (AChunkAuthFailed (of_nat (length ps))), fs(dst \<mapsto> concat ps))"
proof -
  let ?i = "of_nat (length ps) :: u64"
  have lc: "length c \<le> app_ChunkSize + 64" using assms(6) by (simp add: app_ChunkSize_def ChunkSize_def)
  then have u: "unat (of_nat (length c) :: u32) = length c"
    by (intro unat_u32) (simp add: app_ChunkSize_def)
  then have z: "(of_nat (length c) :: u32) \<noteq> 0" using assms(5) by (metis length_0_conv unat_0)
  have b: "\<not> of_nat (app_ChunkSize + 64) < (of_nat (length c) :: u32)"
    using lc u unat_u32 [of "app_ChunkSize + 64"] by (simp add: word_less_nat_alt app_ChunkSize_def)
  have "app_open_loop P key h ?i (be32 (of_nat (length c)) @ c) = (Some (AChunkAuthFailed ?i), [])"
    using u z b bad by (subst app_open_loop.simps) (simp add: app_chunkNonce_eq assms(2) Let_def)
  moreover have "\<forall>p \<in> set ps. length p \<le> app_ChunkSize + 48"
    using assms(3) by (fastforce simp: app_ChunkSize_def ChunkSize_def)
  ultimately have "app_open_loop P key h 0
      (frames P crypto_chunkNonce key h 0 ps @ be32 (of_nat (length c)) @ c) =
      (Some (AChunkAuthFailed ?i), concat ps)"
    using app_reader.reader_prefix [OF assms(1), of ps key h 0 "be32 (of_nat (length c)) @ c"]
    by (simp add: app_frames_eq assms(2))
  then show ?thesis
    using app_OpenFile_framed [where fs = fs and src = src, OF assms(4) assms(2)] by simp
qed

theorem app_OpenFile_keeps_partial_witness:
  "\<exists>file. app_OpenFile sample_prims [''a'' \<mapsto> file] ''a'' ''b'' [] =
    (Some (AChunkAuthFailed 1), [''a'' \<mapsto> file, ''b'' \<mapsto> [5, 6]])"
proof -
  have "p_open sample_prims [] n [0] = None" for n by (simp add: sample_prims_def)
  then show ?thesis
    using app_OpenFile_keeps_partial [OF sample_aead_ok, of "replicate 24 0" "[[5, 6]]"
        "[''a'' \<mapsto> Magic @ replicate 24 0 @ frames sample_prims crypto_chunkNonce [] (replicate 24 0) 0
            [[5, 6]] @ be32 (of_nat (length [0])) @ [0 :: byte]]" "''a''" "[]" "[0]" "''b''"]
    by (fastforce simp: ChunkSize_def simp del: frames.simps)
qed

text \<open>
  Sealing with progress is sealing: for a 24-byte nonce and distinct paths \<^verbatim>\<open>sealWithProgress\<close>
  returns and writes what \<^verbatim>\<open>SealFile\<close> does, and its callback is given the size of the file and
  a count that never decreases, never exceeds that size and ends at it.
\<close>

theorem app_progress_faithful:
  assumes "length h = 24" "fs src = Some plain" "src \<noteq> dst"
    and "app_sealWithProgress P (Some h) fs src dst key = (r, fs1, calls)"
  shows "app_SealFile P (Some h) fs src dst key = (r, fs1) \<and>
    (\<forall>(d, n) \<in> set calls. n = int (length plain)) \<and> sorted (map fst calls) \<and>
    (\<forall>(d, n) \<in> set calls. 0 \<le> d \<and> d \<le> n) \<and>
    (plain \<noteq> [] \<longrightarrow> calls \<noteq> [] \<and> fst (last calls) = int (length plain))"
proof -
  let ?cs = "chunks ChunkSize plain" and ?n = "int (length plain)"
  from assms have calls: "calls = map (\<lambda>d. (d, ?n)) (running 0 ?cs)"
    and same: "app_SealFile P (Some h) fs src dst key = (r, fs1)"
    by (auto simp: app_sealWithProgress_def app_SealFile_def app_seal_progress_loop_eq Let_def
        split: prod.splits)
  have fst: "map fst calls = running 0 ?cs" by (simp add: calls comp_def)
  have sorted: "sorted (running 0 ?cs)" and ge: "\<forall>d \<in> set (running 0 ?cs). 0 \<le> d"
    using running_sorted [of 0 ?cs] by simp_all
  have last: "last (running 0 ?cs) = ?n" if "plain \<noteq> []"
    using running_last [of ?cs 0] that by (simp add: chunks_step del: length_concat) 
  have le: "d \<le> ?n" if "d \<in> set (running 0 ?cs)" for d
  proof -
    have "running 0 ?cs \<noteq> []" "plain \<noteq> []" using that by auto
    then show ?thesis using sorted that last by (metis sorted_last_max)
  qed
  show ?thesis
    using same fst sorted ge last le by (auto simp: calls last_map chunks_step)
qed

theorem app_progress_faithful_witness:
  "snd (snd (app_sealWithProgress sample_prims (Some (replicate 24 7)) seal_demo_fs ''in'' ''sealed'' [])) \<noteq> []"
proof -
  obtain r fs1 calls where run: "app_sealWithProgress sample_prims (Some (replicate 24 7)) seal_demo_fs
      ''in'' ''sealed'' [] = (r, fs1, calls)"
    using prod_cases3 by blast
  then show ?thesis
    using app_progress_faithful [OF _ _ _ run, of "[1, 2, 3]"] by (simp add: seal_demo_fs_def)
qed

end
