(* ===== verification/StorageApi.thy ===== *)
theory StorageApi
  imports GoStrings
begin

text \<open>
  \<^verbatim>\<open>internal/storage/provider.go\<close>: the \<^verbatim>\<open>Provider\<close> interface as a record of functions over a state
  \<open>'s\<close>, its errors and \<^verbatim>\<open>ValidateID\<close>; and, as locales, the contract its clients rely on. Every
  operation takes the context, the clock reading of the call and the state, and returns the
  state it leaves. A file is either raw bytes or the record that its JSON decodes to.
\<close>

datatype st_err =
    NotFound
  | Expired
  | Quota
  | EmptyID
  | BadID string
  | CtxDone
  | NegativeSize
  | ReadFailed
  | ShortRead int int
  | OffsetRange int int
  | BadJson
  | TempFailed
  | NeedDataDir
  | NeedRelayURL
  | UnknownProvider string
  | BadRelayURL
  | TransportFailed
  | HttpStatus int
  | BadBody

section \<open>The interface\<close>

record 's provider =
  pv_put :: "ctx \<Rightarrow> time \<Rightarrow> string \<Rightarrow> reader \<Rightarrow> int \<Rightarrow> time \<Rightarrow> 's \<Rightarrow> st_err option \<times> 's"
  pv_get :: "ctx \<Rightarrow> time \<Rightarrow> string \<Rightarrow> int \<Rightarrow> 's \<Rightarrow> (st_err + bytes) \<times> 's"
  pv_delete :: "ctx \<Rightarrow> time \<Rightarrow> string \<Rightarrow> 's \<Rightarrow> st_err option \<times> 's"
  pv_exists :: "ctx \<Rightarrow> time \<Rightarrow> string \<Rightarrow> 's \<Rightarrow> (st_err + bool) \<times> 's"
  pv_stat :: "ctx \<Rightarrow> time \<Rightarrow> string \<Rightarrow> 's \<Rightarrow> (st_err + int \<times> time) \<times> 's"
  pv_health :: "ctx \<Rightarrow> time \<Rightarrow> 's \<Rightarrow> st_err option \<times> 's"
  pv_backend :: string

definition DefaultQuotaBytes :: int where
  "DefaultQuotaBytes = 2 ^ 30"

text \<open>Runes outside the ASCII range never pass the test, so it can be made byte by byte.\<close>

definition id_char :: "char \<Rightarrow> bool" where
  "id_char r \<longleftrightarrow> is_upper r \<or> is_lower r \<or> is_digit r \<or> r = CHR ''-'' \<or> r = CHR ''_'' \<or> r = CHR ''.''"

definition storage_ValidateID :: "string \<Rightarrow> st_err option" where
  "storage_ValidateID did =
     (if did = '''' then Some EmptyID
      else if \<not> list_all id_char did then Some (BadID did)
      else if did = ''.'' \<or> did = ''..'' then Some (BadID did)
      else None)"

abbreviation valid_id :: "string \<Rightarrow> bool" where
  "valid_id did \<equiv> storage_ValidateID did = None"

lemma valid_id_no_slash: "valid_id did \<Longrightarrow> CHR ''/'' \<notin> set did"
proof -
  have "\<not> id_char (CHR ''/'')" by (simp add: id_char_def is_upper_def is_lower_def is_digit_def)
  then show "valid_id did \<Longrightarrow> CHR ''/'' \<notin> set did"
    by (auto simp: storage_ValidateID_def list_all_iff split: if_splits)
qed

section \<open>Files\<close>

datatype 'm file_data = Blob bytes | Json 'm

fun blob_of :: "'m file_data \<Rightarrow> bytes" where
  "blob_of (Blob b) = b"
| "blob_of (Json m) = []"

text \<open>\<^verbatim>\<open>time.Time.MarshalJSON\<close> fails outside the years 0 to 9999; 3652059 days separate 1 January
  of year 1 and of year 10000.\<close>

definition json_time_ok :: "time \<Rightarrow> bool" where
  "json_time_ok t \<longleftrightarrow> - (366 * 86400 * second_ns) \<le> t \<and> t < 3652059 * 86400 * second_ns"

lemma json_time_ok_0 [simp]: "json_time_ok 0"
  by (simp add: json_time_ok_def)

text \<open>\<^verbatim>\<open>os.Rename\<close> of an existing file replaces its target.\<close>

definition drename :: "string \<Rightarrow> string \<Rightarrow> 'v dir \<Rightarrow> 'v dir" where
  "drename a b d = (case dget d a of None \<Rightarrow> d | Some v \<Rightarrow> dput b v (ddel a d))"

lemma dir_ok_drename [simp, dir_facts]: "dir_ok d \<Longrightarrow> dir_ok (drename a b d)"
  by (simp add: drename_def split: option.splits)

lemma dget_drename [simp, dir_facts]:
  "dget d a = Some v \<Longrightarrow> dget (drename a b d) = ((dget d)(a := None))(b \<mapsto> v)"
  by (auto simp: drename_def fun_eq_iff)

text \<open>\<^verbatim>\<open>io.ReadAll(io.LimitReader(r, n))\<close>: \<open>None\<close> where the reader fails before the limit.\<close>

definition limit_read_all :: "int \<Rightarrow> reader \<Rightarrow> bytes option" where
  "limit_read_all n r =
     (if nat n \<le> length (rd_data r) then Some (take (nat n) (rd_data r))
      else if rd_fails r then None else Some (rd_data r))"

section \<open>The contract of a store\<close>

text \<open>
  \<open>live s t did\<close> is the payload a store holds for \<open>did\<close> at time \<open>t\<close>, \<open>ok_id\<close> and \<open>ok_exp\<close> are
  the identifiers and expiry times it promises anything about, and \<open>keeps e t\<close> tells whether a
  payload stored with expiry \<open>e\<close> is still live at \<open>t\<close>. The laws speak of calls whose context
  is not cancelled, and of the present and the future of each call: what has expired may be
  swept by any operation.
\<close>

locale blob_store =
  fixes pv :: "'s provider"
    and inv :: "'s \<Rightarrow> bool"
    and live :: "'s \<Rightarrow> time \<Rightarrow> string \<Rightarrow> bytes option"
    and keeps :: "time \<Rightarrow> time \<Rightarrow> bool"
    and ok_id :: "string \<Rightarrow> bool"
    and ok_exp :: "time \<Rightarrow> bool"
  assumes live_antimono: "live s t' did = Some b \<Longrightarrow> t \<le> t' \<Longrightarrow> live s t did = Some b"
    and put_inv: "inv s \<Longrightarrow> ok_id did \<Longrightarrow> ok_exp e \<Longrightarrow> inv (snd (pv_put pv live_ctx now did r sz e s))"
    and put_ok: "inv s \<Longrightarrow> ok_id did \<Longrightarrow> ok_exp e \<Longrightarrow>
      pv_put pv live_ctx now did r sz e s = (None, s') \<Longrightarrow>
      0 \<le> sz \<and> nat sz \<le> length (rd_data r) \<and>
      (\<forall>t k. ok_id k \<longrightarrow> live s' t k =
         (if k = did then (if keeps e t then Some (take (nat sz) (rd_data r)) else None)
          else live s t k))"
    and put_err: "inv s \<Longrightarrow> ok_id did \<Longrightarrow> ok_exp e \<Longrightarrow>
      pv_put pv live_ctx now did r sz e s = (Some x, s') \<Longrightarrow> ok_id k \<Longrightarrow> live s' t k = live s t k"
    and get_state: "inv s \<Longrightarrow> ok_id did \<Longrightarrow> pv_get pv live_ctx now did off s = (res, s') \<Longrightarrow>
      inv s' \<and> (\<forall>t k. now \<le> t \<longrightarrow> ok_id k \<longrightarrow> live s' t k = live s t k)"
    and get_live: "inv s \<Longrightarrow> ok_id did \<Longrightarrow> live s now did = Some b \<Longrightarrow> 0 \<le> off \<Longrightarrow> off \<le> int (length b) \<Longrightarrow>
      fst (pv_get pv live_ctx now did off s) = Inr (drop (nat off) b)"
    and get_dead: "inv s \<Longrightarrow> ok_id did \<Longrightarrow> live s now did = None \<Longrightarrow>
      fst (pv_get pv live_ctx now did off s) \<in> {Inl NotFound, Inl Expired}"
    and delete_law: "inv s \<Longrightarrow> ok_id did \<Longrightarrow> pv_delete pv live_ctx now did s = (dres, s') \<Longrightarrow>
      inv s' \<and> (\<forall>t k. ok_id k \<longrightarrow> live s' t k = (if k = did then None else live s t k))"
    and exists_law: "inv s \<Longrightarrow> ok_id did \<Longrightarrow> pv_exists pv live_ctx now did s = (xres, s') \<Longrightarrow>
      inv s' \<and> xres = Inr (live s now did \<noteq> None) \<and>
      (\<forall>t k. now \<le> t \<longrightarrow> ok_id k \<longrightarrow> live s' t k = live s t k)"
    and stat_law: "inv s \<Longrightarrow> ok_id did \<Longrightarrow> pv_stat pv live_ctx now did s = (tres, s') \<Longrightarrow>
      inv s' \<and> (\<forall>t k. now \<le> t \<longrightarrow> ok_id k \<longrightarrow> live s' t k = live s t k) \<and>
      (case live s now did of Some b \<Rightarrow> (\<exists>e. tres = Inr (int (length b), e))
       | None \<Rightarrow> tres \<in> {Inl NotFound, Inl Expired})"
begin

lemma put_get:
  assumes "inv s" "ok_id did" "ok_exp e" "keeps e t'"
    and "pv_put pv live_ctx t did (reader_of b) (int (length b)) e s = (None, s1)"
  shows "fst (pv_get pv live_ctx t' did 0 s1) = Inr b"
proof -
  have "inv s1" using put_inv [OF assms(1-3), of t "reader_of b" "int (length b)"] assms(5) by simp
  moreover have "live s1 t' did = Some b"
    using put_ok [OF assms(1-3) assms(5)] assms(2,4) by simp
  ultimately show ?thesis using get_live [of s1 did t' b 0] assms(2) by simp
qed

lemma put_get_other:
  assumes "inv s" "ok_id did" "ok_exp e" "ok_id k" "k \<noteq> did"
    and "pv_put pv live_ctx t did r n e s = (x, s1)"
  shows "live s1 t' k = live s t' k"
proof (cases x)
  case None
  then show ?thesis using put_ok [OF assms(1-3)] assms(4-6) by simp
next
  case (Some a)
  then show ?thesis using put_err [OF assms(1-3)] assms(4-6) by blast
qed

lemma delete_get:
  assumes "inv s" "ok_id did" "pv_delete pv live_ctx t did s = (res, s1)"
  shows "fst (pv_get pv live_ctx t' did off s1) \<in> {Inl NotFound, Inl Expired}"
  using delete_law [OF assms] assms(2) get_dead by simp

end

section \<open>Runs of operations against an abstract store\<close>

text \<open>
  A client's calls, each with its clock reading, and what they answer. \<open>run_calls\<close> performs
  them on a provider. The abstract store maps an identifier to a payload and its expiry.
\<close>

datatype call =
    CPut string bytes time
  | CGet string int
  | CDelete string
  | CExists string

datatype answer =
    ADone bool
  | AData bytes
  | ANoData
  | AExists bool

fun perform :: "'s provider \<Rightarrow> time \<Rightarrow> call \<Rightarrow> 's \<Rightarrow> answer \<times> 's" where
  "perform pv now (CPut did b e) s =
     (let (x, s') = pv_put pv live_ctx now did (reader_of b) (int (length b)) e s in (ADone (x = None), s'))"
| "perform pv now (CGet did off) s =
     (let (x, s') = pv_get pv live_ctx now did off s
      in (case x of Inl _ \<Rightarrow> ANoData | Inr b \<Rightarrow> AData b, s'))"
| "perform pv now (CDelete did) s =
     (let (x, s') = pv_delete pv live_ctx now did s in (ADone True, s'))"
| "perform pv now (CExists did) s =
     (let (x, s') = pv_exists pv live_ctx now did s in (AExists (x = Inr True), s'))"

fun run_calls :: "'s provider \<Rightarrow> (time \<times> call) list \<Rightarrow> 's \<Rightarrow> answer list \<times> 's" where
  "run_calls pv [] s = ([], s)"
| "run_calls pv ((now, c) # cs) s =
     (let (a, s1) = perform pv now c s; (ans, s2) = run_calls pv cs s1 in (a # ans, s2))"

type_synonym abs_store = "string \<rightharpoonup> bytes \<times> time"

definition abs_live :: "(time \<Rightarrow> time \<Rightarrow> bool) \<Rightarrow> abs_store \<Rightarrow> time \<Rightarrow> string \<Rightarrow> bytes option" where
  "abs_live keeps m t did = (case m did of Some (b, e) \<Rightarrow> if keeps e t then Some b else None | None \<Rightarrow> None)"

text \<open>What the abstract store allows each call to answer, and its effect; a put may be refused
  (quota), and then changes nothing.\<close>

fun abs_step :: "(time \<Rightarrow> time \<Rightarrow> bool) \<Rightarrow> time \<Rightarrow> call \<Rightarrow> answer \<Rightarrow> abs_store \<Rightarrow> abs_store option" where
  "abs_step keeps now (CPut did b e) a m =
     (case a of ADone True \<Rightarrow> Some (m(did \<mapsto> (b, e))) | ADone False \<Rightarrow> Some m | _ \<Rightarrow> None)"
| "abs_step keeps now (CGet did off) a m =
     (case abs_live keeps m now did of
        None \<Rightarrow> if a = ANoData then Some m else None
      | Some b \<Rightarrow> if 0 \<le> off \<and> off \<le> int (length b)
                  then (if a = AData (drop (nat off) b) then Some m else None)
                  else (case a of AData _ \<Rightarrow> Some m | ANoData \<Rightarrow> Some m | _ \<Rightarrow> None))"
| "abs_step keeps now (CDelete did) a m = (if a = ADone True then Some (m(did := None)) else None)"
| "abs_step keeps now (CExists did) a m =
     (if a = AExists (abs_live keeps m now did \<noteq> None) then Some m else None)"

fun abs_run :: "(time \<Rightarrow> time \<Rightarrow> bool) \<Rightarrow> (time \<times> call) list \<Rightarrow> answer list \<Rightarrow> abs_store \<Rightarrow> abs_store option" where
  "abs_run keeps [] [] m = Some m"
| "abs_run keeps ((now, c) # cs) (a # ans) m =
     (case abs_step keeps now c a m of None \<Rightarrow> None | Some m' \<Rightarrow> abs_run keeps cs ans m')"
| "abs_run keeps _ _ m = None"

fun call_ok :: "(string \<Rightarrow> bool) \<Rightarrow> (time \<Rightarrow> bool) \<Rightarrow> call \<Rightarrow> bool" where
  "call_ok ok_id ok_exp (CPut did b e) = (ok_id did \<and> ok_exp e)"
| "call_ok ok_id ok_exp (CGet did off) = ok_id did"
| "call_ok ok_id ok_exp (CDelete did) = ok_id did"
| "call_ok ok_id ok_exp (CExists did) = ok_id did"

text \<open>The part of the contract that such a client relies on: its puts state the size of what they
  send, and it asks nothing of stores about other puts.\<close>

locale plain_store =
  fixes pv :: "'s provider"
    and inv :: "'s \<Rightarrow> bool"
    and live :: "'s \<Rightarrow> time \<Rightarrow> string \<Rightarrow> bytes option"
    and keeps :: "time \<Rightarrow> time \<Rightarrow> bool"
    and ok_id :: "string \<Rightarrow> bool"
    and ok_exp :: "time \<Rightarrow> bool"
  assumes plain_put: "inv s \<Longrightarrow> ok_id did \<Longrightarrow> ok_exp e \<Longrightarrow>
      pv_put pv live_ctx now did (reader_of b) (int (length b)) e s = (x, s') \<Longrightarrow>
      inv s' \<and> (\<forall>t k. ok_id k \<longrightarrow> live s' t k =
         (if k = did \<and> x = None then (if keeps e t then Some b else None) else live s t k))"
    and plain_get: "inv s \<Longrightarrow> ok_id did \<Longrightarrow> pv_get pv live_ctx now did off s = (res, s') \<Longrightarrow>
      inv s' \<and> (\<forall>t k. now \<le> t \<longrightarrow> ok_id k \<longrightarrow> live s' t k = live s t k) \<and>
      (case live s now did of
         Some b \<Rightarrow> 0 \<le> off \<and> off \<le> int (length b) \<longrightarrow> res = Inr (drop (nat off) b)
       | None \<Rightarrow> res \<in> {Inl NotFound, Inl Expired})"
    and plain_delete: "inv s \<Longrightarrow> ok_id did \<Longrightarrow> pv_delete pv live_ctx now did s = (dres, s') \<Longrightarrow>
      inv s' \<and> (\<forall>t k. ok_id k \<longrightarrow> live s' t k = (if k = did then None else live s t k))"
    and plain_exists: "inv s \<Longrightarrow> ok_id did \<Longrightarrow> pv_exists pv live_ctx now did s = (xres, s') \<Longrightarrow>
      inv s' \<and> xres = Inr (live s now did \<noteq> None) \<and>
      (\<forall>t k. now \<le> t \<longrightarrow> ok_id k \<longrightarrow> live s' t k = live s t k)"
begin

definition agrees :: "time \<Rightarrow> 's \<Rightarrow> abs_store \<Rightarrow> bool" where
  "agrees now s m \<longleftrightarrow> (\<forall>t k. now \<le> t \<longrightarrow> ok_id k \<longrightarrow> live s t k = abs_live keeps m t k)"

lemma agrees_later: "agrees now s m \<Longrightarrow> now \<le> now' \<Longrightarrow> agrees now' s m"
  by (simp add: agrees_def)

lemma perform_refines:
  assumes s: "inv s" and ag: "agrees now s m" and ok: "call_ok ok_id ok_exp c"
    and run: "perform pv now c s = (a, s')"
  shows "inv s' \<and> (\<exists>m'. abs_step keeps now c a m = Some m' \<and> agrees now s' m')"
proof (cases c)
  case (CPut did b e)
  obtain x where p: "pv_put pv live_ctx now did (reader_of b) (int (length b)) e s = (x, s')"
    and a: "a = ADone (x = None)"
    using run by (auto simp: CPut Let_def split: prod.splits)
  have l: "inv s' \<and> (\<forall>t k. ok_id k \<longrightarrow> live s' t k =
      (if k = did \<and> x = None then (if keeps e t then Some b else None) else live s t k))"
    using plain_put [OF s _ _ p] ok by (simp add: CPut)
  then have i: "inv s'" ..
  show ?thesis
  proof (cases x)
    case None
    have "agrees now s' (m(did \<mapsto> (b, e)))"
      using ag l None by (simp add: agrees_def abs_live_def)
    then show ?thesis using i by (simp add: a None CPut)
  next
    case (Some y)
    have "agrees now s' m"
      using ag l Some by (simp add: agrees_def)
    then show ?thesis using i by (simp add: a Some CPut)
  qed
next
  case (CGet did off)
  obtain x where g: "pv_get pv live_ctx now did off s = (x, s')"
    and a: "a = (case x of Inl _ \<Rightarrow> ANoData | Inr b \<Rightarrow> AData b)"
    using run by (auto simp: CGet Let_def split: prod.splits)
  have did: "ok_id did" using ok by (simp add: CGet)
  have st: "inv s'" "agrees now s' m"
    using plain_get [OF s did g] ag by (simp_all add: agrees_def)
  have l: "abs_live keeps m now did = live s now did" using ag did by (simp add: agrees_def)
  show ?thesis
  proof (cases "live s now did")
    case None
    then have "x = Inl NotFound \<or> x = Inl Expired" using plain_get [OF s did g] by simp
    then show ?thesis using st by (auto simp: CGet l None a)
  next
    case (Some b)
    then show ?thesis
      using st plain_get [OF s did g] by (cases x) (auto simp: CGet l a)
  qed
next
  case (CDelete did)
  obtain x where d: "pv_delete pv live_ctx now did s = (x, s')" and a: "a = ADone True"
    using run by (auto simp: CDelete Let_def split: prod.splits)
  have "inv s'" "agrees now s' (m(did := None))"
    using plain_delete [OF s _ d] ok ag by (simp_all add: CDelete agrees_def abs_live_def)
  then show ?thesis by (simp add: a CDelete)
next
  case (CExists did)
  obtain x where d: "pv_exists pv live_ctx now did s = (x, s')" and a: "a = AExists (x = Inr True)"
    using run by (auto simp: CExists Let_def split: prod.splits)
  have "ok_id did" using ok by (simp add: CExists)
  then show ?thesis
    using plain_exists [OF s _ d] ag by (simp add: a CExists agrees_def)
qed

lemma run_refines:
  assumes "inv s" "agrees t0 s m" "sorted (t0 # map fst cs)"
    and "\<forall>(now, c) \<in> set cs. call_ok ok_id ok_exp c" "run_calls pv cs s = (ans, s')"
  shows "inv s' \<and> abs_run keeps cs ans m \<noteq> None"
  using assms
proof (induction cs arbitrary: t0 s m ans)
  case Nil
  then show ?case by simp
next
  case (Cons p cs)
  obtain now c where p: "p = (now, c)" by (cases p)
  obtain a s1 where pf: "perform pv now c s = (a, s1)" by fastforce
  obtain ans2 where r: "run_calls pv cs s1 = (ans2, s')" and ans: "ans = a # ans2"
    using Cons.prems(5) by (auto simp: p pf Let_def split: prod.splits)
  have "agrees now s m" using Cons.prems(2,3) by (auto simp: p intro: agrees_later)
  from perform_refines [OF Cons.prems(1) this _ pf] Cons.prems(4) obtain m' where
    "inv s1" "abs_step keeps now c a m = Some m'" "agrees now s1 m'"
    by (auto simp: p)
  then show ?case using Cons.IH [OF _ _ _ _ r] Cons.prems(3,4) by (simp add: p ans)
qed

text \<open>A store that holds nothing, as a client finds it.\<close>

lemma run_from_empty:
  assumes "inv s" "\<And>t k. ok_id k \<Longrightarrow> live s t k = None" "sorted (map fst cs)"
    and "\<forall>(now, c) \<in> set cs. call_ok ok_id ok_exp c" "run_calls pv cs s = (ans, s')"
  shows "inv s' \<and> abs_run keeps cs ans Map.empty \<noteq> None"
proof (cases cs)
  case Nil
  then show ?thesis using assms(1,5) by simp
next
  case (Cons c cs')
  have "agrees (fst c) s Map.empty" using assms(2) by (simp add: agrees_def abs_live_def)
  moreover have "sorted (fst c # map fst cs)" using assms(3) by (simp add: Cons)
  ultimately show ?thesis by (rule run_refines [OF assms(1) _ _ assms(4,5)])
qed

end

text \<open>Every store of the full contract is one of these.\<close>

sublocale blob_store \<subseteq> plain_store
proof
  fix s did e now b x s'
  assume h: "inv s" "ok_id did" "ok_exp e" and p: "pv_put pv live_ctx now did (reader_of b) (int (length b)) e s = (x, s')"
  have "inv s'" using put_inv [OF h, of now "reader_of b" "int (length b)"] p by simp
  moreover have "\<forall>t k. ok_id k \<longrightarrow> live s' t k =
      (if k = did \<and> x = None then (if keeps e t then Some b else None) else live s t k)"
    using put_ok [OF h, of now "reader_of b" "int (length b)" s'] put_err [OF h, of now "reader_of b" "int (length b)"] p
    by (cases x) auto
  ultimately show "inv s' \<and> (\<forall>t k. ok_id k \<longrightarrow> live s' t k =
      (if k = did \<and> x = None then (if keeps e t then Some b else None) else live s t k))" ..
next
  fix s did now off res s'
  assume h: "inv s" "ok_id did" and g: "pv_get pv live_ctx now did off s = (res, s')"
  show "inv s' \<and> (\<forall>t k. now \<le> t \<longrightarrow> ok_id k \<longrightarrow> live s' t k = live s t k) \<and>
      (case live s now did of
         Some b \<Rightarrow> 0 \<le> off \<and> off \<le> int (length b) \<longrightarrow> res = Inr (drop (nat off) b)
       | None \<Rightarrow> res \<in> {Inl NotFound, Inl Expired})"
    using get_state [OF h g] get_live [OF h, of now _ off] get_dead [OF h, of now off] g
    by (auto split: option.splits)
qed (blast dest: delete_law exists_law)+

context blob_store begin

lemma is_plain_store: "plain_store pv inv live keeps ok_id ok_exp"
  by (rule plain_store_axioms)

end

end
