(* ===== verification/MemoryStore.thy ===== *)
theory MemoryStore
  imports StorageApi
begin

text \<open>
  \<^verbatim>\<open>internal/storage/memory.go\<close>: the in-memory provider. The state is the Go map, the counter of
  used bytes and the quota; every operation is one critical section, except \<^verbatim>\<open>Get\<close>, which reads
  under the read lock and removes an expired entry under a second, later lock
  (\<open>mem_get_read\<close>, \<open>mem_get_expire\<close>).
\<close>

record mem_item =
  mi_data :: bytes
  mi_expiry :: time

record mem =
  mem_items :: "mem_item dir"
  mem_used :: int
  mem_max :: int

definition storage_NewMemoryProvider :: "int \<Rightarrow> mem" where
  "storage_NewMemoryProvider maxBytes =
     (let maxBytes = (if maxBytes \<le> 0 then DefaultQuotaBytes else maxBytes)
      in \<lparr>mem_items = [], mem_used = 0, mem_max = maxBytes\<rparr>)"

definition mem_Backend :: string where
  "mem_Backend = ''memory''"

definition mi_size :: "mem_item \<Rightarrow> int" where
  "mi_size it = int (length (mi_data it))"

definition mi_expired :: "time \<Rightarrow> mem_item \<Rightarrow> bool" where
  "mi_expired now it \<longleftrightarrow> mi_expiry it \<noteq> 0 \<and> now > mi_expiry it"

definition mem_drop :: "string \<Rightarrow> mem_item \<Rightarrow> mem \<Rightarrow> mem" where
  "mem_drop did it s = s\<lparr>mem_items := ddel did (mem_items s), mem_used := mem_used s - mi_size it\<rparr>"

text \<open>The read is limited to \<open>maxBytes + 1\<close>, a sum of \<^verbatim>\<open>int64\<close> that wraps for the largest quota.\<close>

definition mem_Put :: "ctx \<Rightarrow> string \<Rightarrow> reader \<Rightarrow> int \<Rightarrow> time \<Rightarrow> mem \<Rightarrow> st_err option \<times> mem" where
  "mem_Put ctx did r sz expiry s =
     (case storage_ValidateID did of
        Some e \<Rightarrow> (Some e, s)
      | None \<Rightarrow>
          (if ctx 0 then (Some CtxDone, s)
           else if sz < 0 then (Some NegativeSize, s)
           else (case limit_read_all (wrap64 (mem_max s + 1)) r of
                   None \<Rightarrow> (Some ReadFailed, s)
                 | Some data \<Rightarrow>
                     (if int (length data) > mem_max s then (Some Quota, s)
                      else if int (length data) \<noteq> sz
                      then (Some (ShortRead (int (length data)) sz), s)
                      else (let old = (case dget (mem_items s) did of
                                         Some it \<Rightarrow> mi_size it | None \<Rightarrow> 0)
                            in if mem_used s - old + sz > mem_max s then (Some Quota, s)
                               else (None, s\<lparr>mem_items := dput did
                                       \<lparr>mi_data = data, mi_expiry = expiry\<rparr> (mem_items s),
                                     mem_used := mem_used s - old + sz\<rparr>))))))"

definition mem_get_read :: "string \<Rightarrow> mem \<Rightarrow> mem_item option" where
  "mem_get_read did s = dget (mem_items s) did"

definition mem_get_expire :: "string \<Rightarrow> mem_item \<Rightarrow> mem \<Rightarrow> mem" where
  "mem_get_expire did it s = mem_drop did it s"

definition mem_Get :: "ctx \<Rightarrow> time \<Rightarrow> string \<Rightarrow> int \<Rightarrow> mem \<Rightarrow> (st_err + bytes) \<times> mem" where
  "mem_Get ctx now did off s =
     (if ctx 0 then (Inl CtxDone, s)
      else (case mem_get_read did s of
              None \<Rightarrow> (Inl NotFound, s)
            | Some it \<Rightarrow>
                (if mi_expired now it then (Inl Expired, mem_get_expire did it s)
                 else if off < 0 \<or> off > mi_size it then (Inl (OffsetRange off (mi_size it)), s)
                 else (Inr (drop (nat off) (mi_data it)), s))))"

definition mem_Delete :: "ctx \<Rightarrow> string \<Rightarrow> mem \<Rightarrow> st_err option \<times> mem" where
  "mem_Delete ctx did s =
     (if ctx 0 then (Some CtxDone, s)
      else (case dget (mem_items s) did of
              None \<Rightarrow> (None, s)
            | Some it \<Rightarrow> (None, mem_drop did it s)))"

definition mem_Exists :: "ctx \<Rightarrow> time \<Rightarrow> string \<Rightarrow> mem \<Rightarrow> (st_err + bool) \<times> mem" where
  "mem_Exists ctx now did s =
     (if ctx 0 then (Inl CtxDone, s)
      else (case dget (mem_items s) did of
              None \<Rightarrow> (Inr False, s)
            | Some it \<Rightarrow>
                (if mi_expired now it then (Inr False, mem_drop did it s) else (Inr True, s))))"

definition mem_Stat :: "ctx \<Rightarrow> time \<Rightarrow> string \<Rightarrow> mem \<Rightarrow> (st_err + int \<times> time) \<times> mem" where
  "mem_Stat ctx now did s =
     (if ctx 0 then (Inl CtxDone, s)
      else (case dget (mem_items s) did of
              None \<Rightarrow> (Inl NotFound, s)
            | Some it \<Rightarrow>
                (if mi_expired now it then (Inl Expired, mem_drop did it s)
                 else (Inr (mi_size it, mi_expiry it), s))))"

definition mem_Health :: "ctx \<Rightarrow> mem \<Rightarrow> st_err option \<times> mem" where
  "mem_Health ctx s = (if ctx 0 then (Some CtxDone, s) else (None, s))"

definition memory_provider :: "mem provider" where
  "memory_provider =
     \<lparr>pv_put = (\<lambda>ctx now. mem_Put ctx), pv_get = mem_Get, pv_delete = (\<lambda>ctx now. mem_Delete ctx),
      pv_exists = mem_Exists, pv_stat = mem_Stat, pv_health = (\<lambda>ctx now. mem_Health ctx),
      pv_backend = mem_Backend\<rparr>"

lemmas mem_op_defs = mem_Put_def mem_Get_def mem_Delete_def mem_Exists_def mem_Stat_def
  mem_get_read_def mem_get_expire_def mem_drop_def

section \<open>The accounting invariant\<close>

text \<open>The counter is the sum of the sizes of the stored blobs and stays within the quota.\<close>

definition mem_inv :: "mem \<Rightarrow> bool" where
  "mem_inv s \<longleftrightarrow> dir_ok (mem_items s) \<and> mem_used s = dsum (\<lambda>k it. mi_size it) (mem_items s) \<and>
     mem_used s \<le> mem_max s \<and> 0 \<le> mem_max s"

lemma mi_size_nonneg [simp]: "0 \<le> mi_size it"
  by (simp add: mi_size_def)

lemma mem_inv_new: "mem_inv (storage_NewMemoryProvider n)"
  by (simp add: mem_inv_def storage_NewMemoryProvider_def DefaultQuotaBytes_def Let_def)

lemma mem_inv_drop [step_preserves]:
  assumes "mem_inv s" "dget (mem_items s) did = Some it"
  shows "mem_inv (mem_drop did it s)"
  using assms mi_size_nonneg [of it]
  by (simp add: mem_inv_def mem_drop_def dsum_ddel dweight_def del: mi_size_nonneg)

lemma mem_Put_cases:
  assumes "mem_Put ctx did r sz e s = (x, s')"
  obtains y where "x = Some y" "s' = s"
    | data old where "x = None" "valid_id did" "0 \<le> sz" "int (length data) = sz" "sz \<le> mem_max s"
      "limit_read_all (wrap64 (mem_max s + 1)) r = Some data"
      "old = dweight (\<lambda>k it. mi_size it) (mem_items s) did" "mem_used s - old + sz \<le> mem_max s"
      "s' = s\<lparr>mem_items := dput did \<lparr>mi_data = data, mi_expiry = e\<rparr> (mem_items s),
        mem_used := mem_used s - old + sz\<rparr>"
  using assms
  by (fastforce simp: mem_Put_def Let_def dweight_def split: option.splits if_splits)

lemma mem_inv_Put [step_preserves]:
  assumes "mem_inv s" "mem_Put ctx did r sz e s = (x, s')"
  shows "mem_inv s'"
  using assms(2)
proof (cases rule: mem_Put_cases)
  case (2 data old)
  then show ?thesis
    using assms(1) by (simp add: mem_inv_def dsum_dput) (simp add: mi_size_def)
qed (use assms(1) in simp)

lemma mem_inv_Get [step_preserves]: "mem_inv s \<Longrightarrow> mem_inv (snd (mem_Get ctx now did off s))"
  by (simp add: mem_Get_def mem_get_read_def mem_get_expire_def mem_inv_drop split: option.splits)

lemma mem_inv_Delete [step_preserves]: "mem_inv s \<Longrightarrow> mem_inv (snd (mem_Delete ctx did s))"
  by (simp add: mem_Delete_def mem_inv_drop split: option.splits)

lemma mem_inv_Exists [step_preserves]: "mem_inv s \<Longrightarrow> mem_inv (snd (mem_Exists ctx now did s))"
  by (simp add: mem_Exists_def mem_inv_drop split: option.splits)

lemma mem_inv_Stat [step_preserves]: "mem_inv s \<Longrightarrow> mem_inv (snd (mem_Stat ctx now did s))"
  by (simp add: mem_Stat_def mem_inv_drop split: option.splits)

section \<open>The provider meets the contract\<close>

text \<open>A zero expiry means never; otherwise a blob is live up to and including its expiry.\<close>

definition keeps_until :: "time \<Rightarrow> time \<Rightarrow> bool" where
  "keeps_until e t \<longleftrightarrow> e = 0 \<or> t \<le> e"

definition mem_live :: "mem \<Rightarrow> time \<Rightarrow> string \<Rightarrow> bytes option" where
  "mem_live s t did =
     (case dget (mem_items s) did of
        None \<Rightarrow> None
      | Some it \<Rightarrow> if mi_expired t it then None else Some (mi_data it))"

lemma mem_live_drop:
  "dget (mem_items s) did = Some it \<Longrightarrow> mi_expired now it \<Longrightarrow> now \<le> t \<Longrightarrow>
    mem_live (mem_drop did it s) t k = mem_live s t k"
  by (auto simp: mem_live_def mem_drop_def mi_expired_def)

lemma limit_read_all_prefix:
  "limit_read_all n r = Some data \<Longrightarrow> data = take (length data) (rd_data r) \<and>
    length data \<le> length (rd_data r)"
  by (auto simp: limit_read_all_def split: if_splits)

interpretation mem_store: blob_store memory_provider mem_inv mem_live keeps_until
  "\<lambda>did. valid_id did" "\<lambda>e. True"
proof (unfold_locales, goal_cases)
  case (1 s t' did b t)
  then show ?case by (auto simp: mem_live_def mi_expired_def split: option.splits if_splits)
next
  case (2 s did e now r sz)
  then show ?case
    by (simp add: memory_provider_def) (metis mem_inv_Put prod.collapse)
next
  case (3 s did e now r sz s')
  then have run: "mem_Put live_ctx did r sz e s = (None, s')" by (simp add: memory_provider_def)
  then show ?case
  proof (cases rule: mem_Put_cases)
    case (2 data old)
    then have "data = take (nat sz) (rd_data r)" "nat sz \<le> length (rd_data r)"
      using limit_read_all_prefix by fastforce+
    then show ?thesis
      using 2 by (auto simp: mem_live_def mi_expired_def keeps_until_def not_less split: if_splits)
  qed simp
next
  case (4 s did e now r sz x s' k t)
  then have "mem_Put live_ctx did r sz e s = (Some x, s')" by (simp add: memory_provider_def)
  then show ?case by (cases rule: mem_Put_cases) simp_all
next
  case (5 s did now off res s')
  then have run: "mem_Get live_ctx now did off s = (res, s')" by (simp add: memory_provider_def)
  then have "mem_inv s'" using mem_inv_Get [of s live_ctx now did off] 5(1) by simp
  moreover have "mem_live s' t k = mem_live s t k" if "now \<le> t" for t k
    using run that
    by (auto simp: mem_Get_def mem_get_read_def mem_get_expire_def mem_live_drop
        split: option.splits if_splits)
  ultimately show ?case by blast
next
  case (6 s did now b off)
  then show ?case
    by (auto simp: memory_provider_def mem_Get_def mem_get_read_def mem_live_def mi_size_def
        split: option.splits if_splits)
next
  case (7 s did now off)
  then show ?case
    by (auto simp: memory_provider_def mem_Get_def mem_get_read_def mem_live_def
        split: option.splits if_splits)
next
  case (8 s did now res s')
  then have run: "mem_Delete live_ctx did s = (res, s')" by (simp add: memory_provider_def)
  then have "mem_inv s'" using mem_inv_Delete [of s live_ctx did] 8(1) by simp
  then show ?case
    using run by (auto simp: mem_Delete_def mem_live_def mem_drop_def split: option.splits)
next
  case (9 s did now res s')
  then have run: "mem_Exists live_ctx now did s = (res, s')" by (simp add: memory_provider_def)
  then have i: "mem_inv s'" using mem_inv_Exists [of s live_ctx now did] 9(1) by simp
  have "mem_live s' t k = mem_live s t k" if "now \<le> t" for t k
    using run that by (auto simp: mem_Exists_def mem_live_drop split: option.splits if_splits)
  moreover have "res = Inr (mem_live s now did \<noteq> None)"
    using run by (auto simp: mem_Exists_def mem_live_def split: option.splits if_splits)
  ultimately show ?case using i by blast
next
  case (10 s did now res s')
  then have run: "mem_Stat live_ctx now did s = (res, s')" by (simp add: memory_provider_def)
  then have i: "mem_inv s'" using mem_inv_Stat [of s live_ctx now did] 10(1) by simp
  have "mem_live s' t k = mem_live s t k" if "now \<le> t" for t k
    using run that by (auto simp: mem_Stat_def mem_live_drop split: option.splits if_splits)
  moreover have "case mem_live s now did of Some b \<Rightarrow> \<exists>e. res = Inr (int (length b), e)
      | None \<Rightarrow> res \<in> {Inl NotFound, Inl Expired}"
    using run by (auto simp: mem_Stat_def mem_live_def mi_size_def split: option.splits if_splits)
  ultimately show ?case using i by blast
qed

section \<open>Properties\<close>

text \<open>States a provider reaches from its constructor by whole operations, in any order, with any
  arguments, contexts and clock readings.\<close>

inductive mem_reach :: "int \<Rightarrow> mem \<Rightarrow> bool" for n where
  new: "mem_reach n (storage_NewMemoryProvider n)"
| put: "mem_reach n s \<Longrightarrow> mem_reach n (snd (mem_Put ctx did r sz e s))"
| get: "mem_reach n s \<Longrightarrow> mem_reach n (snd (mem_Get ctx now did off s))"
| delete: "mem_reach n s \<Longrightarrow> mem_reach n (snd (mem_Delete ctx did s))"
| exists: "mem_reach n s \<Longrightarrow> mem_reach n (snd (mem_Exists ctx now did s))"
| stat: "mem_reach n s \<Longrightarrow> mem_reach n (snd (mem_Stat ctx now did s))"
| health: "mem_reach n s \<Longrightarrow> mem_reach n (snd (mem_Health ctx s))"

lemma mem_reach_inv: "mem_reach n s \<Longrightarrow> mem_inv s"
proof (induction rule: mem_reach.induct)
  case (put s ctx did r sz e)
  then show ?case by (metis mem_inv_Put prod.collapse)
qed (simp_all add: mem_inv_new mem_inv_Get mem_inv_Delete mem_inv_Exists mem_inv_Stat mem_Health_def)

text \<open>
  C27 Quota accounting of the memory provider: in every state reached by whole operations the
  counter of used bytes is the total size of the stored blobs, each stored once, and it does
  not exceed the quota.
\<close>

theorem mem_accounting:
  assumes "mem_reach n s"
  shows "mem_used s = (\<Sum>(k, it) \<leftarrow> mem_items s. int (length (mi_data it))) \<and>
    distinct (map fst (mem_items s)) \<and> mem_used s \<le> mem_max s"
  using mem_reach_inv [OF assms] by (simp add: mem_inv_def dsum_def mi_size_def)

theorem mem_accounting_witness:
  "mem_used (snd (mem_Put live_ctx ''a'' (reader_of [1, 2]) 2 0 (storage_NewMemoryProvider 5))) \<le> 5"
  using mem_accounting [OF mem_reach.put [OF mem_reach.new, of 5 live_ctx "''a''" "reader_of [1, 2]" 2 0]]
  by (simp add: mem_Put_def storage_NewMemoryProvider_def Let_def split: option.splits)

text \<open>
  C7 The memory provider refines an abstract map: started from the constructor's state,
  every run of puts, gets, deletes and existence tests on valid identifiers, at non-decreasing
  clock readings, answers as the map from identifiers to payload and expiry does; a refused
  put changes nothing.
\<close>

theorem mem_refines_map:
  assumes "sorted (map fst cs)" "\<forall>(now, c) \<in> set cs. call_ok (\<lambda>did. valid_id did) (\<lambda>e. True) c"
  shows "abs_run keeps_until cs
    (fst (run_calls memory_provider cs (storage_NewMemoryProvider n))) Map.empty \<noteq> None"
proof -
  obtain ans s' where r: "run_calls memory_provider cs (storage_NewMemoryProvider n) = (ans, s')"
    by fastforce
  have "mem_live (storage_NewMemoryProvider n) t k = None" for t k
    by (simp add: mem_live_def storage_NewMemoryProvider_def Let_def)
  from mem_store.run_from_empty [OF mem_inv_new this assms r] show ?thesis by (simp add: r)
qed

theorem mem_refines_map_witness:
  "abs_run keeps_until [(1, CPut ''a'' [7] 5), (6, CGet ''a'' 0)]
    (fst (run_calls memory_provider [(1, CPut ''a'' [7] 5), (6, CGet ''a'' 0)]
      (storage_NewMemoryProvider 9))) Map.empty \<noteq> None"
  by (rule mem_refines_map) (simp_all, code_simp)

text \<open>
  Two concurrent reads of an expired blob break the accounting: when both look the entry up
  before either removes it, both subtract its size, and the counter ends below the total of
  the stored blobs by that size, so that later puts may exceed the quota.
\<close>

theorem mem_get_race:
  assumes "mem_inv s" "mem_get_read did s = Some it1" "mem_get_read did s = Some it2"
    and "mi_expired now it1" "mi_data it1 \<noteq> []"
  defines "s' \<equiv> mem_get_expire did it2 (mem_get_expire did it1 s)"
  shows "mem_used s' = dsum (\<lambda>k it. mi_size it) (mem_items s') - mi_size it1 \<and>
    mem_used s' < dsum (\<lambda>k it. mi_size it) (mem_items s')"
proof -
  have it: "dget (mem_items s) did = Some it1" "it2 = it1" and ok: "dir_ok (mem_items s)"
    and u: "mem_used s = dsum (\<lambda>k it. mi_size it) (mem_items s)"
    using assms by (simp_all add: mem_get_read_def mem_inv_def)
  have "mem_items s' = ddel did (ddel did (mem_items s))" "mem_used s' = mem_used s - mi_size it1 - mi_size it1"
    by (simp_all add: s'_def mem_get_expire_def mem_drop_def it)
  moreover have "0 < mi_size it1" using assms(5) by (simp add: mi_size_def)
  ultimately show ?thesis
    using it ok u by (simp add: dsum_ddel dweight_def)
qed

theorem mem_get_race_witness:
  "mem_used (mem_get_expire ''a'' \<lparr>mi_data = [1], mi_expiry = 3\<rparr>
     (mem_get_expire ''a'' \<lparr>mi_data = [1], mi_expiry = 3\<rparr>
       \<lparr>mem_items = [(''a'', \<lparr>mi_data = [1], mi_expiry = 3\<rparr>)], mem_used = 1, mem_max = 5\<rparr>)) < 0"
  using mem_get_race [of "\<lparr>mem_items = [(''a'', \<lparr>mi_data = [1], mi_expiry = 3\<rparr>)], mem_used = 1, mem_max = 5\<rparr>"
      "''a''" "\<lparr>mi_data = [1], mi_expiry = 3\<rparr>" "\<lparr>mi_data = [1], mi_expiry = 3\<rparr>" 4]
  by (simp add: mem_inv_def mem_get_read_def mem_get_expire_def mem_drop_def mi_expired_def mi_size_def)

end
