(* ===== verification/LocalStore.thy ===== *)
theory LocalStore
  imports StorageApi
begin

text \<open>
  \<^verbatim>\<open>internal/storage/local.go\<close>: the provider that keeps every blob in a file \<open>id.bin\<close> with a
  sidecar \<open>id.meta.json\<close>. The state is the directory \<^verbatim>\<open><dataDir>/drops\<close> and the quota. The
  base name that \<^verbatim>\<open>os.CreateTemp\<close> picks is a function of the directory and the pattern's
  prefix, \<open>None\<close> where it fails; faults of the device are not modelled.
\<close>

record local_meta =
  lm_size :: int
  lm_expiry :: time

type_synonym ldir = "local_meta file_data dir"

record local_store =
  ls_dir :: ldir
  ls_max :: int

type_synonym temp_picker = "ldir \<Rightarrow> string \<Rightarrow> string option"

definition storage_NewLocalProvider :: "ldir \<Rightarrow> string \<Rightarrow> int \<Rightarrow> st_err + local_store" where
  "storage_NewLocalProvider disk dataDir maxBytes =
     (if trim_space dataDir = '''' then Inl NeedDataDir
      else (let maxBytes = (if maxBytes \<le> 0 then DefaultQuotaBytes else maxBytes)
            in Inr \<lparr>ls_dir = disk, ls_max = maxBytes\<rparr>))"

definition local_Backend :: string where
  "local_Backend = ''local''"

definition binPath :: "string \<Rightarrow> string" where
  "binPath did = did @ ''.bin''"

definition metaPath :: "string \<Rightarrow> string" where
  "metaPath did = did @ ''.meta.json''"

definition local_readMeta :: "ldir \<Rightarrow> string \<Rightarrow> st_err + local_meta" where
  "local_readMeta d did =
     (case dget d (metaPath did) of
        None \<Rightarrow> Inl NotFound
      | Some (Blob raw) \<Rightarrow> Inl BadJson
      | Some (Json m) \<Rightarrow> Inr m)"

definition local_dirUsed :: "ldir \<Rightarrow> int" where
  "local_dirUsed d =
     dsum (\<lambda>name f. if has_suffix ''.bin'' name then int (length (blob_of f)) else 0) d"

definition lm_expired :: "time \<Rightarrow> local_meta \<Rightarrow> bool" where
  "lm_expired now m \<longleftrightarrow> lm_expiry m \<noteq> 0 \<and> now > lm_expiry m"

definition local_remove :: "string \<Rightarrow> ldir \<Rightarrow> ldir" where
  "local_remove did d = ddel (metaPath did) (ddel (binPath did) d)"

text \<open>\<^verbatim>\<open>sweep\<close> walks the names that \<^verbatim>\<open>os.ReadDir\<close> listed at its start, reading each file when it
  comes to it.\<close>

fun local_sweep_names :: "time \<Rightarrow> string list \<Rightarrow> ldir \<Rightarrow> ldir" where
  "local_sweep_names now [] d = d"
| "local_sweep_names now (name # names) d =
     local_sweep_names now names
       (if \<not> has_suffix ''.meta.json'' name then d
        else (let did = trim_suffix ''.meta.json'' name in
              case dget d name of
                Some (Json m) \<Rightarrow> if lm_expired now m then local_remove did d else d
              | _ \<Rightarrow> d))"

definition local_sweep :: "time \<Rightarrow> ldir \<Rightarrow> ldir" where
  "local_sweep now d = local_sweep_names now (map fst d) d"

text \<open>The copy loop of \<^verbatim>\<open>Put\<close>: at most 1 MiB a round, the context checked before each, until \<open>sz\<close>
  bytes are written. The result is the error, if any, and what the temporary file holds. A read
  that ends early, at the end of the reader or at its failure, is a short read.\<close>

definition copy_buf :: nat where
  "copy_buf = 2 ^ 20"

function local_copy :: "ctx \<Rightarrow> nat \<Rightarrow> nat \<Rightarrow> nat \<Rightarrow> bytes \<Rightarrow> st_err option \<times> bytes" where
  "local_copy ctx check written sz data =
     (if written \<ge> sz then (None, [])
      else if ctx check then (Some CtxDone, [])
      else (let want = min copy_buf (sz - written);
                got = take want data
            in if length got < want
               then (Some (ShortRead (int (written + length got)) (int sz)), got)
               else (let (e, more) = local_copy ctx (check + 1) (written + want) sz (drop want data)
                     in (e, got @ more))))"
  by pat_completeness auto
termination
  by (relation "measure (\<lambda>(ctx, check, written, sz, data). sz - written)") (auto simp: copy_buf_def)

declare local_copy.simps [simp del]

definition marshal_meta :: "local_meta \<Rightarrow> local_meta file_data" where
  "marshal_meta m = (if json_time_ok (lm_expiry m) then Json m else Blob [])"

definition local_Put ::
  "temp_picker \<Rightarrow> ctx \<Rightarrow> string \<Rightarrow> reader \<Rightarrow> int \<Rightarrow> time \<Rightarrow> local_store \<Rightarrow> st_err option \<times> local_store" where
  "local_Put pick ctx did r sz expiry s =
     (case storage_ValidateID did of
        Some e \<Rightarrow> (Some e, s)
      | None \<Rightarrow>
          (if ctx 0 then (Some CtxDone, s)
           else if sz < 0 then (Some NegativeSize, s)
           else if sz > ls_max s \<or> local_dirUsed (ls_dir s) + sz > ls_max s then (Some Quota, s)
           else (case pick (ls_dir s) (did @ ''.'') of
                   None \<Rightarrow> (Some TempFailed, s)
                 | Some tmpName \<Rightarrow>
                     (let (e, written) = local_copy ctx 1 0 (nat sz) (rd_data r);
                          d1 = dput tmpName (Blob written) (ls_dir s)
                      in case e of
                           Some err \<Rightarrow> (Some err, s\<lparr>ls_dir := ddel tmpName d1\<rparr>)
                         | None \<Rightarrow>
                             (let d2 = dput (tmpName @ ''.meta.json'')
                                    (marshal_meta \<lparr>lm_size = sz, lm_expiry = expiry\<rparr>) d1;
                                  d3 = drename tmpName (binPath did) d2;
                                  d4 = drename (tmpName @ ''.meta.json'') (metaPath did) d3
                              in (None, s\<lparr>ls_dir := ddel tmpName d4\<rparr>))))))"

definition local_Get ::
  "ctx \<Rightarrow> time \<Rightarrow> string \<Rightarrow> int \<Rightarrow> local_store \<Rightarrow> (st_err + bytes) \<times> local_store" where
  "local_Get ctx now did off s =
     (if ctx 0 then (Inl CtxDone, s)
      else case storage_ValidateID did of
        Some e \<Rightarrow> (Inl e, s)
      | None \<Rightarrow>
          (case local_readMeta (ls_dir s) did of
             Inl e \<Rightarrow> (Inl e, s)
           | Inr m \<Rightarrow>
               (if lm_expired now m then (Inl Expired, s\<lparr>ls_dir := local_remove did (ls_dir s)\<rparr>)
                else (case dget (ls_dir s) (binPath did) of
                        None \<Rightarrow> (Inl NotFound, s)
                      | Some f \<Rightarrow>
                          (if off < 0 \<or> off > lm_size m then (Inl (OffsetRange off (lm_size m)), s)
                           else (Inr (drop (nat off) (blob_of f)), s))))))"

definition local_Delete :: "ctx \<Rightarrow> string \<Rightarrow> local_store \<Rightarrow> st_err option \<times> local_store" where
  "local_Delete ctx did s =
     (if ctx 0 then (Some CtxDone, s)
      else case storage_ValidateID did of
        Some e \<Rightarrow> (Some e, s)
      | None \<Rightarrow> (None, s\<lparr>ls_dir := local_remove did (ls_dir s)\<rparr>))"

definition local_Exists ::
  "ctx \<Rightarrow> time \<Rightarrow> string \<Rightarrow> local_store \<Rightarrow> (st_err + bool) \<times> local_store" where
  "local_Exists ctx now did s =
     (if ctx 0 then (Inl CtxDone, s)
      else case local_readMeta (ls_dir s) did of
        Inl e \<Rightarrow> (if e = NotFound then Inr False else Inl e, s)
      | Inr m \<Rightarrow>
          (if lm_expired now m then (Inr False, s\<lparr>ls_dir := local_remove did (ls_dir s)\<rparr>)
           else if dget (ls_dir s) (binPath did) = None then (Inr False, s)
           else (Inr True, s)))"

definition local_Stat ::
  "ctx \<Rightarrow> time \<Rightarrow> string \<Rightarrow> local_store \<Rightarrow> (st_err + int \<times> time) \<times> local_store" where
  "local_Stat ctx now did s =
     (if ctx 0 then (Inl CtxDone, s)
      else case local_readMeta (ls_dir s) did of
        Inl e \<Rightarrow> (Inl e, s)
      | Inr m \<Rightarrow>
          (if lm_expired now m then (Inl Expired, s\<lparr>ls_dir := local_remove did (ls_dir s)\<rparr>)
           else (Inr (lm_size m, lm_expiry m), s)))"

definition local_Health :: "ctx \<Rightarrow> time \<Rightarrow> local_store \<Rightarrow> st_err option \<times> local_store" where
  "local_Health ctx now s =
     (if ctx 0 then (Some CtxDone, s)
      else (None, s\<lparr>ls_dir := local_sweep now (ls_dir s)\<rparr>))"

definition local_provider :: "temp_picker \<Rightarrow> local_store provider" where
  "local_provider pick =
     \<lparr>pv_put = (\<lambda>ctx now. local_Put pick ctx), pv_get = local_Get,
      pv_delete = (\<lambda>ctx now. local_Delete ctx), pv_exists = local_Exists, pv_stat = local_Stat,
      pv_health = local_Health, pv_backend = local_Backend\<rparr>"

section \<open>File names\<close>

lemma binPath_eq [simp]: "binPath a = binPath b \<longleftrightarrow> a = b"
  by (simp add: binPath_def)

lemma metaPath_eq [simp]: "metaPath a = metaPath b \<longleftrightarrow> a = b"
  by (simp add: metaPath_def)

lemma bin_meta_neq [simp]: "binPath a \<noteq> metaPath b" "metaPath b \<noteq> binPath a"
proof -
  have "rev (binPath a) \<noteq> rev (metaPath b)" by (simp add: binPath_def metaPath_def)
  then show "binPath a \<noteq> metaPath b" "metaPath b \<noteq> binPath a" by metis+
qed

lemma tmp_neq [simp]:
  assumes "has_suffix ''.tmp'' t"
  shows "t \<noteq> binPath a" "t \<noteq> metaPath a" "binPath a \<noteq> t" "metaPath a \<noteq> t"
proof -
  obtain u where u: "t = u @ ''.tmp''" using assms by (auto simp: has_suffix_iff)
  have "rev t \<noteq> rev (binPath a)" "rev t \<noteq> rev (metaPath a)"
    by (simp_all add: u binPath_def metaPath_def)
  then show "t \<noteq> binPath a" "t \<noteq> metaPath a" "binPath a \<noteq> t" "metaPath a \<noteq> t" by metis+
qed

lemma has_suffix_paths [simp]:
  "has_suffix ''.bin'' (binPath a)" "\<not> has_suffix ''.bin'' (metaPath a)"
  "\<not> has_suffix ''.bin'' (t @ ''.meta.json'')"
  by (auto simp: has_suffix_iff binPath_def metaPath_def dest: arg_cong [of _ _ rev])

lemma tmp_not_bin [simp]: "has_suffix ''.tmp'' t \<Longrightarrow> \<not> has_suffix ''.bin'' t"
  by (auto simp: has_suffix_iff dest: arg_cong [of _ _ rev])

lemma meta_of_name: "t @ ''.meta.json'' = metaPath t"
  by (simp add: metaPath_def)

text \<open>\<^verbatim>\<open>os.CreateTemp\<close> with pattern \<open>id.*.tmp\<close> creates a file that was not there, and its name
  ends in \<open>.tmp\<close>.\<close>

definition temp_ok :: "temp_picker \<Rightarrow> bool" where
  "temp_ok pick \<longleftrightarrow> (\<forall>d pre n. pick d pre = Some n \<longrightarrow>
     dget d n = None \<and> has_prefix pre n \<and> has_suffix ''.tmp'' n)"

text \<open>A picker that satisfies it: as many zeros as there are files, and then one.\<close>

fun zeros_picker :: "nat \<Rightarrow> ldir \<Rightarrow> string \<Rightarrow> string option" where
  "zeros_picker 0 d pre = None"
| "zeros_picker (Suc n) d pre =
     (let name = pre @ replicate n CHR ''0'' @ ''.tmp''
      in if dget d name = None then Some name else zeros_picker n d pre)"

definition sample_picker :: temp_picker where
  "sample_picker d pre = zeros_picker (Suc (length d)) d pre"

lemma sample_picker_ok: "temp_ok sample_picker"
proof -
  have "dget d r = None \<and> has_prefix pre r \<and> has_suffix ''.tmp'' r"
    if "zeros_picker n d pre = Some r" for n d pre r
    using that
  proof (induction n)
    case (Suc n)
    then show ?case
      by (auto simp: Let_def has_suffix_iff has_prefix_iff split: if_splits intro: exI [of _ "pre @ replicate n CHR ''0''" for n])
  qed simp
  then show ?thesis unfolding temp_ok_def sample_picker_def by blast
qed

section \<open>What Put does\<close>

lemma local_copy_ok:
  "local_copy ctx c written sz data = (None, out) \<Longrightarrow> written \<le> sz \<Longrightarrow>
    sz - written \<le> length data \<and> out = take (sz - written) data"
proof (induction ctx c written sz data arbitrary: out rule: local_copy.induct)
  case (1 ctx c written sz data)
  show ?case
  proof (cases "sz \<le> written")
    case True
    then show ?thesis using "1.prems" by (simp add: local_copy.simps [of ctx c written])
  next
    case False
    define want where "want = min copy_buf (sz - written)"
    have full: "\<not> ctx c" "\<not> length (take want data) < want"
      using "1.prems" False
      by (auto simp: local_copy.simps [of ctx c written] Let_def want_def split: if_splits)
    obtain more where rec: "local_copy ctx (c + 1) (written + want) sz (drop want data) = (None, more)"
      and out: "out = take want data @ more"
      using "1.prems" False full
      by (auto simp: local_copy.simps [of ctx c written] Let_def want_def split: prod.splits if_splits)
    have le: "written + want \<le> sz" using False by (simp add: want_def)
    have IH: "sz - (written + want) \<le> length (drop want data) \<and>
        more = take (sz - (written + want)) (drop want data)"
      using "1.IH" [OF False full(1) want_def refl full(2) rec le] .
    have w: "want \<le> length data" using full(2) by (simp add: min_def split: if_splits)
    have n: "sz - written = want + (sz - (written + want))" using le by simp
    have "sz - written \<le> length data" using IH w n unfolding length_drop by linarith
    moreover have "out = take (sz - written) data" using IH out by (subst n) (simp add: take_add)
    ultimately show ?thesis ..
  qed
qed

text \<open>The files a successful \<^verbatim>\<open>Put\<close> leaves, and that a failing one leaves everything as it was.\<close>

lemma local_Put_ok:
  assumes "temp_ok pick" "dir_ok (ls_dir s)" "local_Put pick ctx did r sz e s = (None, s')"
    and "\<not> has_suffix ''.tmp'' did"
  shows "valid_id did \<and> 0 \<le> sz \<and> nat sz \<le> length (rd_data r) \<and> sz \<le> ls_max s \<and>
    local_dirUsed (ls_dir s) + sz \<le> ls_max s \<and> ls_max s' = ls_max s \<and> dir_ok (ls_dir s') \<and>
    (\<forall>k. \<not> has_suffix ''.tmp'' k \<longrightarrow> \<not> has_suffix ''.tmp.meta.json'' k \<longrightarrow> dget (ls_dir s') k =
       (if k = binPath did then Some (Blob (take (nat sz) (rd_data r)))
        else if k = metaPath did then Some (marshal_meta \<lparr>lm_size = sz, lm_expiry = e\<rparr>)
        else dget (ls_dir s) k))"
proof -
  obtain tmp written where p: "pick (ls_dir s) (did @ ''.'') = Some tmp"
    and c: "local_copy ctx 1 0 (nat sz) (rd_data r) = (None, written)"
    and pre: "valid_id did" "0 \<le> sz" "sz \<le> ls_max s" "local_dirUsed (ls_dir s) + sz \<le> ls_max s"
    using assms(3) by (auto simp: local_Put_def Let_def split: option.splits if_splits prod.splits)
  have t: "has_suffix ''.tmp'' tmp" using assms(1) p by (auto simp: temp_ok_def)
  have w: "nat sz \<le> length (rd_data r)" "written = take (nat sz) (rd_data r)"
    using local_copy_ok [OF c] by simp_all
  have s': "s' = s\<lparr>ls_dir := ddel tmp (drename (metaPath tmp) (metaPath did) (drename tmp (binPath did)
      (dput (metaPath tmp) (marshal_meta \<lparr>lm_size = sz, lm_expiry = e\<rparr>)
        (dput tmp (Blob written) (ls_dir s)))))\<rparr>"
    using assms(3) p c pre
    by (auto simp: local_Put_def meta_of_name Let_def split: option.splits if_splits)
  have "tmp \<noteq> did" using t assms(4) by auto
  then have get: "dget (ls_dir s') k =
      (if k = binPath did then Some (Blob written)
       else if k = metaPath did then Some (marshal_meta \<lparr>lm_size = sz, lm_expiry = e\<rparr>)
       else if k = metaPath tmp \<or> k = tmp then None else dget (ls_dir s) k)" for k
    using t by (simp add: s' drename_def)
  have "has_suffix ''.tmp.meta.json'' (metaPath tmp)"
    using t by (auto simp: has_suffix_iff metaPath_def)
  then have "dget (ls_dir s') k =
       (if k = binPath did then Some (Blob (take (nat sz) (rd_data r)))
        else if k = metaPath did then Some (marshal_meta \<lparr>lm_size = sz, lm_expiry = e\<rparr>)
        else dget (ls_dir s) k)"
    if "\<not> has_suffix ''.tmp'' k" "\<not> has_suffix ''.tmp.meta.json'' k" for k
    using that t by (auto simp: get w(2))
  moreover have "dir_ok (ls_dir s')" using assms(2) by (simp add: s')
  ultimately show ?thesis using pre w(1) by (simp add: s')
qed

lemma local_Put_err:
  assumes "temp_ok pick" "dir_ok (ls_dir s)" "local_Put pick ctx did r sz e s = (Some x, s')"
  shows "ls_max s' = ls_max s \<and> dir_ok (ls_dir s') \<and> dget (ls_dir s') = dget (ls_dir s)"
proof -
  have "s' = s \<or> (\<exists>tmp w. pick (ls_dir s) (did @ ''.'') = Some tmp \<and>
      s' = s\<lparr>ls_dir := ddel tmp (dput tmp (Blob w) (ls_dir s))\<rparr>)"
    using assms(3) by (auto simp: local_Put_def Let_def split: option.splits if_splits prod.splits)
  then show ?thesis
    using assms(1,2) by (auto simp: temp_ok_def)
qed

section \<open>The provider meets the contract\<close>

text \<open>Identifiers that end in \<open>.tmp\<close> are left out: their sidecar has the name of a temporary file.\<close>

definition local_id :: "string \<Rightarrow> bool" where
  "local_id did \<longleftrightarrow> valid_id did \<and> \<not> has_suffix ''.tmp'' did"

fun pair_ok :: "local_meta file_data option \<Rightarrow> local_meta file_data option \<Rightarrow> bool" where
  "pair_ok None bin = True"
| "pair_ok (Some (Json m)) (Some (Blob b)) = (lm_size m = int (length b))"
| "pair_ok (Some x) bin = False"

fun pair_live :: "time \<Rightarrow> local_meta file_data option \<Rightarrow> local_meta file_data option \<Rightarrow> bytes option" where
  "pair_live t (Some (Json m)) bin = (if lm_expired t m then None else map_option blob_of bin)"
| "pair_live t mf bin = None"

definition meta_consistent :: "ldir \<Rightarrow> string \<Rightarrow> bool" where
  "meta_consistent d did = pair_ok (dget d (metaPath did)) (dget d (binPath did))"

definition local_inv :: "local_store \<Rightarrow> bool" where
  "local_inv s \<longleftrightarrow> dir_ok (ls_dir s) \<and> (\<forall>did. local_id did \<longrightarrow> meta_consistent (ls_dir s) did)"

definition local_live :: "local_store \<Rightarrow> time \<Rightarrow> string \<Rightarrow> bytes option" where
  "local_live s t did = pair_live t (dget (ls_dir s) (metaPath did)) (dget (ls_dir s) (binPath did))"

definition local_keeps :: "time \<Rightarrow> time \<Rightarrow> bool" where
  "local_keeps e t \<longleftrightarrow> e = 0 \<or> t \<le> e"

lemma local_id_paths [simp]:
  assumes "local_id k"
  shows "\<not> has_suffix ''.tmp'' (binPath k)" "\<not> has_suffix ''.tmp.meta.json'' (binPath k)"
    "\<not> has_suffix ''.tmp'' (metaPath k)" "\<not> has_suffix ''.tmp.meta.json'' (metaPath k)"
proof -
  show "\<not> has_suffix ''.tmp'' (binPath k)" "\<not> has_suffix ''.tmp.meta.json'' (binPath k)"
    "\<not> has_suffix ''.tmp'' (metaPath k)"
    by (auto simp: has_suffix_iff binPath_def metaPath_def dest: arg_cong [of _ _ rev])
  show "\<not> has_suffix ''.tmp.meta.json'' (metaPath k)"
  proof
    assume "has_suffix ''.tmp.meta.json'' (metaPath k)"
    then obtain u where "metaPath k = metaPath (u @ ''.tmp'')"
      by (auto simp: has_suffix_iff metaPath_def)
    then show False using assms by (simp add: local_id_def)
  qed
qed

lemma dget_local_remove [simp]:
  "dget (local_remove did d) k = (if k = binPath did \<or> k = metaPath did then None else dget d k)"
  by (simp add: local_remove_def)

lemma local_inv_remove [step_preserves]:
  "local_inv s \<Longrightarrow> local_inv (s\<lparr>ls_dir := local_remove did (ls_dir s)\<rparr>)"
  by (auto simp: local_inv_def meta_consistent_def local_remove_def)

lemma local_live_remove:
  "dget (ls_dir s) (metaPath did) = Some (Json m) \<Longrightarrow> lm_expired now m \<Longrightarrow> now \<le> t \<Longrightarrow>
    local_live (s\<lparr>ls_dir := local_remove did (ls_dir s)\<rparr>) t k = local_live s t k"
  by (auto simp: local_live_def lm_expired_def)

lemma pair_ok_cases:
  assumes "pair_ok mf bin"
  obtains "mf = None" | m b where "mf = Some (Json m)" "bin = Some (Blob b)" "lm_size m = int (length b)"
  using assms by (cases "(mf, bin)" rule: pair_ok.cases) auto

lemma pair_live_antimono: "pair_live t' mf bin = Some b \<Longrightarrow> t \<le> t' \<Longrightarrow> pair_live t mf bin = Some b"
  by (cases "(t, mf, bin)" rule: pair_live.cases) (auto simp: lm_expired_def split: if_splits)

lemma local_readMeta_inv:
  assumes "local_inv s" "local_id did"
  obtains "local_readMeta (ls_dir s) did = Inl NotFound" "dget (ls_dir s) (metaPath did) = None"
    | m b where "local_readMeta (ls_dir s) did = Inr m" "dget (ls_dir s) (metaPath did) = Some (Json m)"
      "dget (ls_dir s) (binPath did) = Some (Blob b)" "lm_size m = int (length b)"
proof -
  have "pair_ok (dget (ls_dir s) (metaPath did)) (dget (ls_dir s) (binPath did))"
    using assms by (simp add: local_inv_def meta_consistent_def)
  then show thesis
    by (cases rule: pair_ok_cases) (use that in \<open>simp_all add: local_readMeta_def\<close>)
qed

lemma local_inv_Put [step_preserves]:
  assumes "temp_ok pick" "local_inv s" "local_id did" "json_time_ok e"
    and "local_Put pick ctx did r sz e s = (x, s')"
  shows "local_inv s'"
proof (cases x)
  case None
  have ok: "dir_ok (ls_dir s)" using assms(2) by (simp add: local_inv_def)
  have nt: "\<not> has_suffix ''.tmp'' did" using assms(3) by (simp add: local_id_def)
  from local_Put_ok [OF assms(1) ok assms(5) [unfolded None] nt]
  have get: "dget (ls_dir s') (metaPath k) = (if k = did
        then Some (marshal_meta \<lparr>lm_size = sz, lm_expiry = e\<rparr>) else dget (ls_dir s) (metaPath k))"
      "dget (ls_dir s') (binPath k) = (if k = did
        then Some (Blob (take (nat sz) (rd_data r))) else dget (ls_dir s) (binPath k))"
    if "local_id k" for k
    using that by simp_all
  have sz: "0 \<le> sz" "nat sz \<le> length (rd_data r)" "dir_ok (ls_dir s')"
    using local_Put_ok [OF assms(1) ok assms(5) [unfolded None] nt] by simp_all
  have "meta_consistent (ls_dir s') k" if "local_id k" for k
    using that assms(2,4) sz
    by (cases "k = did") (simp_all add: meta_consistent_def local_inv_def get marshal_meta_def)
  then show ?thesis using sz by (simp add: local_inv_def)
next
  case (Some y)
  then show ?thesis
    using local_Put_err [OF assms(1) _ assms(5) [unfolded Some]] assms(2)
    by (simp add: local_inv_def meta_consistent_def)
qed

lemma local_stores:
  assumes "temp_ok pick"
  shows "blob_store (local_provider pick) local_inv local_live local_keeps local_id json_time_ok"
proof (unfold_locales, goal_cases)
  case (1 s t' did b t)
  then show ?case unfolding local_live_def by (rule pair_live_antimono)
next
  case (2 s did e now r sz)
  then show ?case
    by (simp add: local_provider_def) (metis local_inv_Put assms prod.collapse)
next
  case (3 s did e now r sz s')
  then have run: "local_Put pick live_ctx did r sz e s = (None, s')" by (simp add: local_provider_def)
  have "dir_ok (ls_dir s)" "\<not> has_suffix ''.tmp'' did"
    using 3 by (simp_all add: local_inv_def local_id_def)
  note put = local_Put_ok [OF assms this(1) run this(2)]
  have "local_live s' t k = (if k = did then (if local_keeps e t then Some (take (nat sz) (rd_data r)) else None)
      else local_live s t k)" if "local_id k" for t k
    using put that 3(3) by (auto simp: local_live_def marshal_meta_def lm_expired_def local_keeps_def)
  then show ?case using put by blast
next
  case (4 s did e now r sz x s' k t)
  then have run: "local_Put pick live_ctx did r sz e s = (Some x, s')" by (simp add: local_provider_def)
  have "dget (ls_dir s') = dget (ls_dir s)"
    using local_Put_err [OF assms _ run] 4(1) by (simp add: local_inv_def)
  then show ?case by (simp add: local_live_def)
next
  case (5 s did now off res s')
  then have run: "local_Get live_ctx now did off s = (res, s')" by (simp add: local_provider_def)
  have "valid_id did" using 5(2) by (simp add: local_id_def)
  from 5(1,2) show ?case
    by (cases rule: local_readMeta_inv)
      (use run 5(1) \<open>valid_id did\<close> in \<open>auto simp: local_Get_def local_inv_remove local_live_remove
        split: if_splits\<close>)
next
  case (6 s did now b off)
  have "valid_id did" using 6(2) by (simp add: local_id_def)
  from 6(1,2) show ?case
    by (cases rule: local_readMeta_inv)
      (use 6(3-5) \<open>valid_id did\<close> in \<open>auto simp: local_provider_def local_Get_def local_live_def split: if_splits\<close>)
next
  case (7 s did now off)
  have "valid_id did" using 7(2) by (simp add: local_id_def)
  from 7(1,2) show ?case
    by (cases rule: local_readMeta_inv)
      (use 7(3) \<open>valid_id did\<close> in \<open>auto simp: local_provider_def local_Get_def local_live_def split: if_splits\<close>)
next
  case (8 s did now res s')
  then show ?case
    by (auto simp: local_provider_def local_Delete_def local_id_def local_inv_remove local_live_def)
next
  case (9 s did now res s')
  then have run: "local_Exists live_ctx now did s = (res, s')" by (simp add: local_provider_def)
  from 9(1,2) show ?case
    by (cases rule: local_readMeta_inv)
      (use run 9(1) in \<open>auto simp: local_Exists_def local_inv_remove local_live_remove
        local_live_def [of _ now did] split: if_splits\<close>)
next
  case (10 s did now res s')
  then have run: "local_Stat live_ctx now did s = (res, s')" by (simp add: local_provider_def)
  from 10(1,2) show ?case
    by (cases rule: local_readMeta_inv)
      (use run 10(1) in \<open>auto simp: local_Stat_def local_inv_remove local_live_remove
        local_live_def [of _ now did] split: if_splits\<close>)
qed

interpretation local_store: blob_store "local_provider sample_picker" local_inv local_live local_keeps
    local_id json_time_ok
  by (rule local_stores [OF sample_picker_ok])

section \<open>Properties\<close>

text \<open>
  C8 The file provider refines an abstract map. Whatever names \<^verbatim>\<open>os.CreateTemp\<close> picks, from an
  empty directory every run of puts, gets, deletes and existence tests on valid identifiers
  not ending in \<open>.tmp\<close>, with expiries that JSON can carry and at non-decreasing clock readings,
  answers as the map from identifiers to payload and expiry does, and the sidecars stay
  consistent with the payload files.
\<close>

theorem local_refines_map:
  assumes "temp_ok pick" "sorted (map fst cs)"
    and "\<forall>(now, c) \<in> set cs. call_ok local_id json_time_ok c"
    and "run_calls (local_provider pick) cs \<lparr>ls_dir = [], ls_max = n\<rparr> = (ans, s')"
  shows "abs_run local_keeps cs ans Map.empty \<noteq> None \<and> local_inv s'"
proof -
  let ?s = "\<lparr>ls_dir = [], ls_max = n\<rparr> :: local_store"
  have inv: "local_inv ?s" by (simp add: local_inv_def meta_consistent_def)
  have "local_live ?s t k = None" for t k by (simp add: local_live_def)
  from plain_store.run_from_empty [OF blob_store.is_plain_store [OF local_stores [OF assms(1)]] inv this assms(2-4)]
  show ?thesis by simp
qed

theorem local_refines_map_witness:
  "abs_run local_keeps [(1, CPut ''a'' [7] 5), (6, CGet ''a'' 0)]
    (fst (run_calls (local_provider sample_picker) [(1, CPut ''a'' [7] 5), (6, CGet ''a'' 0)]
      \<lparr>ls_dir = [], ls_max = 9\<rparr>)) Map.empty \<noteq> None"
proof -
  have ok: "local_id ''a''" "json_time_ok 5"
    by (code_simp, simp add: json_time_ok_def)
  show ?thesis
    using local_refines_map [OF sample_picker_ok, of "[(1, CPut ''a'' [7] 5), (6, CGet ''a'' 0)]", OF _ _
        prod.collapse [symmetric]] ok
    by simp
qed

text \<open>
  A successful \<^verbatim>\<open>Put\<close> keeps the directory within the quota: the sizes of the payload files,
  this one included, sum to at most \<open>maxBytes\<close>.
\<close>

theorem local_Put_quota:
  assumes "temp_ok pick" "dir_ok (ls_dir s)" "local_Put pick ctx did r sz e s = (None, s')"
    and "\<not> has_suffix ''.tmp'' did"
  shows "local_dirUsed (ls_dir s') \<le> ls_max s'"
proof -
  let ?w = "\<lambda>name f. if has_suffix ''.bin'' name then int (length (blob_of (f :: local_meta file_data))) else 0"
  obtain tmp written where p: "pick (ls_dir s) (did @ ''.'') = Some tmp"
    and c: "local_copy ctx 1 0 (nat sz) (rd_data r) = (None, written)"
    and pre: "0 \<le> sz" "local_dirUsed (ls_dir s) + sz \<le> ls_max s"
    using assms(3) by (auto simp: local_Put_def Let_def split: option.splits if_splits prod.splits)
  have t: "has_suffix ''.tmp'' tmp" "dget (ls_dir s) tmp = None"
    using assms(1) p by (auto simp: temp_ok_def)
  have len: "int (length written) = sz" using local_copy_ok [OF c] pre(1) by simp
  have neq: "tmp \<noteq> did" using t(1) assms(4) by auto
  have s': "s' = s\<lparr>ls_dir := ddel tmp (drename (metaPath tmp) (metaPath did) (drename tmp (binPath did)
      (dput (metaPath tmp) (marshal_meta \<lparr>lm_size = sz, lm_expiry = e\<rparr>)
        (dput tmp (Blob written) (ls_dir s)))))\<rparr>"
    using assms(3) p c pre
    by (auto simp: local_Put_def meta_of_name Let_def split: option.splits if_splits)
  have nobin: "dweight ?w d k = 0" if "\<not> has_suffix ''.bin'' k" for d k
    using that by (simp add: dweight_def split: option.splits)
  have "dsum ?w (ls_dir s') = dsum ?w (ls_dir s) - dweight ?w (ls_dir s) (binPath did) + sz"
    using t neq assms(2)
    by (simp add: s' drename_def dsum_dput dsum_ddel nobin len)
      (simp add: dweight_def)
  moreover have "0 \<le> dweight ?w (ls_dir s) (binPath did)" by (simp add: dweight_def split: option.splits)
  ultimately show ?thesis using pre(2) by (simp add: local_dirUsed_def s')
qed

theorem local_Put_quota_witness:
  "\<exists>s'. local_Put sample_picker live_ctx ''a'' (reader_of [1, 2]) 2 0 \<lparr>ls_dir = [], ls_max = 5\<rparr> = (None, s') \<and>
    local_dirUsed (ls_dir s') \<le> 5"
proof -
  have "fst (local_Put sample_picker live_ctx ''a'' (reader_of [1, 2]) 2 0 \<lparr>ls_dir = [], ls_max = 5\<rparr>) = None"
  proof -
    have "valid_id ''a''" by code_simp
    then show ?thesis
      by (simp add: local_Put_def sample_picker_def local_copy.simps copy_buf_def local_dirUsed_def Let_def)
  qed
  then obtain s' where run: "local_Put sample_picker live_ctx ''a'' (reader_of [1, 2]) 2 0
      \<lparr>ls_dir = [], ls_max = 5\<rparr> = (None, s')"
    by (metis prod.collapse)
  have "ls_max s' = 5"
    using run by (auto simp: local_Put_def Let_def split: option.splits if_splits prod.splits)
  moreover have "\<not> has_suffix ''.tmp'' ''a''" by code_simp
  ultimately show ?thesis using run local_Put_quota [OF sample_picker_ok _ run] by simp
qed

lemma local_sweep_names_get:
  "dget (local_sweep_names now names d) k =
    (if \<exists>did m. metaPath did \<in> set names \<and> k \<in> {binPath did, metaPath did} \<and>
        dget d (metaPath did) = Some (Json m) \<and> lm_expired now m
     then None else dget d k)"
proof (induction names arbitrary: d)
  case Nil
  then show ?case by simp
next
  case (Cons name names)
  show ?case
  proof (cases "has_suffix ''.meta.json'' name")
    case False
    then have "metaPath did \<noteq> name" for did by (auto simp: metaPath_def)
    then show ?thesis using False by (simp add: Cons.IH)
  next
    case True
    then obtain did where name: "name = metaPath did" by (auto simp: has_suffix_iff metaPath_def)
    have trim: "trim_suffix ''.meta.json'' name = did" by (simp add: name metaPath_def)
    show ?thesis
    proof (cases "\<exists>m. dget d name = Some (Json m) \<and> lm_expired now m")
      case expired: True
      then have step: "local_sweep_names now (name # names) d = local_sweep_names now names (local_remove did d)"
        using True by (auto simp: trim)
      show ?thesis unfolding step Cons.IH using expired name by auto
    next
      case kept: False
      then have step: "local_sweep_names now (name # names) d = local_sweep_names now names d"
        using True by (auto simp: trim split: option.splits file_data.splits)
      show ?thesis unfolding step Cons.IH using kept name by auto
    qed
  qed
qed

text \<open>
  What a sweep removes: exactly the payload and sidecar of the blobs whose sidecar says
  they have expired, whatever else the directory holds; so a sweep removes nothing that is live, and after a
  sweep no expired sidecar is left.
\<close>

theorem local_sweep_exact:
  "dget (local_sweep now d) k =
    (if \<exists>did m. k \<in> {binPath did, metaPath did} \<and> dget d (metaPath did) = Some (Json m) \<and>
        lm_expired now m
     then None else dget d k)"
proof -
  have mem: "metaPath did \<in> set (map fst d) \<and> k \<in> {binPath did, metaPath did} \<and>
      dget d (metaPath did) = Some (Json m) \<and> lm_expired now m \<longleftrightarrow>
    k \<in> {binPath did, metaPath did} \<and> dget d (metaPath did) = Some (Json m) \<and> lm_expired now m"
    for did m
  proof -
    have "dget d (metaPath did) = Some (Json m) \<Longrightarrow> metaPath did \<in> set (map fst d)"
      by (force dest: map_of_SomeD)
    then show ?thesis by blast
  qed
  show ?thesis unfolding local_sweep_def local_sweep_names_get by (simp only: mem)
qed

end
