(* ===== verification/Transport.thy ===== *)
theory Transport
  imports GoStrings Primitives
begin

text \<open>
  \<^verbatim>\<open>internal/transport/transport.go\<close>: copying with progress, hashing readers, backoff and retry,
  the range headers and the two HTTP client helpers. HTTP itself is not modelled beyond the
  message: a request is its method, path, headers and body, a response its status and body,
  and a client is the function that performs requests on the state of the far end.
\<close>

section \<open>HTTP messages\<close>

text \<open>JSON bodies are objects of the scalar fields the programs read and write, with distinct keys;
  \<open>Parts\<close> is a multipart body, as the contents of its parts.\<close>

datatype jval = JBool bool | JInt int | JStr string

datatype body = Bytes bytes | Obj "(string \<times> jval) list" | Parts "bytes list"

text \<open>\<^verbatim>\<open>json.Unmarshal\<close> into a field: absent is the zero value, another type is an error.\<close>

definition js_str :: "string \<Rightarrow> (string \<times> jval) list \<Rightarrow> string option" where
  "js_str k v = (case map_of v k of None \<Rightarrow> Some '''' | Some (JStr s) \<Rightarrow> Some s | _ \<Rightarrow> None)"

definition js_int :: "string \<Rightarrow> (string \<times> jval) list \<Rightarrow> int option" where
  "js_int k v = (case map_of v k of None \<Rightarrow> Some 0
     | Some (JInt n) \<Rightarrow> if in_int64 n then Some n else None | _ \<Rightarrow> None)"

definition js_bool :: "string \<Rightarrow> (string \<times> jval) list \<Rightarrow> bool option" where
  "js_bool k v = (case map_of v k of None \<Rightarrow> Some False | Some (JBool b) \<Rightarrow> Some b | _ \<Rightarrow> None)"

record request =
  rq_method :: string
  rq_path :: string
  rq_headers :: "(string \<times> string) list"
  rq_body :: body
  rq_fails :: bool \<comment> \<open>whether reading the body fails after these bytes\<close>

record response =
  rs_status :: int
  rs_headers :: "(string \<times> string) list"
  rs_body :: body

type_synonym 's http = "request \<Rightarrow> 's \<Rightarrow> response option \<times> 's"

definition header :: "string \<Rightarrow> request \<Rightarrow> string" where
  "header name r = (case map_of (rq_headers r) name of None \<Rightarrow> '''' | Some v \<Rightarrow> v)"

definition TokenHeader :: string where
  "TokenHeader = ''X-Ghostdrop-Token''"

datatype tr_err =
    BadContentRange
  | BadRange
  | MultipartRange
  | SuffixRange
  | RangeBeyondSize
  | HttpFailed
  | BadStatus int
  | CopyShortWrite
  | CopyWriteFailed
  | CopyReadFailed

section \<open>Copying\<close>

text \<open>
  A source that \<^verbatim>\<open>Read\<close> is called on repeatedly: the chunks it yields without an error, and the
  last one, which comes with the end of the stream or (\<open>True\<close>) with a failure. The
  destination takes a chunk and tells how many bytes it wrote and whether it failed. The
  result is the count, the error, the destination and the calls of the progress function.
\<close>

fun copy_chunk ::
  "(bytes \<Rightarrow> 'd \<Rightarrow> nat \<times> bool \<times> 'd) \<Rightarrow> int \<Rightarrow> bytes \<Rightarrow> 'd \<Rightarrow> int \<times> tr_err option \<times> 'd \<times> int list" where
  "copy_chunk wr written chunk d =
     (if chunk = [] then (written, None, d, [])
      else (let (nw, fails, d') = wr chunk d; written' = written + int nw
            in (written', if fails then Some CopyWriteFailed
                          else if nw \<noteq> length chunk then Some CopyShortWrite else None, d', [written'])))"

fun transport_CopyWithProgress ::
  "(bytes \<Rightarrow> 'd \<Rightarrow> nat \<times> bool \<times> 'd) \<Rightarrow> bytes list \<Rightarrow> bytes \<times> bool \<Rightarrow> int \<Rightarrow> 'd
     \<Rightarrow> int \<times> tr_err option \<times> 'd \<times> int list" where
  "transport_CopyWithProgress wr [] (lastchunk, fails) written d =
     (case copy_chunk wr written lastchunk d of
        (n, Some e, d', calls) \<Rightarrow> (n, Some e, d', calls)
      | (n, None, d', calls) \<Rightarrow> (n, if fails then Some CopyReadFailed else None, d', calls))"
| "transport_CopyWithProgress wr (c # cs) fin written d =
     (case copy_chunk wr written c d of
        (n, Some e, d', calls) \<Rightarrow> (n, Some e, d', calls)
      | (n, None, d', calls) \<Rightarrow>
          (let (n', e, d'', calls') = transport_CopyWithProgress wr cs fin n d'
           in (n', e, d'', calls @ calls')))"

text \<open>The reader that hashes: what passed through it, and its two observers.\<close>

record hashing_reader =
  hr_seen :: bytes

definition transport_NewHashingReader :: hashing_reader where
  "transport_NewHashingReader = \<lparr>hr_seen = []\<rparr>"

definition hr_Read :: "bytes \<Rightarrow> hashing_reader \<Rightarrow> hashing_reader" where
  "hr_Read p hr = (if p = [] then hr else hr\<lparr>hr_seen := hr_seen hr @ p\<rparr>)"

definition hr_Sum :: "prims \<Rightarrow> hashing_reader \<Rightarrow> string" where
  "hr_Sum P hr = hex_encode (p_sha256 P (hr_seen hr))"

definition hr_N :: "hashing_reader \<Rightarrow> int" where
  "hr_N hr = int (length (hr_seen hr))"

text \<open>\<^verbatim>\<open>HashFile\<close> copies the file, read in the given pieces, through a hashing reader to a sink.\<close>

definition sink :: "bytes \<Rightarrow> hashing_reader \<Rightarrow> nat \<times> bool \<times> hashing_reader" where
  "sink p hr = (length p, False, hr_Read p hr)"

definition transport_HashFile ::
  "prims \<Rightarrow> bytes list \<Rightarrow> bytes \<times> bool \<Rightarrow> (tr_err + string \<times> int) \<times> int list" where
  "transport_HashFile P cs fin =
     (let (n, e, hr, calls) = transport_CopyWithProgress sink cs fin 0 transport_NewHashingReader
      in (case e of Some x \<Rightarrow> Inl x | None \<Rightarrow> Inr (hr_Sum P hr, n), calls))"

section \<open>Backoff and retry\<close>

definition ms :: int where
  "ms = 1000000"

text \<open>\<open>rnd n\<close> is the number \<^verbatim>\<open>rand.Int64N(n)\<close> draws. The shift is that of \<^verbatim>\<open>int64\<close>.\<close>

definition backoff_cap :: "int \<Rightarrow> int \<Rightarrow> int" where
  "backoff_cap attempt base =
     (let base = (if base \<le> 0 then 200 * ms else base);
          attempt = (if attempt < 0 then 0 else attempt);
          attempt = (if attempt > 10 then 10 else attempt);
          d = wrap64 (push_bit (nat attempt) base)
      in if d > 30 * second_ns \<or> d \<le> 0 then 30 * second_ns else d)"

definition transport_Backoff :: "(int \<Rightarrow> int) \<Rightarrow> int \<Rightarrow> int \<Rightarrow> int" where
  "transport_Backoff rnd attempt base =
     (let half = backoff_cap attempt base div 2 in half + rnd (half + 1))"

datatype 'e retry_result = RetryOk | RetryErr 'e | RetryCancelled

text \<open>The loop of \<^verbatim>\<open>Retry\<close>: \<open>fn\<close> runs on a state, the context is asked before each run and while
  waiting after a failure. The last component lists the delays waited in full.\<close>

function retry_loop ::
  "ctx \<Rightarrow> (int \<Rightarrow> int) \<Rightarrow> int \<Rightarrow> ('s \<Rightarrow> 'e option \<times> 's) \<Rightarrow> nat \<Rightarrow> nat \<Rightarrow> 's
     \<Rightarrow> 'e retry_result \<times> 's \<times> int list" where
  "retry_loop ctx rnd base fn attempts i s =
     (if ctx (2 * i) then (RetryCancelled, s, [])
      else case fn s of
             (None, s') \<Rightarrow> (RetryOk, s', [])
           | (Some e, s') \<Rightarrow>
               (if i + 1 \<ge> attempts then (RetryErr e, s', [])
                else if ctx (2 * i + 1) then (RetryCancelled, s', [])
                else (let (res, s'', ds) = retry_loop ctx rnd base fn attempts (i + 1) s'
                      in (res, s'', transport_Backoff rnd (int i) base # ds))))"
  by pat_completeness auto
termination
  by (relation "measure (\<lambda>(ctx, rnd, base, fn, attempts, i, s). attempts - i)") auto

declare retry_loop.simps [simp del]

definition transport_Retry ::
  "ctx \<Rightarrow> (int \<Rightarrow> int) \<Rightarrow> int \<Rightarrow> int \<Rightarrow> ('s \<Rightarrow> 'e option \<times> 's) \<Rightarrow> 's
     \<Rightarrow> 'e retry_result \<times> 's \<times> int list" where
  "transport_Retry ctx rnd attempts base fn s =
     (let attempts = (if attempts < 1 then 1 else attempts)
      in retry_loop ctx rnd base fn (nat attempts) 0 s)"

section \<open>Range headers\<close>

definition transport_FormatContentRange :: "int \<Rightarrow> int \<Rightarrow> int \<Rightarrow> string" where
  "transport_FormatContentRange off endb fsize =
     ''bytes '' @ format_int off @ ''-'' @ format_int endb @ ''/'' @ format_int fsize"

record content_range =
  cr_Start :: int
  cr_End :: int
  cr_Total :: int

definition transport_ParseContentRange :: "string \<Rightarrow> tr_err + content_range" where
  "transport_ParseContentRange v0 =
     (let v = trim_space v0 in
      if \<not> has_prefix ''bytes '' v then Inl BadContentRange
      else (let rest = trim_prefix ''bytes '' v in
        case index_byte rest CHR ''/'' of
          None \<Rightarrow> Inl BadContentRange
        | Some slash \<Rightarrow>
            (case index_byte (take slash rest) CHR ''-'' of
               None \<Rightarrow> Inl BadContentRange
             | Some dash \<Rightarrow>
                 (case (parse_int (take dash rest), parse_int (drop (dash + 1) (take slash rest)),
                        parse_int (drop (slash + 1) rest)) of
                    (Some start, Some endb, Some fsize) \<Rightarrow>
                      (if start < 0 \<or> endb < start \<or> fsize \<le> 0 \<or> endb \<ge> fsize then Inl BadContentRange
                       else Inr \<lparr>cr_Start = start, cr_End = endb, cr_Total = fsize\<rparr>)
                  | _ \<Rightarrow> Inl BadContentRange))))"

definition transport_ParseRange :: "string \<Rightarrow> int \<Rightarrow> tr_err + content_range" where
  "transport_ParseRange v0 sz =
     (let v = trim_space v0 in
      if \<not> has_prefix ''bytes='' v then Inl BadRange
      else (let rest = trim_prefix ''bytes='' v in
        if contains '','' rest then Inl MultipartRange
        else case index_byte rest CHR ''-'' of
               None \<Rightarrow> Inl BadRange
             | Some dash \<Rightarrow>
                 (if dash = 0 then Inl SuffixRange
                  else case parse_int (take dash rest) of
                         None \<Rightarrow> Inl BadRange
                       | Some start \<Rightarrow>
                           (if start < 0 then Inl BadRange
                            else (let fin = (if length rest > dash + 1
                                    then (case parse_int (drop (dash + 1) rest) of
                                            None \<Rightarrow> None
                                          | Some e \<Rightarrow> if e < start then None
                                                      else Some (if e < sz - 1 then e else sz - 1))
                                    else Some (sz - 1))
                                  in case fin of
                                       None \<Rightarrow> Inl BadRange
                                     | Some endb \<Rightarrow>
                                         if start \<ge> sz then Inl RangeBeyondSize
                                         else Inr \<lparr>cr_Start = start, cr_End = endb, cr_Total = sz\<rparr>)))))"

section \<open>Client helpers\<close>

definition fetch_request :: "string \<Rightarrow> int \<Rightarrow> string \<Rightarrow> request" where
  "fetch_request path off token =
     \<lparr>rq_method = ''GET'', rq_path = path,
      rq_headers = (if off > 0 then [(''Range'', ''bytes='' @ format_int off @ ''-'')] else []) @
        (if token \<noteq> '''' then [(TokenHeader, token)] else []),
      rq_body = Bytes [], rq_fails = False\<rparr>"

definition transport_FetchRange ::
  "'s http \<Rightarrow> string \<Rightarrow> int \<Rightarrow> string \<Rightarrow> 's \<Rightarrow> (tr_err + response) \<times> 's" where
  "transport_FetchRange client path off token s =
     (case client (fetch_request path off token) s of
        (None, s') \<Rightarrow> (Inl HttpFailed, s')
      | (Some resp, s') \<Rightarrow>
          (if rs_status resp \<noteq> 200 \<and> rs_status resp \<noteq> 206 then (Inl (BadStatus (rs_status resp)), s')
           else (Inr resp, s')))"

definition put_request :: "string \<Rightarrow> int \<Rightarrow> int \<Rightarrow> bytes \<Rightarrow> string \<Rightarrow> request" where
  "put_request path off fsize buf token =
     (let endb = off + int (length buf) - 1 in
      \<lparr>rq_method = ''PUT'', rq_path = path,
       rq_headers = [(''Content-Type'', ''application/octet-stream''),
           (''Content-Range'', transport_FormatContentRange off endb fsize)] @
         (if token \<noteq> '''' then [(TokenHeader, token)] else []),
       rq_body = Bytes buf, rq_fails = False\<rparr>)"

definition transport_PutChunk ::
  "'s http \<Rightarrow> string \<Rightarrow> int \<Rightarrow> int \<Rightarrow> bytes \<Rightarrow> string \<Rightarrow> 's \<Rightarrow> tr_err option \<times> 's" where
  "transport_PutChunk client path off fsize buf token s =
     (case client (put_request path off fsize buf token) s of
        (None, s') \<Rightarrow> (Some HttpFailed, s')
      | (Some resp, s') \<Rightarrow>
          (if rs_status resp \<noteq> 200 \<and> rs_status resp \<noteq> 201 \<and> rs_status resp \<noteq> 204
           then (Some (BadStatus (rs_status resp)), s') else (None, s')))"

section \<open>Facts about copying, delays and retries\<close>

text \<open>A destination that takes everything.\<close>

definition ok_writer :: "(bytes \<Rightarrow> 'd \<Rightarrow> 'd) \<Rightarrow> bytes \<Rightarrow> 'd \<Rightarrow> nat \<times> bool \<times> 'd" where
  "ok_writer f p d = (length p, False, f p d)"

lemma sink_ok_writer: "sink = ok_writer hr_Read"
  by (simp add: fun_eq_iff sink_def ok_writer_def)

lemma copy_chunk_ok_writer [simp]:
  "copy_chunk (ok_writer f) n c d =
    (n + int (length c), None, if c = [] then d else f c d, if c = [] then [] else [n + int (length c)])"
  by (simp add: ok_writer_def Let_def)

declare copy_chunk.simps [simp del]

lemma copy_all_written:
  "\<exists>calls. transport_CopyWithProgress (ok_writer f) cs (l, False) n d =
      (n + int (length (concat cs @ l)), None, fold (\<lambda>p d. if p = [] then d else f p d) (cs @ [l]) d, calls) \<and>
    sorted calls \<and> (\<forall>c \<in> set calls. n \<le> c \<and> c \<le> n + int (length (concat cs @ l)))"
proof (induction cs arbitrary: n d)
  case Nil
  then show ?case by simp
next
  case (Cons c cs)
  let ?d = "if c = [] then d else f c d"
  obtain calls where IH: "transport_CopyWithProgress (ok_writer f) cs (l, False) (n + int (length c)) ?d =
      (n + int (length c) + int (length (concat cs @ l)), None,
       fold (\<lambda>p d. if p = [] then d else f p d) (cs @ [l]) ?d, calls)"
    "sorted calls" "\<forall>k \<in> set calls. n + int (length c) \<le> k \<and>
      k \<le> n + int (length c) + int (length (concat cs @ l))"
    using Cons.IH [of "n + int (length c)" ?d] by blast
  show ?case
  proof (cases "c = []")
    case True
    then show ?thesis using IH by (intro exI [of _ calls]) simp
  next
    case False
    then show ?thesis
      using IH by (intro exI [of _ "(n + int (length c)) # calls"]) auto
  qed
qed

lemma fold_hr_Read:
  "fold (\<lambda>p d. if p = [] then d else hr_Read p d) cs hr = hr\<lparr>hr_seen := hr_seen hr @ concat cs\<rparr>"
  by (induction cs arbitrary: hr) (auto simp: hr_Read_def)

text \<open>Hashing a file that is read without an error gives the hash and the size of its content,
  however it is cut into reads.\<close>

lemma transport_HashFile_content:
  "fst (transport_HashFile P cs (l, False)) =
    Inr (hex_encode (p_sha256 P (concat cs @ l)), int (length (concat cs @ l)))"
proof -
  obtain calls where "transport_CopyWithProgress sink cs (l, False) 0 transport_NewHashingReader =
      (0 + int (length (concat cs @ l)), None,
       fold (\<lambda>p d. if p = [] then d else hr_Read p d) (cs @ [l]) transport_NewHashingReader, calls)"
    using copy_all_written [of hr_Read cs l 0 transport_NewHashingReader]
    unfolding sink_ok_writer by blast
  then show ?thesis
    unfolding fold_hr_Read by (simp add: transport_HashFile_def transport_NewHashingReader_def hr_Sum_def)
qed

lemma backoff_cap_bounds: "0 < backoff_cap attempt base \<and> backoff_cap attempt base \<le> 30 * second_ns"
  by (simp add: backoff_cap_def Let_def)

text \<open>The delay lies between half the capped exponential and the whole of it.\<close>

lemma transport_Backoff_range:
  assumes "\<And>n. 0 < n \<Longrightarrow> 0 \<le> rnd n \<and> rnd n < n"
  shows "backoff_cap attempt base div 2 \<le> transport_Backoff rnd attempt base"
    "transport_Backoff rnd attempt base \<le> backoff_cap attempt base"
proof -
  let ?c = "backoff_cap attempt base"
  have "0 < ?c div 2 + 1" using backoff_cap_bounds [of attempt base] by simp
  then have "0 \<le> rnd (?c div 2 + 1)" "rnd (?c div 2 + 1) < ?c div 2 + 1" using assms by blast+
  then show "?c div 2 \<le> transport_Backoff rnd attempt base" "transport_Backoff rnd attempt base \<le> ?c"
    by (simp_all add: transport_Backoff_def Let_def)
qed

lemma backoff_cap_exponential:
  assumes "0 < base" "0 \<le> attempt" "attempt \<le> 10" "base * 2 ^ nat attempt \<le> 30 * second_ns"
  shows "backoff_cap attempt base = base * 2 ^ nat attempt"
proof -
  have p: "\<not> base * 2 ^ nat attempt \<le> 0" using assms(1) by (simp add: not_le)
  then have "in_int64 (base * 2 ^ nat attempt)" using assms(4) by (simp add: in_int64_def)
  with p show ?thesis
    using assms by (simp add: backoff_cap_def Let_def push_bit_eq_mult)
qed

text \<open>The runs of a retried function: states reached by failing runs.\<close>

fun failing_runs :: "('s \<Rightarrow> 'e option \<times> 's) \<Rightarrow> nat \<Rightarrow> 's \<Rightarrow> ('e option \<times> 's) option" where
  "failing_runs fn 0 s = Some (None, s)"
| "failing_runs fn (Suc n) s =
     (case fn s of
        (None, s') \<Rightarrow> None
      | (Some e, s') \<Rightarrow> if n = 0 then Some (Some e, s') else failing_runs fn n s')"

lemma retry_loop_ok:
  "retry_loop ctx rnd base fn n i s = (RetryOk, s', ds) \<Longrightarrow> i < n \<Longrightarrow>
    \<exists>k e s1. k + i < n \<and> failing_runs fn k s = Some (e, s1) \<and> fn s1 = (None, s') \<and> length ds = k"
proof (induction ctx rnd base fn n i s arbitrary: s' ds rule: retry_loop.induct)
  case (1 ctx rnd base fn n i s)
  obtain r s1 where f: "fn s = (r, s1)" by fastforce
  show ?case
  proof (cases r)
    case None
    then show ?thesis
      using "1.prems" f by (intro exI [of _ 0]) (auto simp: retry_loop.simps [of ctx] split: if_splits)
  next
    case (Some e)
    with "1.prems" f have c: "\<not> ctx (2 * i)" "\<not> n \<le> i + 1" "\<not> ctx (2 * i + 1)"
      by (auto simp: retry_loop.simps [of ctx] split: if_splits)
    obtain ds' where r: "retry_loop ctx rnd base fn n (i + 1) s1 = (RetryOk, s', ds')"
      and ds: "ds = transport_Backoff rnd (int i) base # ds'"
      using "1.prems" f Some c by (auto simp: retry_loop.simps [of ctx] split: prod.splits)
    have "i + 1 < n" using c by simp
    from "1.IH" [OF c(1) f [symmetric, folded Some] Some c(2,3) r this]
    obtain k e' s2 where k: "k + (i + 1) < n" "failing_runs fn k s1 = Some (e', s2)" "fn s2 = (None, s')"
      "length ds' = k"
      by blast
    show ?thesis
    proof (cases k)
      case 0
      then have "failing_runs fn 1 s = Some (Some e, s2)" using k f Some by simp
      then show ?thesis using k 0 ds c by (intro exI [of _ 1]) auto
    next
      case (Suc m)
      then show ?thesis using k f Some ds by (intro exI [of _ "Suc k"]) auto
    qed
  qed
qed

section \<open>Properties\<close>

lemma ParseContentRange_text:
  assumes "0 \<le> off" "off \<le> e" "e < n"
  shows "transport_ParseContentRange (transport_FormatContentRange off e n) =
    (case (parse_int (format_nat (nat off)), parse_int (format_nat (nat e)), parse_int (format_nat (nat n))) of
       (Some start, Some endb, Some fsize) \<Rightarrow>
         (if start < 0 \<or> endb < start \<or> fsize \<le> 0 \<or> endb \<ge> fsize then Inl BadContentRange
          else Inr \<lparr>cr_Start = start, cr_End = endb, cr_Total = fsize\<rparr>)
     | _ \<Rightarrow> Inl BadContentRange)"
proof -
  let ?o = "format_nat (nat off)" and ?e = "format_nat (nat e)" and ?n = "format_nat (nat n)"
  let ?rest = "?o @ CHR ''-'' # ?e @ CHR ''/'' # ?n"
  have f: "transport_FormatContentRange off e n = ''bytes '' @ ?rest"
    using assms by (simp add: transport_FormatContentRange_def format_int_nonneg)
  have nd: "CHR ''-'' \<notin> set (format_nat k)" "CHR ''/'' \<notin> set (format_nat k)" for k
    using format_nat_digits [of _ k] by (force simp: is_digit_def)+
  have t: "trim_space (''bytes '' @ ?rest) = ''bytes '' @ ?rest"
    using is_digit_graph [OF format_nat_last [of "nat n"]]
    by (intro trim_space_id) (auto simp: is_graph_def)
  have slash: "index_byte ?rest CHR ''/'' = Some (length (?o @ CHR ''-'' # ?e))"
    using nd index_byte_append [of "CHR ''/''" "?o @ CHR ''-'' # ?e" ?n] by simp
  have dash: "index_byte (?o @ CHR ''-'' # ?e) CHR ''-'' = Some (length ?o)"
    using nd index_byte_append [of "CHR ''-''" ?o ?e] by simp
  define R where "R = ?rest"
  have "take (length ?o) R = ?o" "drop (length ?o + 1) (?o @ CHR ''-'' # ?e) = ?e"
    "take (length (?o @ CHR ''-'' # ?e)) R = ?o @ CHR ''-'' # ?e"
    "drop (length (?o @ CHR ''-'' # ?e) + 1) R = ?n"
    by (simp_all add: R_def)
  note parts = this slash [folded R_def] dash
  show ?thesis
    unfolding transport_ParseContentRange_def f t [unfolded R_def [symmetric]] Let_def
    unfolding R_def [symmetric] t [folded R_def] trim_prefix_append
    by (simp only: has_prefix_append not_True_eq_False if_False option.case parts)
qed

lemma ParseContentRange_format:
  assumes "0 \<le> off" "off \<le> e" "e < n" "n < 2 ^ 63"
  shows "transport_ParseContentRange (transport_FormatContentRange off e n) =
    Inr \<lparr>cr_Start = off, cr_End = e, cr_Total = n\<rparr>"
proof -
  have "parse_int (format_nat (nat k)) = Some k" if "0 \<le> k" "k \<le> n" for k
    using parse_format_nat [of "nat k"] that assms(4) by simp
  from this [of off] this [of e] this [of n] show ?thesis
    unfolding ParseContentRange_text [OF assms(1-3)] using assms by simp
qed

text \<open>Whatever the size, the total that is read is the one that was printed.\<close>

lemma ParseContentRange_total:
  assumes "0 \<le> off" "off \<le> e" "e < n" "transport_ParseContentRange (transport_FormatContentRange off e n) = Inr r"
  shows "cr_Total r = n"
proof -
  have "k = n" if "parse_int (format_nat (nat n)) = Some k" for k
    using that assms by (simp add: parse_int_format_nat split: if_splits)
  then show ?thesis
    using assms(4) unfolding ParseContentRange_text [OF assms(1-3)] by (auto split: option.splits if_splits)
qed

text \<open>
  C34 Content-Range headers: what \<^verbatim>\<open>FormatContentRange\<close> prints for a range within a total is read
  back by \<^verbatim>\<open>ParseContentRange\<close> as that range, and whatever it accepts is a non-empty range
  within its total.
\<close>

theorem content_range_roundtrip:
  "(0 \<le> off \<and> off \<le> e \<and> e < n \<and> n < 2 ^ 63 \<longrightarrow>
      transport_ParseContentRange (transport_FormatContentRange off e n) =
        Inr \<lparr>cr_Start = off, cr_End = e, cr_Total = n\<rparr>) \<and>
    (transport_ParseContentRange v = Inr cr \<longrightarrow>
      0 \<le> cr_Start cr \<and> cr_Start cr \<le> cr_End cr \<and> cr_End cr < cr_Total cr \<and> cr_Total cr < 2 ^ 63)"
proof (intro conjI impI)
  assume "transport_ParseContentRange v = Inr cr"
  then obtain s a b c where "s = cr" "parse_int a = Some (cr_Total cr)"
    "0 \<le> cr_Start cr" "cr_Start cr \<le> cr_End cr" "cr_End cr < cr_Total cr"
    by (fastforce simp: transport_ParseContentRange_def Let_def split: if_splits option.splits)
  moreover from this have "cr_Total cr < 2 ^ 63"
    using parse_int_range by (auto simp: in_int64_def)
  ultimately show "0 \<le> cr_Start cr" "cr_Start cr \<le> cr_End cr" "cr_End cr < cr_Total cr" "cr_Total cr < 2 ^ 63"
    by simp_all
qed (use ParseContentRange_format in blast)

theorem content_range_roundtrip_witness:
  "transport_ParseContentRange (transport_FormatContentRange 5 9 12) =
    Inr \<lparr>cr_Start = 5, cr_End = 9, cr_Total = 12\<rparr>"
  using content_range_roundtrip [of 5 9 12] by simp

lemma ParseRange_bounds:
  "transport_ParseRange v sz = Inr cr \<Longrightarrow>
    0 \<le> cr_Start cr \<and> cr_Start cr \<le> cr_End cr \<and> cr_End cr < sz \<and> cr_Total cr = sz"
  by (auto simp: transport_ParseRange_def Let_def split: if_splits option.splits)



end
