(* ===== verification/GoTime.thy ===== *)
theory GoTime
  imports GoStrings "HOL-Library.Monad_Syntax"
begin

text \<open>
  Calendar time as the program uses Go's \<^verbatim>\<open>time\<close> package: the proleptic Gregorian calendar,
  \<^verbatim>\<open>Format(time.RFC3339)\<close> of a UTC time and \<^verbatim>\<open>time.Parse(time.RFC3339, s)\<close>. Parsing follows the
  package's general layout parser, which is more lenient than the RFC: an hour of one digit,
  a fraction after a period or a comma, offsets of up to 24 hours and 60 minutes. The main fact
  is that parsing what was formatted gives the time back, cut to whole seconds.
\<close>

section \<open>The calendar\<close>

definition leap_year :: "int \<Rightarrow> bool" where
  "leap_year y \<longleftrightarrow> 4 dvd y \<and> (\<not> 100 dvd y \<or> 400 dvd y)"

definition days_in :: "int \<Rightarrow> nat \<Rightarrow> nat" where
  "days_in y m = (if m = 2 then (if leap_year y then 29 else 28)
     else if m \<in> {4, 6, 9, 11} then 30 else 31)"

text \<open>Days from the start of year 1 to the start of year \<open>y\<close>, and of month \<open>m\<close> within a year.\<close>

definition days_to_year :: "int \<Rightarrow> int" where
  "days_to_year y = 365 * (y - 1) + (y - 1) div 4 - (y - 1) div 100 + (y - 1) div 400"

definition days_to_month :: "int \<Rightarrow> nat \<Rightarrow> nat" where
  "days_to_month y m = sum_list (map (days_in y) [1..<m])"

definition time_of :: "int \<Rightarrow> nat \<Rightarrow> nat \<Rightarrow> nat \<Rightarrow> nat \<Rightarrow> nat \<Rightarrow> nat \<Rightarrow> time" where
  "time_of y mo d h mi s ns =
     ((days_to_year y + int (days_to_month y mo) + int d - 1) * 86400 + int h * 3600 + int mi * 60 + int s)
       * second_ns + int ns"

definition year_of_day :: "int \<Rightarrow> int" where
  "year_of_day d =
     (let y = (400 * d) div 146097 + 1
      in if d < days_to_year y then y - 1 else if days_to_year (y + 1) \<le> d then y + 1 else y)"

fun month_day :: "int \<Rightarrow> nat list \<Rightarrow> nat \<Rightarrow> nat \<times> nat" where
  "month_day y [] d = (12, d + 1)"
| "month_day y (m # ms) d = (if d < days_in y m then (m, d + 1) else month_day y ms (d - days_in y m))"

lemma div_pred: "0 < k \<Longrightarrow> (y :: int) div k - (y - 1) div k = (if k dvd y then 1 else 0)"
proof -
  assume k: "0 < k"
  let ?q = "y div k" and ?r = "y mod k"
  have y: "y = k * ?q + ?r" by simp
  show ?thesis
  proof (cases "k dvd y")
    case True
    then have "(y - 1) div k = ?q - 1"
      using k by (intro div_int_pos_iff [THEN iffD1] int_div_pos_eq [of _ _ _ "k - 1"])
        (auto simp: algebra_simps dvd_eq_mod_eq_0)
    then show ?thesis using True by simp
  next
    case False
    then have "0 < ?r" using k by (simp add: dvd_eq_mod_eq_0 order_less_le)
    then have "(y - 1) div k = ?q"
      using k y pos_mod_bound [OF k, of y] by (intro int_div_pos_eq [of _ _ _ "?r - 1"]) linarith+
    then show ?thesis using False by simp
  qed
qed

lemma days_to_year_step:
  "days_to_year (y + 1) = days_to_year y + (if leap_year y then 366 else 365)"
proof -
  have *: "100 dvd y \<longrightarrow> 4 dvd y" "400 dvd y \<longrightarrow> 100 dvd y"
    by (auto elim: dvd_trans [rotated])
  have "days_to_year (y + 1) - days_to_year y =
      365 + (y div 4 - (y - 1) div 4) - (y div 100 - (y - 1) div 100) + (y div 400 - (y - 1) div 400)"
    by (simp add: days_to_year_def)
  also have "\<dots> = 365 + (if 4 dvd y then 1 else 0) - (if 100 dvd y then 1 else 0) + (if 400 dvd y then 1 else 0)"
    by (simp only: div_pred [of 4] div_pred [of 100] div_pred [of 400] zero_less_numeral)
  also have "\<dots> = (if leap_year y then 366 else 365)"
    using * unfolding leap_year_def by (cases "400 dvd y"; cases "100 dvd y"; cases "4 dvd y") simp_all
  finally show ?thesis by simp
qed

lemma days_to_year_bounds:
  "146097 * (y - 1) - 699 \<le> 400 * days_to_year y" "400 * days_to_year y \<le> 146097 * (y - 1) + 396"
proof -
  let ?z = "y - 1"
  have F: "4 * (?z div 4) = ?z - ?z mod 4" "100 * (?z div 100) = ?z - ?z mod 100"
    "400 * (?z div 400) = ?z - ?z mod 400"
    by (simp_all add: minus_mod_eq_mult_div)
  have G: "0 \<le> ?z mod 4" "?z mod 4 \<le> 3" "0 \<le> ?z mod 100" "?z mod 100 \<le> 99"
    "0 \<le> ?z mod 400" "?z mod 400 \<le> 399"
    using pos_mod_bound [of 4 ?z] pos_mod_bound [of 100 ?z] pos_mod_bound [of 400 ?z] by simp_all
  have arith: "146097 * z - 699 \<le> 400 * (365 * z + q - r + u) \<and> 400 * (365 * z + q - r + u) \<le> 146097 * z + 396"
    if "4 * q = z - a" "100 * r = z - b" "400 * u = z - c" "0 \<le> a" "a \<le> 3" "0 \<le> b" "b \<le> 99"
      "0 \<le> c" "c \<le> 399" for z q r u a b c :: int
  proof -
    have "400 * q = 100 * z - 100 * a" "400 * r = 4 * z - 4 * b" using that(1,2) by simp_all
    then have "400 * (365 * z + q - r + u) = 146097 * z - 100 * a + 4 * b - c"
      using that(3) by (simp add: distrib_left right_diff_distrib)
    then show ?thesis using that by simp
  qed
  show "146097 * (y - 1) - 699 \<le> 400 * days_to_year y" "400 * days_to_year y \<le> 146097 * (y - 1) + 396"
    using arith [OF F G] unfolding days_to_year_def by blast+
qed

lemma year_of_day_bounds:
  "days_to_year (year_of_day d) \<le> d" "d < days_to_year (year_of_day d + 1)"
proof -
  define y where "y = (400 * d) div 146097 + 1"
  have "146097 * (y - 1) \<le> 400 * d" "400 * d < 146097 * (y - 1) + 146097"
    using minus_mod_eq_mult_div [of "400 * d" 146097] pos_mod_bound [of 146097 "400 * d"]
      pos_mod_sign [of 146097 "400 * d"] by (simp_all add: y_def)
  moreover note days_to_year_bounds [of "y - 1"] days_to_year_bounds [of "y + 1 + 1"]
  ultimately have "days_to_year (y - 1) \<le> d" "d < days_to_year (y + 1 + 1)" by simp_all
  then show "days_to_year (year_of_day d) \<le> d" "d < days_to_year (year_of_day d + 1)"
    by (auto simp: year_of_day_def Let_def simp flip: y_def)
qed

lemma month_day_spec:
  assumes "month_day y [k..<13] d = (m, day)" "1 \<le> k" "k \<le> 12"
    and "d < sum_list (map (days_in y) [k..<13])"
  shows "k \<le> m \<and> m \<le> 12 \<and> 1 \<le> day \<and> day \<le> days_in y m \<and>
    d = sum_list (map (days_in y) [k..<m]) + (day - 1)"
  using assms
proof (induction "12 - k" arbitrary: k d)
  case 0
  then have "k = 12" by simp
  moreover have "[12..<13 :: nat] = [12]" by simp
  ultimately show ?case using 0 by (auto split: if_splits)
next
  case (Suc n)
  then have k: "[k..<13] = k # [Suc k..<13]" by (simp add: upt_conv_Cons)
  show ?case
  proof (cases "d < days_in y k")
    case True
    then show ?thesis using Suc.prems by (auto simp: k)
  next
    case False
    have "n = 12 - Suc k" "1 \<le> Suc k" "Suc k \<le> 12" using Suc.hyps(2) by simp_all
    moreover have "d - days_in y k < sum_list (map (days_in y) [Suc k..<13])"
      using Suc.prems(4) False by (simp add: k)
    moreover have "month_day y [Suc k..<13] (d - days_in y k) = (m, day)"
      using Suc.prems(1) False by (simp add: k)
    ultimately have IH: "Suc k \<le> m \<and> m \<le> 12 \<and> 1 \<le> day \<and> day \<le> days_in y m \<and>
        d - days_in y k = sum_list (map (days_in y) [Suc k..<m]) + (day - 1)"
      using Suc.hyps(1) by blast
    then have "[k..<m] = k # [Suc k..<m]" by (simp add: upt_conv_Cons)
    then have "sum_list (map (days_in y) [k..<m]) = days_in y k + sum_list (map (days_in y) [Suc k..<m])"
      by simp
    then show ?thesis using IH False by linarith
  qed
qed

lemma year_days: "sum_list (map (days_in y) [1..<13]) = (if leap_year y then 366 else 365)"
proof -
  have "[1..<13] = [1, 2, 3, 4, 5, 6, 7, 8, 9, 10, 11, 12 :: nat]" by (simp add: upt_rec)
  then show ?thesis by (simp add: days_in_def)
qed

section \<open>Formatting\<close>

definition pad2 :: "nat \<Rightarrow> string" where
  "pad2 n = [digit_char (n div 10), digit_char (n mod 10)]"

definition pad4 :: "nat \<Rightarrow> string" where
  "pad4 n = (if n < 10000 then pad2 (n div 100) @ pad2 (n mod 100) else format_nat n)"

text \<open>The date and the time of day of a UTC time.\<close>

definition civil :: "time \<Rightarrow> int \<times> nat \<times> nat \<times> nat \<times> nat \<times> nat" where
  "civil t =
     (let secs = t div second_ns; day = secs div 86400; sod = nat (secs mod 86400);
          y = year_of_day day;
          (m, d) = month_day y [1..<13] (nat (day - days_to_year y))
      in (y, m, d, sod div 3600, sod mod 3600 div 60, sod mod 60))"

definition format_rfc3339 :: "time \<Rightarrow> string" where
  "format_rfc3339 t =
     (let (y, m, d, h, mi, s) = civil t
      in (if y < 0 then CHR ''-'' # pad4 (nat (- y)) else pad4 (nat y)) @ ''-'' @ pad2 m @ ''-'' @ pad2 d
         @ ''T'' @ pad2 h @ '':'' @ pad2 mi @ '':'' @ pad2 s @ ''Z'')"

lemma civil_spec:
  assumes "civil t = (y, m, d, h, mi, s)"
  shows "1 \<le> m \<and> m \<le> 12 \<and> 1 \<le> d \<and> d \<le> days_in y m \<and> h < 24 \<and> mi < 60 \<and> s < 60 \<and>
    time_of y m d h mi s 0 = (t div second_ns) * second_ns"
proof -
  define secs where "secs = t div second_ns"
  define day where "day = secs div 86400"
  define sod where "sod = nat (secs mod 86400)"
  have sod: "int sod = secs mod 86400" "sod < 86400" by (simp_all add: sod_def nat_less_iff)
  have y: "y = year_of_day day" and md: "month_day y [1..<13] (nat (day - days_to_year y)) = (m, d)"
    and hms: "h = sod div 3600" "mi = sod mod 3600 div 60" "s = sod mod 60"
    using assms by (auto simp: civil_def Let_def secs_def day_def sod_def split: prod.splits)
  have lo: "days_to_year y \<le> day" and hi: "day < days_to_year (y + 1)"
    using year_of_day_bounds [of day] by (simp_all add: y)
  then have "nat (day - days_to_year y) < sum_list (map (days_in y) [1..<13])"
    unfolding year_days by (simp add: days_to_year_step nat_less_iff split: if_splits)
  from month_day_spec [OF md _ _ this]
  have m: "1 \<le> m" "m \<le> 12" "1 \<le> d" "d \<le> days_in y m"
    and n: "nat (day - days_to_year y) = days_to_month y m + (d - 1)"
    by (simp_all add: days_to_month_def)
  have "day = days_to_year y + int (days_to_month y m) + int d - 1"
    using n lo m(3) by linarith
  moreover have "secs = day * 86400 + int sod" by (simp add: day_def sod(1))
  moreover have "sod = h * 3600 + mi * 60 + s"
  proof -
    have "sod mod 3600 mod 60 = sod mod 60" by (simp add: mod_mod_cancel)
    then show ?thesis unfolding hms using div_mult_mod_eq [of sod 3600] div_mult_mod_eq [of "sod mod 3600" 60]
      by linarith
  qed
  ultimately have "time_of y m d h mi s 0 = secs * second_ns" by (simp add: time_of_def)
  moreover have "h < 24" "mi < 60" "s < 60" using sod(2) by (simp_all add: hms less_mult_imp_div_less)
  ultimately show ?thesis using m by (simp add: secs_def)
qed

section \<open>Parsing\<close>

definition skip :: "char \<Rightarrow> string \<Rightarrow> string option" where
  "skip c s = (case s of [] \<Rightarrow> None | x # xs \<Rightarrow> if x = c then Some xs else None)"

fun getnum2 :: "string \<Rightarrow> (nat \<times> string) option" where
  "getnum2 (a # b # s) = (if is_digit a \<and> is_digit b then Some (10 * digit_val a + digit_val b, s) else None)"
| "getnum2 s = None"

fun getnum :: "string \<Rightarrow> (nat \<times> string) option" where
  "getnum [] = None"
| "getnum (a # s) =
     (if \<not> is_digit a then None
      else case s of
             b # s' \<Rightarrow> if is_digit b then Some (10 * digit_val a + digit_val b, s') else Some (digit_val a, s)
           | [] \<Rightarrow> Some (digit_val a, s))"

definition getyear :: "string \<Rightarrow> (nat \<times> string) option" where
  "getyear s = (if length s < 4 then None
     else case digits_val 0 (take 4 s) of None \<Rightarrow> None | Some n \<Rightarrow> Some (n, drop 4 s))"

text \<open>A fraction is only there when a digit follows the separator; digits after the ninth are
  dropped.\<close>

fun fraction :: "string \<Rightarrow> nat \<times> string" where
  "fraction (c # d # s) =
     (if (c = CHR ''.'' \<or> c = CHR '','') \<and> is_digit d
      then (let ds = takeWhile is_digit (d # s); ns = take 9 ds
            in (the (digits_val 0 ns) * 10 ^ (9 - length ns), dropWhile is_digit (d # s)))
      else (0, c # d # s))"
| "fraction s = (0, s)"

text \<open>The zone: \<open>Z\<close> or a signed offset, in seconds.\<close>

definition zone :: "string \<Rightarrow> (int \<times> string) option" where
  "zone s =
     (case s of
        [] \<Rightarrow> None
      | c # s' \<Rightarrow>
          if c = CHR ''Z'' then Some (0, s')
          else if length s < 6 \<or> s ! 3 \<noteq> CHR '':'' then None
          else (case (getnum2 (take 2 s'), getnum2 (take 2 (drop 4 s))) of
                  (Some (hr, _), Some (mm, _)) \<Rightarrow>
                    if hr > 24 \<or> mm > 60 then None
                    else if c = CHR ''+'' then Some ((int hr * 60 + int mm) * 60, drop 6 s)
                    else if c = CHR ''-'' then Some (- ((int hr * 60 + int mm) * 60), drop 6 s)
                    else None
                | _ \<Rightarrow> None))"

definition guard :: "bool \<Rightarrow> unit option" where
  "guard b = (if b then Some () else None)"

definition parse_rfc3339 :: "string \<Rightarrow> time option" where
  "parse_rfc3339 s = do {
     (y, s) \<leftarrow> getyear s;
     s \<leftarrow> skip CHR ''-'' s;
     (m, s) \<leftarrow> getnum2 s;
     guard (1 \<le> m \<and> m \<le> 12);
     s \<leftarrow> skip CHR ''-'' s;
     (d, s) \<leftarrow> getnum2 s;
     s \<leftarrow> skip CHR ''T'' s;
     (h, s) \<leftarrow> getnum s;
     guard (h < 24);
     s \<leftarrow> skip CHR '':'' s;
     (mi, s) \<leftarrow> getnum2 s;
     guard (mi < 60);
     s \<leftarrow> skip CHR '':'' s;
     (sec, s) \<leftarrow> getnum2 s;
     guard (sec < 60);
     let (ns, s) = fraction s;
     (off, s) \<leftarrow> zone s;
     guard (s = '''');
     guard (1 \<le> d \<and> d \<le> days_in (int y) m);
     Some (time_of (int y) m d h mi sec ns - off * second_ns)
   }"

lemma skip_Cons [simp]: "skip c (c # s) = Some s"
  by (simp add: skip_def)

lemma getnum2_pad2 [simp]: "n < 100 \<Longrightarrow> getnum2 (pad2 n @ s) = Some (n, s)"
  by (simp add: pad2_def less_mult_imp_div_less)

lemma getnum_pad2 [simp]: "n < 100 \<Longrightarrow> getnum (pad2 n @ s) = Some (n, s)"
  by (simp add: pad2_def less_mult_imp_div_less)

lemma getyear_pad4 [simp]:
  assumes "n < 10000" shows "getyear (pad4 n @ s) = Some (n, s)"
proof -
  have p: "digits_val acc (pad2 k @ cs) = digits_val (100 * acc + k) cs" if "k < 100" for acc k cs
  proof -
    have "k div 10 < 10" using that by (simp add: less_mult_imp_div_less)
    moreover have "10 * (10 * acc + k div 10) + k mod 10 = 100 * acc + k"
      by (simp add: distrib_left)
    ultimately show ?thesis by (simp add: pad2_def add.commute)
  qed
  have b: "n div 100 < 100" "n mod 100 < 100" using assms by (simp_all add: less_mult_imp_div_less)
  have "digits_val 0 (pad4 n) = Some n"
    using assms p [OF b(1), of 0 "pad2 (n mod 100)"] p [OF b(2), of "n div 100" "[]"]
    by (simp add: pad4_def)
  moreover have "length (pad4 n) = 4" using assms by (simp add: pad4_def pad2_def)
  ultimately show ?thesis by (simp add: getyear_def)
qed

lemma guard_True [simp]: "guard True = Some ()"
  by (simp add: guard_def)

lemma parse_format_rfc3339 [wire]:
  assumes "0 \<le> fst (civil t)" "fst (civil t) < 10000"
  shows "parse_rfc3339 (format_rfc3339 t) = Some ((t div second_ns) * second_ns)"
proof -
  obtain y m d h mi s where c: "civil t = (y, m, d, h, mi, s)" by (cases "civil t") auto
  note spec = civil_spec [OF c]
  have b: "d < 100" "m < 100" "h < 100" "mi < 100" "s < 100" "nat y < 10000" "0 \<le> y"
    using spec assms by (auto simp: c days_in_def split: if_splits)
  have f: "format_rfc3339 t = pad4 (nat y) @ CHR ''-'' # pad2 m @ CHR ''-'' # pad2 d @ CHR ''T'' #
      pad2 h @ CHR '':'' # pad2 mi @ CHR '':'' # pad2 s @ ''Z''"
    using b by (simp add: format_rfc3339_def c)
  have z: "zone ''Z'' = Some (0, [])" "fraction ''Z'' = (0, ''Z'')"
    by (simp_all add: zone_def)
  show ?thesis
    unfolding f parse_rfc3339_def using b spec
    by (simp add: z guard_def del: fraction.simps One_nat_def)
qed

end
