(* ===== verification/Relay.thy ===== *)
theory Relay
  imports Complex_Main Transport GoTime LocalStore
begin

text \<open>
  \<^verbatim>\<open>internal/relay/server.go\<close>: the relay server. Its state is the data directory (\<open>id.bin\<close> and
  \<open>id.meta.json\<close> files), the mirror of token hashes and the traffic counters. Handlers run
  under a lock of their drop's identifier, so each is one transition, except where the code
  gives the lock up: \<^verbatim>\<open>handleCreate\<close> checks the quota before it takes the lock, \<^verbatim>\<open>handleGet\<close>
  serves the file between two critical sections, and \<^verbatim>\<open>handleMeta\<close> reads without the lock. Those
  are split into phases, and \<open>relay_step\<close> interleaves them. Requests carry JSON bodies as
  objects; the size limit on them and faults of the device are not modelled.
\<close>

record create_request =
  cq_ID :: string
  cq_SizeBytes :: int
  cq_Expiry :: string
  cq_OneTime :: bool

record rmeta =
  rm_ID :: string
  rm_SizeBytes :: int
  rm_Expiry :: string
  rm_OneTime :: bool
  rm_TokenHash :: string
  rm_UploadedBytes :: int
  rm_CreatedAt :: string
  rm_ServedFull :: bool

type_synonym rdir = "rmeta file_data dir"

record relay =
  rl_dir :: rdir
  rl_tokens :: "string dir"
  rl_quota :: int
  rl_bytesUp :: int
  rl_bytesDown :: int
  rl_startTime :: time

definition rm_expired :: "time \<Rightarrow> rmeta \<Rightarrow> bool" where
  "rm_expired now m = (case parse_rfc3339 (rm_Expiry m) of None \<Rightarrow> True | Some t \<Rightarrow> \<not> now < t)"

section \<open>The rate limiter\<close>

text \<open>Floating-point numbers are read as rationals.\<close>

record bucket =
  tb_rate :: rat
  tb_burst :: rat
  tb_tokens :: rat
  tb_last :: time

definition newBucket :: "rat \<Rightarrow> time \<Rightarrow> bucket option" where
  "newBucket rate now =
     (if rate \<le> 0 then None
      else Some \<lparr>tb_rate = rate, tb_burst = rate, tb_tokens = rate, tb_last = now\<rparr>)"

definition bucket_allow :: "time \<Rightarrow> bucket option \<Rightarrow> bool \<times> bucket option" where
  "bucket_allow now ob =
     (case ob of
        None \<Rightarrow> (True, None)
      | Some b \<Rightarrow>
          (let t = tb_tokens b + of_int (now - tb_last b) / of_int second_ns * tb_rate b;
               t = (if t > tb_burst b then tb_burst b else t);
               b = b\<lparr>tb_tokens := t, tb_last := now\<rparr>
           in if t < 1 then (False, Some b) else (True, Some (b\<lparr>tb_tokens := t - 1\<rparr>))))"

section \<open>Identifiers, files and tokens\<close>

definition relay_validID :: "string \<Rightarrow> bool" where
  "relay_validID did \<longleftrightarrow>
     \<not> (did = '''' \<or> length did > 128) \<and> list_all id_char did \<and>
     \<not> (did = ''.'' \<or> did = ''..'' \<or> contains ''..'' did)"

definition relay_binPath :: "string \<Rightarrow> string" where
  "relay_binPath did = did @ ''.bin''"

definition relay_metaPath :: "string \<Rightarrow> string" where
  "relay_metaPath did = did @ ''.meta.json''"

definition relay_loadMeta :: "rdir \<Rightarrow> string \<Rightarrow> rmeta option" where
  "relay_loadMeta d did = (case dget d (relay_metaPath did) of Some (Json m) \<Rightarrow> Some m | _ \<Rightarrow> None)"

definition relay_saveMeta :: "rmeta \<Rightarrow> rdir \<Rightarrow> rdir" where
  "relay_saveMeta m d =
     (let tmp = relay_metaPath (rm_ID m) @ ''.tmp''
      in drename tmp (relay_metaPath (rm_ID m)) (dput tmp (Json m) d))"

fun reload_tokens :: "rdir \<Rightarrow> string dir \<Rightarrow> string dir" where
  "reload_tokens [] toks = toks"
| "reload_tokens ((name, f) # d) toks =
     reload_tokens d
       (if \<not> has_suffix ''.meta.json'' name then toks
        else (case f of Json m \<Rightarrow> dput (rm_ID m) (rm_TokenHash m) toks | Blob _ \<Rightarrow> toks))"

text \<open>\<^verbatim>\<open>New\<close>, on an existing data directory; \<open>None\<close> where \<^verbatim>\<open>DataDir\<close> is empty.\<close>

definition relay_New :: "string \<Rightarrow> rdir \<Rightarrow> int \<Rightarrow> relay option" where
  "relay_New dataDir d quota =
     (if dataDir = '''' then None
      else Some \<lparr>rl_dir = d, rl_tokens = reload_tokens d [], rl_quota = quota, rl_bytesUp = 0,
        rl_bytesDown = 0, rl_startTime = 0\<rparr>)"

definition relay_storedBytes :: "rdir \<Rightarrow> int" where
  "relay_storedBytes d =
     dsum (\<lambda>name f. if has_suffix ''.bin'' name then int (length (blob_of f)) else 0) d"

definition relay_tokenHash :: "prims \<Rightarrow> string \<Rightarrow> string" where
  "relay_tokenHash P tok = hex_encode (p_sha256 P (bytes_of tok))"

definition relay_checkToken :: "prims \<Rightarrow> request \<Rightarrow> string \<Rightarrow> bool" where
  "relay_checkToken P rq wantHash =
     (let got = header TokenHeader rq
      in if got = '''' \<or> wantHash = '''' then False
         else relay_tokenHash P got = wantHash)"

definition relay_newToken :: "bytes option \<Rightarrow> string option" where
  "relay_newToken rnd = map_option hex_encode rnd"

definition relay_deleteLocked :: "rmeta \<Rightarrow> relay \<Rightarrow> relay" where
  "relay_deleteLocked m s =
     s\<lparr>rl_dir := ddel (relay_metaPath (rm_ID m)) (ddel (relay_binPath (rm_ID m)) (rl_dir s)),
       rl_tokens := ddel (rm_ID m) (rl_tokens s)\<rparr>"

definition writeJSON :: "int \<Rightarrow> (string \<times> jval) list \<Rightarrow> response" where
  "writeJSON status v =
     \<lparr>rs_status = status, rs_headers = [(''Content-Type'', ''application/json'')], rs_body = Obj v\<rparr>"

lemma rs_status_writeJSON [simp]: "rs_status (writeJSON status v) = status"
  by (simp add: writeJSON_def)

definition writeErr :: "int \<Rightarrow> string \<Rightarrow> response" where
  "writeErr status msg = writeJSON status [(''ok'', JBool False), (''error'', JStr msg)]"

lemma rs_status_writeErr [simp]: "rs_status (writeErr status msg) = status"
  by (simp add: writeErr_def)

text \<open>\<^verbatim>\<open>logWrap\<close>, around a handler: the limiter is asked first.\<close>

definition relay_logWrap ::
  "time \<Rightarrow> (relay \<Rightarrow> response \<times> relay) \<Rightarrow> bucket option \<times> relay \<Rightarrow> response \<times> bucket option \<times> relay" where
  "relay_logWrap now handler bs =
     (case bucket_allow now (fst bs) of
        (False, b) \<Rightarrow> (writeErr 429 ''rate limited'', b, snd bs)
      | (True, b) \<Rightarrow> (case handler (snd bs) of (resp, s') \<Rightarrow> (resp, b, s')))"

section \<open>Creating a drop\<close>

definition decode_create :: "body \<Rightarrow> create_request option" where
  "decode_create b =
     (case b of
        Obj v \<Rightarrow>
          (case (js_str ''id'' v, js_int ''size_bytes'' v, js_str ''expiry_rfc3339'' v, js_bool ''one_time'' v) of
             (Some i, Some n, Some e, Some ot) \<Rightarrow>
               Some \<lparr>cq_ID = i, cq_SizeBytes = n, cq_Expiry = e, cq_OneTime = ot\<rparr>
           | _ \<Rightarrow> None)
      | _ \<Rightarrow> None)"

text \<open>What \<^verbatim>\<open>handleCreate\<close> does before it takes the lock. The sum of the quota check is one of
  \<^verbatim>\<open>int64\<close>.\<close>

definition relay_create_check :: "time \<Rightarrow> request \<Rightarrow> relay \<Rightarrow> response + create_request" where
  "relay_create_check now rq s =
     (if rq_fails rq then Inl (writeErr 400 ''unreadable body'')
      else case decode_create (rq_body rq) of
             None \<Rightarrow> Inl (writeErr 400 ''invalid JSON'')
           | Some req \<Rightarrow>
               (if \<not> relay_validID (cq_ID req) then Inl (writeErr 400 ''invalid id'')
                else if cq_SizeBytes req \<le> 0 then Inl (writeErr 400 ''size_bytes must be positive'')
                else case parse_rfc3339 (cq_Expiry req) of
                       None \<Rightarrow> Inl (writeErr 400 ''expiry_rfc3339 must be RFC3339'')
                     | Some ex \<Rightarrow>
                         (if \<not> now < ex then Inl (writeErr 400 ''expiry must be in the future'')
                          else if rl_quota s > 0 \<and>
                              wrap64 (relay_storedBytes (rl_dir s) + cq_SizeBytes req) > rl_quota s
                          then Inl (writeErr 507 ''quota exceeded'')
                          else Inr req)))"

text \<open>The rest, under the lock. The payload file must not exist yet (\<^verbatim>\<open>O_EXCL\<close>).\<close>

definition new_meta :: "prims \<Rightarrow> time \<Rightarrow> string \<Rightarrow> create_request \<Rightarrow> rmeta" where
  "new_meta P now tok req =
     \<lparr>rm_ID = cq_ID req, rm_SizeBytes = cq_SizeBytes req, rm_Expiry = cq_Expiry req,
      rm_OneTime = cq_OneTime req, rm_TokenHash = relay_tokenHash P tok,
      rm_UploadedBytes = 0, rm_CreatedAt = format_rfc3339 now, rm_ServedFull = False\<rparr>"

definition relay_create_commit ::
  "prims \<Rightarrow> time \<Rightarrow> bytes option \<Rightarrow> create_request \<Rightarrow> relay \<Rightarrow> response \<times> relay" where
  "relay_create_commit P now rnd req s =
     (if dget (rl_dir s) (relay_metaPath (cq_ID req)) \<noteq> None then (writeErr 409 ''drop exists'', s)
      else case relay_newToken rnd of
             None \<Rightarrow> (writeErr 500 ''token failure'', s)
           | Some tok \<Rightarrow>
               (let m = new_meta P now tok req;
                    d1 = relay_saveMeta m (rl_dir s)
                in if dget d1 (relay_binPath (cq_ID req)) \<noteq> None
                   then (writeErr 500 ''persist failure'', s\<lparr>rl_dir := ddel (relay_metaPath (cq_ID req)) d1\<rparr>)
                   else (writeJSON 201 [(''ok'', JBool True), (''id'', JStr (cq_ID req)), (''token'', JStr tok)],
                         s\<lparr>rl_dir := dput (relay_binPath (cq_ID req)) (Blob []) d1,
                           rl_tokens := dput (cq_ID req) (rm_TokenHash m) (rl_tokens s)\<rparr>)))"

definition relay_handleCreate ::
  "prims \<Rightarrow> time \<Rightarrow> bytes option \<Rightarrow> request \<Rightarrow> relay \<Rightarrow> response \<times> relay" where
  "relay_handleCreate P now rnd rq s =
     (case relay_create_check now rq s of
        Inl resp \<Rightarrow> (resp, s)
      | Inr req \<Rightarrow> relay_create_commit P now rnd req s)"

section \<open>Uploading\<close>

text \<open>The offset of an upload: a \<^verbatim>\<open>Content-Range\<close> must match the declared size and the bytes
  already there; without one the upload must be the first.\<close>

definition relay_put_offset :: "request \<Rightarrow> rmeta \<Rightarrow> response + int" where
  "relay_put_offset rq m =
     (let cr = trim_space (header ''Content-Range'' rq) in
      if cr \<noteq> '''' then
        (case transport_ParseContentRange cr of
           Inl _ \<Rightarrow> Inl (writeErr 400 ''invalid Content-Range'')
         | Inr parsed \<Rightarrow>
             (if cr_Total parsed \<noteq> rm_SizeBytes m then Inl (writeErr 400 ''Content-Range total mismatch'')
              else if cr_Start parsed \<noteq> rm_UploadedBytes m
              then Inl (writeJSON 409 [(''ok'', JBool False), (''error'', JStr ''offset mismatch''),
                     (''uploaded_bytes'', JInt (rm_UploadedBytes m))])
              else Inr (cr_Start parsed)))
      else if rm_UploadedBytes m \<noteq> 0
      then Inl (writeJSON 409 [(''ok'', JBool False), (''error'', JStr ''resume with Content-Range''),
             (''uploaded_bytes'', JInt (rm_UploadedBytes m))])
      else Inr 0)"

definition body_bytes :: "body \<Rightarrow> bytes" where
  "body_bytes b = (case b of Bytes x \<Rightarrow> x | _ \<Rightarrow> [])"

text \<open>The transfer of \<^verbatim>\<open>handlePut\<close>: at most \<open>remain + 1\<close> bytes of the body reach the file. The
  parts of the result: the file, and the count of bytes unless the body failed first.\<close>

definition relay_copyN :: "int \<Rightarrow> int \<Rightarrow> request \<Rightarrow> bytes \<Rightarrow> bytes \<times> int option" where
  "relay_copyN off n rq old =
     (let data = take (nat n) (body_bytes (rq_body rq));
          failed = (rq_fails rq \<and> length (body_bytes (rq_body rq)) < nat n)
      in (write_at (nat off) data old, if failed then None else Some (int (length data))))"

definition relay_handlePut ::
  "prims \<Rightarrow> time \<Rightarrow> string \<Rightarrow> request \<Rightarrow> relay \<Rightarrow> response \<times> relay" where
  "relay_handlePut P now did rq s =
     (if \<not> relay_validID did then (writeErr 400 ''invalid id'', s)
      else case relay_loadMeta (rl_dir s) did of
             None \<Rightarrow> (writeErr 404 ''not found'', s)
           | Some m \<Rightarrow>
               (if \<not> relay_checkToken P rq (rm_TokenHash m) then (writeErr 401 ''unauthorized'', s)
                else if rm_expired now m then (writeErr 410 ''expired'', relay_deleteLocked m s)
                else case relay_put_offset rq m of
                       Inl resp \<Rightarrow> (resp, s)
                     | Inr off \<Rightarrow>
                         (let remain = rm_SizeBytes m - off in
                          if remain \<le> 0 then (writeErr 400 ''drop already complete'', s)
                          else case dget (rl_dir s) (relay_binPath did) of
                                 None \<Rightarrow> (writeErr 404 ''not found'', s)
                               | Some f \<Rightarrow>
                                   (let (file, res) = relay_copyN off (wrap64 (remain + 1)) rq (blob_of f);
                                        s1 = s\<lparr>rl_dir := dput (relay_binPath did) (Blob file) (rl_dir s)\<rparr>
                                    in case res of
                                         None \<Rightarrow> (writeErr 400 ''truncated body'', s1)
                                       | Some written \<Rightarrow>
                                           (if written > remain
                                            then (writeErr 400 ''body exceeds declared size'',
                                                  s\<lparr>rl_dir := dput (relay_binPath did)
                                                     (Blob (take (nat off) file)) (rl_dir s)\<rparr>)
                                            else (let m' = m\<lparr>rm_UploadedBytes := off + written\<rparr> in
                                              (writeJSON 200 [(''ok'', JBool True), (''id'', JStr did),
                                                 (''uploaded_bytes'', JInt (rm_UploadedBytes m')),
                                                 (''complete'', JBool (rm_UploadedBytes m' = rm_SizeBytes m'))],
                                               s1\<lparr>rl_dir := relay_saveMeta m' (rl_dir s1),
                                                  rl_bytesUp := rl_bytesUp s + written\<rparr>)))))))"

section \<open>Serving content\<close>

text \<open>\<^verbatim>\<open>http.ServeContent\<close> as the relay calls it, without a modification time or an entity tag:
  the ranges of a \<^verbatim>\<open>Range\<close> header, of which those beyond the end are skipped. \<open>If-Range\<close> is not
  modelled.\<close>

fun split_on :: "char \<Rightarrow> string \<Rightarrow> string list" where
  "split_on c [] = [[]]"
| "split_on c (x # xs) =
     (if x = c then [] # split_on c xs
      else (case split_on c xs of y # ys \<Rightarrow> (x # y) # ys | [] \<Rightarrow> [[x]]))"

definition is_blank :: "char \<Rightarrow> bool" where
  "is_blank c \<longleftrightarrow> code c \<in> {9, 10, 13, 32}"

definition trim_blank :: "string \<Rightarrow> string" where
  "trim_blank s = rev (dropWhile is_blank (rev (dropWhile is_blank s)))"

datatype range_item = RangeMalformed | RangeBlank | RangeNoOverlap | RangeAt int int

text \<open>One item of the header, for a content of \<open>sz\<close> bytes: a start and a length, if any.\<close>

definition parse_range_item :: "int \<Rightarrow> string \<Rightarrow> range_item" where
  "parse_range_item sz ra0 =
     (let ra = trim_blank ra0 in
      if ra = [] then RangeBlank
      else case index_byte ra CHR ''-'' of
             None \<Rightarrow> RangeMalformed
           | Some k \<Rightarrow>
               (let start = trim_blank (take k ra); endb = trim_blank (drop (k + 1) ra) in
                if start = [] then
                  (if endb = [] \<or> hd endb = CHR ''-'' then RangeMalformed
                   else case parse_int endb of
                          None \<Rightarrow> RangeMalformed
                        | Some i \<Rightarrow> if i < 0 then RangeMalformed
                                    else RangeAt (sz - min i sz) (min i sz))
                else case parse_int start of
                       None \<Rightarrow> RangeMalformed
                     | Some i \<Rightarrow>
                         (if i < 0 then RangeMalformed
                          else if i \<ge> sz then RangeNoOverlap
                          else if endb = [] then RangeAt i (sz - i)
                          else case parse_int endb of
                                 None \<Rightarrow> RangeMalformed
                               | Some j \<Rightarrow> if i > j then RangeMalformed
                                           else RangeAt i ((if j \<ge> sz then sz - 1 else j) - i + 1))))"

definition parse_range :: "string \<Rightarrow> int \<Rightarrow> range_item list option" where
  "parse_range v sz =
     (if v = [] then Some []
      else if \<not> has_prefix ''bytes='' v then None
      else (let items = map (parse_range_item sz) (split_on CHR '','' (trim_prefix ''bytes='' v))
            in if RangeMalformed \<in> set items then None else Some (filter (\<lambda>r. r \<noteq> RangeBlank) items)))"

fun range_bytes :: "bytes \<Rightarrow> range_item \<Rightarrow> bytes" where
  "range_bytes content (RangeAt st n) = take (nat n) (drop (nat st) content)"
| "range_bytes content r = []"

definition range_len :: "range_item \<Rightarrow> int" where
  "range_len r = (case r of RangeAt st n \<Rightarrow> n | _ \<Rightarrow> 0)"

definition serve_error :: "response" where
  "serve_error = \<lparr>rs_status = 416, rs_headers = [], rs_body = Bytes []\<rparr>"

definition serve_reply :: "bool \<Rightarrow> int \<Rightarrow> (string \<times> string) list \<Rightarrow> body \<Rightarrow> response" where
  "serve_reply is_head status h b =
     \<lparr>rs_status = status,
      rs_headers = h @ [(''Accept-Ranges'', ''bytes''), (''Content-Type'', ''application/octet-stream'')],
      rs_body = if is_head then Bytes [] else b\<rparr>"

definition serveContent :: "string \<Rightarrow> bool \<Rightarrow> bytes \<Rightarrow> response" where
  "serveContent rangeReq is_head content =
     (let sz = int (length content); full = serve_reply is_head 200 [] (Bytes content)
      in case parse_range rangeReq sz of
           None \<Rightarrow> serve_error
         | Some items \<Rightarrow>
             (let ranges = filter (\<lambda>r. r \<noteq> RangeNoOverlap) items in
              if ranges = [] \<and> items \<noteq> [] then (if sz = 0 then full else serve_error)
              else if ranges = [] \<or> sum_list (map range_len ranges) > sz then full
              else case ranges of
                     [RangeAt st n] \<Rightarrow>
                       serve_reply is_head 206
                         [(''Content-Range'', transport_FormatContentRange st (st + n - 1) sz)]
                         (Bytes (range_bytes content (RangeAt st n)))
                   | _ \<Rightarrow> serve_reply is_head 206 [] (Parts (map (range_bytes content) ranges))))"

fun body_size :: "body \<Rightarrow> int" where
  "body_size (Bytes b) = int (length b)"
| "body_size (Parts ps) = int (length (concat ps))"
| "body_size (Obj v) = 0"

text \<open>A connection that breaks after \<open>n\<close> bytes of the content.\<close>

definition deliver :: "nat \<Rightarrow> response \<Rightarrow> response" where
  "deliver n r = (case rs_body r of Bytes b \<Rightarrow> r\<lparr>rs_body := Bytes (take n b)\<rparr> | _ \<Rightarrow> r)"

section \<open>Downloading\<close>

text \<open>A download that has left its first critical section: the open file and what decides its end.\<close>

record download =
  dl_id :: string
  dl_content :: bytes
  dl_range :: string
  dl_head :: bool
  dl_consume :: bool \<comment> \<open>one-time, and asked for in full\<close>

definition relay_get_open ::
  "prims \<Rightarrow> time \<Rightarrow> string \<Rightarrow> request \<Rightarrow> relay \<Rightarrow> (response + download) \<times> relay" where
  "relay_get_open P now did rq s =
     (if \<not> relay_validID did then (Inl (writeErr 400 ''invalid id''), s)
      else case relay_loadMeta (rl_dir s) did of
             None \<Rightarrow> (Inl (writeErr 404 ''not found''), s)
           | Some m \<Rightarrow>
               (if \<not> relay_checkToken P rq (rm_TokenHash m) then (Inl (writeErr 401 ''unauthorized''), s)
                else if rm_expired now m then (Inl (writeErr 410 ''expired''), relay_deleteLocked m s)
                else if rm_OneTime m \<and> rm_ServedFull m
                then (Inl (writeErr 404 ''not found''), relay_deleteLocked m s)
                else case dget (rl_dir s) (relay_binPath did) of
                       None \<Rightarrow> (Inl (writeErr 404 ''not found''), s)
                     | Some f \<Rightarrow>
                         (let fullRead = (trim_space (header ''Range'' rq) = [])
                          in (Inr \<lparr>dl_id = did, dl_content = blob_of f, dl_range = header ''Range'' rq,
                                dl_head = (rq_method rq = ''HEAD''), dl_consume = (rm_OneTime m \<and> fullRead)\<rparr>, s))))"

definition relay_get_serve :: "nat \<Rightarrow> download \<Rightarrow> relay \<Rightarrow> response \<times> relay" where
  "relay_get_serve conn d s =
     (let resp = deliver conn (serveContent (dl_range d) (dl_head d) (dl_content d))
      in (resp, s\<lparr>rl_bytesDown := rl_bytesDown s + body_size (rs_body resp)\<rparr>))"

definition relay_get_finish :: "download \<Rightarrow> relay \<Rightarrow> relay" where
  "relay_get_finish d s =
     (if dl_consume d
      then (case relay_loadMeta (rl_dir s) (dl_id d) of
              Some cur \<Rightarrow> if \<not> rm_ServedFull cur then relay_deleteLocked (cur\<lparr>rm_ServedFull := True\<rparr>) s else s
            | None \<Rightarrow> s)
      else s)"

definition relay_handleGet ::
  "prims \<Rightarrow> time \<Rightarrow> nat \<Rightarrow> string \<Rightarrow> request \<Rightarrow> relay \<Rightarrow> response \<times> relay" where
  "relay_handleGet P now conn did rq s =
     (case relay_get_open P now did rq s of
        (Inl resp, s1) \<Rightarrow> (resp, s1)
      | (Inr d, s1) \<Rightarrow> (case relay_get_serve conn d s1 of (resp, s2) \<Rightarrow> (resp, relay_get_finish d s2)))"

section \<open>Metadata, deletion, status\<close>

text \<open>\<^verbatim>\<open>handleMeta\<close> up to the deletion of an expired drop, which takes the lock later.\<close>

definition relay_meta_read :: "prims \<Rightarrow> time \<Rightarrow> string \<Rightarrow> request \<Rightarrow> relay \<Rightarrow> response \<times> rmeta option" where
  "relay_meta_read P now did rq s =
     (if \<not> relay_validID did then (writeErr 400 ''invalid id'', None)
      else case relay_loadMeta (rl_dir s) did of
             None \<Rightarrow> (writeErr 404 ''not found'', None)
           | Some m \<Rightarrow>
               (if \<not> relay_checkToken P rq (rm_TokenHash m) then (writeErr 401 ''unauthorized'', None)
                else if rm_expired now m then (writeErr 410 ''expired'', Some m)
                else (writeJSON 200 [(''ok'', JBool True), (''id'', JStr (rm_ID m)),
                        (''size_bytes'', JInt (rm_SizeBytes m)), (''expiry_rfc3339'', JStr (rm_Expiry m)),
                        (''one_time'', JBool (rm_OneTime m)), (''uploaded_bytes'', JInt (rm_UploadedBytes m))],
                      None)))"

definition relay_handleMeta :: "prims \<Rightarrow> time \<Rightarrow> string \<Rightarrow> request \<Rightarrow> relay \<Rightarrow> response \<times> relay" where
  "relay_handleMeta P now did rq s =
     (case relay_meta_read P now did rq s of
        (resp, None) \<Rightarrow> (resp, s)
      | (resp, Some m) \<Rightarrow> (resp, relay_deleteLocked m s))"

definition relay_handleDelete :: "prims \<Rightarrow> string \<Rightarrow> request \<Rightarrow> relay \<Rightarrow> response \<times> relay" where
  "relay_handleDelete P did rq s =
     (if \<not> relay_validID did then (writeErr 400 ''invalid id'', s)
      else case relay_loadMeta (rl_dir s) did of
             None \<Rightarrow> (writeErr 404 ''not found'', s)
           | Some m \<Rightarrow>
               (if \<not> relay_checkToken P rq (rm_TokenHash m) then (writeErr 401 ''unauthorized'', s)
                else (writeJSON 200 [(''ok'', JBool True), (''id'', JStr did)], relay_deleteLocked m s)))"

definition relay_handleHealth :: response where
  "relay_handleHealth = writeJSON 200 [(''ok'', JBool True), (''status'', JStr ''online'')]"

definition relay_handleStats :: "time \<Rightarrow> relay \<Rightarrow> response" where
  "relay_handleStats now s =
     (let live = filter (\<lambda>(name, f). has_suffix ''.bin'' name \<and>
            dget (rl_dir s) (relay_metaPath (trim_suffix ''.bin'' name)) \<noteq> None) (rl_dir s);
          uptime = (if rl_startTime s \<noteq> 0 then (now - rl_startTime s) div second_ns else 0)
      in writeJSON 200 [(''ok'', JBool True), (''drops'', JInt (int (length live))),
           (''bytes_stored'', JInt (sum_list (map (\<lambda>(name, f). int (length (blob_of f))) live))),
           (''bytes_received'', JInt (rl_bytesUp s)), (''bytes_served'', JInt (rl_bytesDown s)),
           (''uptime_seconds'', JInt uptime)])"

text \<open>\<^verbatim>\<open>sweep\<close>: the names listed at its start, each looked at under its lock.\<close>

definition relay_sweep_one :: "time \<Rightarrow> string \<Rightarrow> relay \<Rightarrow> int \<times> relay" where
  "relay_sweep_one now name s =
     (if \<not> has_suffix ''.meta.json'' name then (0, s)
      else (let did = trim_suffix ''.meta.json'' name in
            if \<not> relay_validID did then (0, s)
            else case relay_loadMeta (rl_dir s) did of
                   Some m \<Rightarrow> if rm_expired now m then (1, relay_deleteLocked m s) else (0, s)
                 | None \<Rightarrow> (0, s)))"

fun relay_sweep_names :: "time \<Rightarrow> string list \<Rightarrow> relay \<Rightarrow> int \<times> relay" where
  "relay_sweep_names now [] s = (0, s)"
| "relay_sweep_names now (name # names) s =
     (let (n, s1) = relay_sweep_one now name s; (m, s2) = relay_sweep_names now names s1 in (n + m, s2))"

definition relay_sweep :: "time \<Rightarrow> relay \<Rightarrow> int \<times> relay" where
  "relay_sweep now s = relay_sweep_names now (map fst (rl_dir s)) s"

section \<open>Routing\<close>

text \<open>The routes of the multiplexer, for request paths that are already clean. A pattern with
  method \<^verbatim>\<open>GET\<close> also takes \<^verbatim>\<open>HEAD\<close>.\<close>

definition mux_error :: "int \<Rightarrow> response" where
  "mux_error status = \<lparr>rs_status = status, rs_headers = [], rs_body = Bytes []\<rparr>"

definition relay_dispatch ::
  "prims \<Rightarrow> time \<Rightarrow> bytes option \<Rightarrow> nat \<Rightarrow> request \<Rightarrow> relay \<Rightarrow> response \<times> relay" where
  "relay_dispatch P now rnd conn rq s =
     (let get = (rq_method rq = ''GET'' \<or> rq_method rq = ''HEAD'') in
      case split_on CHR ''/'' (rq_path rq) of
        [r, a, v, d] \<Rightarrow>
          (if [r, a, v] \<noteq> [[], ''api'', ''v1''] then (mux_error 404, s)
           else if d = ''drops'' then
             (if rq_method rq = ''POST'' then relay_handleCreate P now rnd rq s else (mux_error 405, s))
           else if d = ''health'' then (if get then relay_handleHealth else mux_error 405, s)
           else if d = ''stats'' then (if get then relay_handleStats now s else mux_error 405, s)
           else (mux_error 404, s))
      | [r, a, v, d, did] \<Rightarrow>
          (if [r, a, v, d] \<noteq> [[], ''api'', ''v1'', ''drops''] then (mux_error 404, s)
           else if rq_method rq = ''DELETE'' then relay_handleDelete P did rq s else (mux_error 405, s))
      | [r, a, v, d, did, what] \<Rightarrow>
          (if [r, a, v, d] \<noteq> [[], ''api'', ''v1'', ''drops''] then (mux_error 404, s)
           else if what = ''data'' then
             (if rq_method rq = ''PUT'' then relay_handlePut P now did rq s
              else if get then relay_handleGet P now conn did rq s else (mux_error 405, s))
           else if what = ''meta'' then
             (if get then relay_handleMeta P now did rq s else (mux_error 405, s))
           else (mux_error 404, s))
      | _ \<Rightarrow> (mux_error 404, s))"

end
