(* ===== verification/RelayInv.thy ===== *)
theory RelayInv
  imports Relay
begin

text \<open>
  The relay as a transition system: \<open>relay_step\<close> interleaves the critical sections of its
  handlers, and \<open>relay_inv\<close> is the invariant of what it stores. The lemmas here are shared by
  the properties in \<open>RelayProps\<close>.
\<close>

section \<open>File names\<close>

lemma relay_paths [simp]: "relay_binPath did = binPath did" "relay_metaPath did = metaPath did"
  by (simp_all add: relay_binPath_def relay_metaPath_def binPath_def metaPath_def)

lemma meta_tmp [simp]: "has_suffix ''.tmp'' (metaPath did @ ''.tmp'')"
  by simp

lemma dget_saveMeta [simp]:
  "dget (relay_saveMeta m d) k =
    (if k = metaPath (rm_ID m) then Some (Json m)
     else if k = metaPath (rm_ID m) @ ''.tmp'' then None else dget d k)"
proof -
  have "metaPath (rm_ID m) @ ''.tmp'' \<noteq> metaPath (rm_ID m)" by simp
  then show ?thesis by (simp add: relay_saveMeta_def Let_def)
qed

lemma dget_saveMeta_bin [simp]: "dget (relay_saveMeta m d) (binPath did) = dget d (binPath did)"
  using tmp_neq(3) [OF meta_tmp [of "rm_ID m"], of did] by simp

lemma dget_saveMeta_meta [simp]:
  "dget (relay_saveMeta m d) (metaPath did) = (if did = rm_ID m then Some (Json m) else dget d (metaPath did))"
  using tmp_neq(4) [OF meta_tmp [of "rm_ID m"], of did] by simp

declare dget_saveMeta [simp del]

lemma dir_ok_saveMeta [simp]: "dir_ok d \<Longrightarrow> dir_ok (relay_saveMeta m d)"
  by (simp add: relay_saveMeta_def Let_def)

lemma relay_loadMeta_iff: "relay_loadMeta d did = Some m \<longleftrightarrow> dget d (metaPath did) = Some (Json m)"
  by (auto simp: relay_loadMeta_def split: option.splits file_data.splits)

section \<open>The invariant\<close>

text \<open>A record belongs to its file: it was created for this identifier, its payload file holds at
  least the acknowledged bytes and at most the declared ones, and it was never marked served.\<close>

definition meta_ok :: "string \<Rightarrow> rmeta \<Rightarrow> bytes \<Rightarrow> bool" where
  "meta_ok did m b \<longleftrightarrow> rm_ID m = did \<and> relay_validID did \<and> 0 < rm_SizeBytes m \<and> rm_SizeBytes m < 2 ^ 63 \<and>
     0 \<le> rm_UploadedBytes m \<and> rm_UploadedBytes m \<le> int (length b) \<and> int (length b) \<le> rm_SizeBytes m \<and>
     \<not> rm_ServedFull m"

fun drop_ok :: "string \<Rightarrow> rmeta file_data option \<Rightarrow> rmeta file_data option \<Rightarrow> string option \<Rightarrow> bool" where
  "drop_ok did None bin tok = (tok = None)"
| "drop_ok did (Some (Json m)) (Some (Blob b)) tok = (meta_ok did m b \<and> tok = Some (rm_TokenHash m))"
| "drop_ok did (Some x) bin tok = False"

definition relay_inv :: "relay \<Rightarrow> bool" where
  "relay_inv s \<longleftrightarrow> dir_ok (rl_dir s) \<and> dir_ok (rl_tokens s) \<and>
     (\<forall>did. drop_ok did (dget (rl_dir s) (metaPath did)) (dget (rl_dir s) (binPath did)) (dget (rl_tokens s) did))"

lemma drop_ok_cases:
  assumes "drop_ok did mf bin tok"
  obtains "mf = None" "tok = None"
    | m b where "mf = Some (Json m)" "bin = Some (Blob b)" "meta_ok did m b" "tok = Some (rm_TokenHash m)"
  using assms by (cases "(did, mf, bin, tok)" rule: drop_ok.cases) auto

lemma relay_inv_load:
  assumes "relay_inv s" "relay_loadMeta (rl_dir s) did = Some m"
  obtains b where "dget (rl_dir s) (metaPath did) = Some (Json m)" "dget (rl_dir s) (binPath did) = Some (Blob b)"
    "meta_ok did m b" "dget (rl_tokens s) did = Some (rm_TokenHash m)"
proof -
  have "drop_ok did (dget (rl_dir s) (metaPath did)) (dget (rl_dir s) (binPath did)) (dget (rl_tokens s) did)"
    using assms(1) by (simp add: relay_inv_def)
  then show thesis
    by (cases rule: drop_ok_cases) (use assms(2) that in \<open>auto simp: relay_loadMeta_iff\<close>)
qed

lemma relay_inv_none:
  assumes "relay_inv s" "relay_loadMeta (rl_dir s) did = None"
  shows "dget (rl_dir s) (metaPath did) = None" "dget (rl_tokens s) did = None"
proof -
  have "drop_ok did (dget (rl_dir s) (metaPath did)) (dget (rl_dir s) (binPath did)) (dget (rl_tokens s) did)"
    using assms(1) by (simp add: relay_inv_def)
  then have "dget (rl_dir s) (metaPath did) = None \<and> dget (rl_tokens s) did = None"
    by (cases rule: drop_ok_cases) (use assms(2) in \<open>auto simp: relay_loadMeta_def\<close>)
  then show "dget (rl_dir s) (metaPath did) = None" "dget (rl_tokens s) did = None" by simp_all
qed

lemma deleteLocked_get [simp]:
  "dget (rl_dir (relay_deleteLocked m s)) (metaPath did) =
    (if did = rm_ID m then None else dget (rl_dir s) (metaPath did))"
  "dget (rl_dir (relay_deleteLocked m s)) (binPath did) =
    (if did = rm_ID m then None else dget (rl_dir s) (binPath did))"
  "dget (rl_tokens (relay_deleteLocked m s)) did = (if did = rm_ID m then None else dget (rl_tokens s) did)"
  "rl_quota (relay_deleteLocked m s) = rl_quota s"
  by (simp_all add: relay_deleteLocked_def)

lemma relay_inv_delete [step_preserves]: "relay_inv s \<Longrightarrow> relay_inv (relay_deleteLocked m s)"
  by (simp add: relay_inv_def) (simp add: relay_deleteLocked_def)

lemma loadMeta_delete:
  "relay_loadMeta (rl_dir (relay_deleteLocked m s)) did =
    (if did = rm_ID m then None else relay_loadMeta (rl_dir s) did)"
  by (simp add: relay_loadMeta_def)

section \<open>Preservation by the handlers\<close>

lemma create_check_ok:
  assumes "relay_create_check now rq s = Inr req"
  shows "relay_validID (cq_ID req) \<and> 0 < cq_SizeBytes req \<and> cq_SizeBytes req < 2 ^ 63 \<and>
    decode_create (rq_body rq) = Some req \<and>
    (\<exists>ex. parse_rfc3339 (cq_Expiry req) = Some ex \<and> now < ex) \<and>
    (0 < rl_quota s \<longrightarrow> wrap64 (relay_storedBytes (rl_dir s) + cq_SizeBytes req) \<le> rl_quota s)"
proof -
  have *: "decode_create b = Some r \<Longrightarrow> in_int64 (cq_SizeBytes r)" for b r
    by (auto simp: decode_create_def js_int_def in_int64_def split: body.splits option.splits jval.splits if_splits)
  from assms show ?thesis
    using * [of "rq_body rq" req]
    by (auto simp: relay_create_check_def in_int64_def split: if_splits option.splits)
qed

lemma new_meta_sel [simp]:
  "rm_ID (new_meta P now tok req) = cq_ID req" "rm_SizeBytes (new_meta P now tok req) = cq_SizeBytes req"
  "rm_Expiry (new_meta P now tok req) = cq_Expiry req" "rm_OneTime (new_meta P now tok req) = cq_OneTime req"
  "rm_TokenHash (new_meta P now tok req) = relay_tokenHash P tok"
  "rm_UploadedBytes (new_meta P now tok req) = 0" "rm_ServedFull (new_meta P now tok req) = False"
  by (simp_all add: new_meta_def)

lemma create_commit_cases:
  assumes run: "relay_create_commit P now rnd req s = (resp, s')"
  obtains "rs_status resp \<noteq> 201" "s' = s"
    | m where "rs_status resp \<noteq> 201" "rm_ID m = cq_ID req" "dget (rl_dir s) (metaPath (cq_ID req)) = None"
      "s' = s\<lparr>rl_dir := ddel (metaPath (cq_ID req)) (relay_saveMeta m (rl_dir s))\<rparr>"
    | b tok where "rnd = Some b" "tok = hex_encode b" "dget (rl_dir s) (metaPath (cq_ID req)) = None"
      "dget (rl_dir s) (binPath (cq_ID req)) = None"
      "resp = writeJSON 201 [(''ok'', JBool True), (''id'', JStr (cq_ID req)), (''token'', JStr tok)]"
      "s' = s\<lparr>rl_dir := dput (binPath (cq_ID req)) (Blob []) (relay_saveMeta (new_meta P now tok req) (rl_dir s)),
         rl_tokens := dput (cq_ID req) (relay_tokenHash P tok) (rl_tokens s)\<rparr>"
proof (cases "dget (rl_dir s) (metaPath (cq_ID req))")
  case (Some x)
  then show thesis using run by (intro that(1)) (auto simp: relay_create_commit_def)
next
  case meta: None
  show thesis
  proof (cases rnd)
    case None
    then show thesis using run meta by (intro that(1)) (auto simp: relay_create_commit_def relay_newToken_def)
  next
    case (Some b)
    let ?m = "new_meta P now (hex_encode b) req"
    show thesis
    proof (cases "dget (rl_dir s) (binPath (cq_ID req))")
      case None
      then show thesis using run meta Some
        by (intro that(3) [OF Some refl meta]) (auto simp: relay_create_commit_def relay_newToken_def Let_def)
    next
      case bin: (Some f)
      then show thesis using run meta Some
        by (intro that(2) [of ?m]) (auto simp: relay_create_commit_def relay_newToken_def Let_def)
    qed
  qed
qed

lemma relay_inv_create [step_preserves]:
  assumes "relay_inv s" "relay_validID (cq_ID req)" "0 < cq_SizeBytes req" "cq_SizeBytes req < 2 ^ 63"
  shows "relay_inv (snd (relay_create_commit P now rnd req s))"
proof -
  obtain resp s' where r: "relay_create_commit P now rnd req s = (resp, s')" by fastforce
  have "relay_inv s'"
    using r
  proof (cases rule: create_commit_cases)
    case (2 m)
    have "drop_ok did (dget (rl_dir s') (metaPath did)) (dget (rl_dir s') (binPath did)) (dget (rl_tokens s') did)"
      for did
    proof -
      have "drop_ok did (dget (rl_dir s) (metaPath did)) (dget (rl_dir s) (binPath did)) (dget (rl_tokens s) did)"
        using assms(1) by (simp add: relay_inv_def)
      then show ?thesis using 2 by (cases "did = cq_ID req") simp_all
    qed
    then show ?thesis using assms(1) 2 by (simp add: relay_inv_def)
  next
    case (3 b tok)
    have "drop_ok did (dget (rl_dir s') (metaPath did)) (dget (rl_dir s') (binPath did)) (dget (rl_tokens s') did)"
      for did
      using assms 3 by (cases "did = cq_ID req") (simp_all add: relay_inv_def meta_ok_def)
    then show ?thesis using assms(1) 3(6) by (simp add: relay_inv_def)
  qed (use assms(1) in simp_all)
  then show ?thesis by (simp add: r)
qed

lemma take_off_write_at: "off \<le> length old \<Longrightarrow> take off (write_at off data old) = take off old"
  by (simp add: write_at_def)

lemma put_offset_eq: "relay_put_offset rq m = Inr off \<Longrightarrow> off = rm_UploadedBytes m"
  by (auto simp: relay_put_offset_def Let_def split: if_splits sum.splits)

lemma put_offset_err: "relay_put_offset rq m = Inl resp \<Longrightarrow> rs_status resp \<in> {400, 409}"
  by (auto simp: relay_put_offset_def Let_def split: if_splits sum.splits)

text \<open>The outcomes of an upload, in a state that satisfies the invariant: refused, expired, broken
  off (the acknowledged bytes stay), or acknowledged.\<close>

lemma handlePut_cases:
  assumes inv: "relay_inv s" and run: "relay_handlePut P now did rq s = (resp, s')"
  obtains "rs_status resp \<noteq> 200" "s' = s"
    | m where "relay_loadMeta (rl_dir s) did = Some m" "rm_expired now m" "relay_checkToken P rq (rm_TokenHash m)"
      "rs_status resp = 410" "s' = relay_deleteLocked m s"
    | m b f where "relay_loadMeta (rl_dir s) did = Some m" "relay_checkToken P rq (rm_TokenHash m)"
      "\<not> rm_expired now m" "dget (rl_dir s) (binPath did) = Some (Blob b)" "rs_status resp = 400"
      "take (nat (rm_UploadedBytes m)) f = take (nat (rm_UploadedBytes m)) b"
      "rm_UploadedBytes m \<le> int (length f)" "int (length f) \<le> rm_SizeBytes m"
      "s' = s\<lparr>rl_dir := dput (binPath did) (Blob f) (rl_dir s)\<rparr>"
    | m b data where "relay_loadMeta (rl_dir s) did = Some m" "relay_checkToken P rq (rm_TokenHash m)"
      "\<not> rm_expired now m" "dget (rl_dir s) (binPath did) = Some (Blob b)"
      "relay_put_offset rq m = Inr (rm_UploadedBytes m)"
      "data = body_bytes (rq_body rq) \<or> data = [] \<and> rm_SizeBytes m = 2 ^ 63 - 1"
      "rm_UploadedBytes m + int (length data) \<le> rm_SizeBytes m" "rs_status resp = 200"
      "s' = s\<lparr>rl_dir := relay_saveMeta (m\<lparr>rm_UploadedBytes := rm_UploadedBytes m + int (length data)\<rparr>)
           (dput (binPath did) (Blob (write_at (nat (rm_UploadedBytes m)) data b)) (rl_dir s)),
         rl_bytesUp := rl_bytesUp s + int (length data)\<rparr>"
proof (cases "relay_validID did")
  case False
  then show thesis using run that(1) by (auto simp: relay_handlePut_def)
next
  case vid: True
  show thesis
  proof (cases "relay_loadMeta (rl_dir s) did")
    case None
    then show thesis using vid run that(1) by (auto simp: relay_handlePut_def)
  next
    case (Some m)
    obtain b where b: "dget (rl_dir s) (binPath did) = Some (Blob b)" and m: "meta_ok did m b"
      using relay_inv_load [OF inv Some] by blast
    show thesis
    proof (cases "relay_checkToken P rq (rm_TokenHash m) \<and> \<not> rm_expired now m")
      case False
      then show thesis
        using vid Some run that(1,2) by (auto simp: relay_handlePut_def split: if_splits)
    next
      case tok: True
      show thesis
      proof (cases "relay_put_offset rq m")
        case (Inl r)
        then show thesis using vid Some tok run that(1) put_offset_err [OF Inl]
          by (auto simp: relay_handlePut_def)
      next
        case (Inr off)
        then have off: "off = rm_UploadedBytes m" by (rule put_offset_eq)
        define remain where "remain = rm_SizeBytes m - off"
        define n where "n = nat (wrap64 (remain + 1))"
        define body data where "body = body_bytes (rq_body rq)" and "data = take n body"
        define f where "f = write_at (nat off) data b"
        have bounds: "0 \<le> off" "nat off \<le> length b" "int (length b) \<le> rm_SizeBytes m"
          using m by (auto simp: meta_ok_def off nat_le_iff)
        show thesis
        proof (cases "remain \<le> 0")
          case True
          then show thesis using vid Some tok Inr run that(1)
            by (auto simp: relay_handlePut_def remain_def)
        next
          case pos: False
          have n: "n = nat (remain + 1) \<or> n = 0 \<and> rm_SizeBytes m = 2 ^ 63 - 1"
          proof (cases "remain + 1 < 2 ^ 63")
            case True
            then have "in_int64 (remain + 1)" using pos by (simp add: in_int64_def)
            then show ?thesis by (simp add: n_def)
          next
            case False
            have "remain + 1 = 2 ^ 63" using False m bounds(1) by (simp add: remain_def meta_ok_def)
            then show ?thesis
              using m bounds(1) by (simp add: n_def wrap64_def remain_def meta_ok_def)
          qed
          have len: "length f = max (length b) (nat off + length data)"
            unfolding f_def using bounds(2) by (rule length_write_at)
          show thesis
          proof (cases "rq_fails rq \<and> length body < n")
            case True
            then have d: "nat off + length data \<le> nat (rm_SizeBytes m)"
              using n bounds(1) pos by (auto simp: data_def remain_def)
            have "s' = s\<lparr>rl_dir := dput (binPath did) (Blob f) (rl_dir s)\<rparr>" "rs_status resp = 400"
              using run vid Some tok Inr pos b True
              by (auto simp: relay_handlePut_def relay_copyN_def remain_def [symmetric] n_def [symmetric]
                  body_def [symmetric] data_def [symmetric] f_def [symmetric] Let_def)
            moreover have "int (length f) \<le> rm_SizeBytes m" "off \<le> int (length f)"
              using len d bounds by linarith+
            moreover have "take (nat off) f = take (nat off) b"
              unfolding f_def using bounds(2) by (rule take_off_write_at)
            ultimately show thesis
              using that(3) [OF Some _ _ b, of f] tok by (simp add: off)
          next
            case fin: False
            show thesis
            proof (cases "int (length data) > remain")
              case True
              have "s' = s\<lparr>rl_dir := dput (binPath did) (Blob (take (nat off) f)) (rl_dir s)\<rparr>"
                "rs_status resp = 400"
                using run vid Some tok Inr pos b fin True
                by (auto simp: relay_handlePut_def relay_copyN_def remain_def [symmetric] n_def [symmetric]
                    body_def [symmetric] data_def [symmetric] f_def [symmetric] Let_def)
              moreover have "take (nat off) f = take (nat off) b"
                unfolding f_def using bounds(2) by (rule take_off_write_at)
              moreover have "length (take (nat off) f) = nat off" using len bounds(2) by simp
              moreover have "off \<le> rm_SizeBytes m" using pos by (simp add: remain_def)
              ultimately show thesis
                using that(3) [OF Some _ _ b, of "take (nat off) f"] tok bounds(1) by (simp add: off)
            next
              case le: False
              have d: "data = body \<or> data = [] \<and> rm_SizeBytes m = 2 ^ 63 - 1"
                using n le pos by (auto simp: data_def min_def split: if_splits)
              have "s' = s\<lparr>rl_dir := relay_saveMeta (m\<lparr>rm_UploadedBytes := off + int (length data)\<rparr>)
                  (dput (binPath did) (Blob f) (rl_dir s)), rl_bytesUp := rl_bytesUp s + int (length data)\<rparr>"
                "rs_status resp = 200"
                using run vid Some tok Inr pos b fin le
                by (auto simp: relay_handlePut_def relay_copyN_def remain_def [symmetric] n_def [symmetric]
                    body_def [symmetric] data_def [symmetric] f_def [symmetric] Let_def)
              then show thesis
                using that(4) [OF Some _ _ b, of data] tok Inr d le
                by (simp add: off f_def body_def remain_def)
            qed
          qed
        qed
      qed
    qed
  qed
qed

lemma relay_inv_Put [step_preserves]:
  assumes inv: "relay_inv s"
  shows "relay_inv (snd (relay_handlePut P now did rq s))"
proof -
  obtain resp s' where r: "relay_handlePut P now did rq s = (resp, s')" by fastforce
  have old: "drop_ok k (dget (rl_dir s) (metaPath k)) (dget (rl_dir s) (binPath k)) (dget (rl_tokens s) k)" for k
    using inv by (simp add: relay_inv_def)
  from inv r have "relay_inv s'"
  proof (cases rule: handlePut_cases)
    case (3 m b f)
    from relay_inv_load [OF inv 3(1)] obtain b' where m: "dget (rl_dir s) (metaPath did) = Some (Json m)"
      "meta_ok did m b'" "dget (rl_tokens s) did = Some (rm_TokenHash m)"
      by blast
    have "drop_ok k (dget (rl_dir s') (metaPath k)) (dget (rl_dir s') (binPath k)) (dget (rl_tokens s') k)" for k
      using old [of k] m 3 by (cases "k = did") (simp_all add: meta_ok_def)
    then show ?thesis using inv 3(9) by (simp add: relay_inv_def)
  next
    case (4 m b data)
    from relay_inv_load [OF inv 4(1)] obtain b' where m: "dget (rl_dir s) (metaPath did) = Some (Json m)"
      "dget (rl_dir s) (binPath did) = Some (Blob b')" "meta_ok did m b'"
      "dget (rl_tokens s) did = Some (rm_TokenHash m)"
      by blast
    then have b: "b' = b" using 4(4) by simp
    have le: "nat (rm_UploadedBytes m) \<le> length b" using m(3) by (auto simp: meta_ok_def b nat_le_iff)
    have "drop_ok k (dget (rl_dir s') (metaPath k)) (dget (rl_dir s') (binPath k)) (dget (rl_tokens s') k)" for k
      using old [of k] m 4(7) length_write_at [OF le, of data]
      by (cases "k = did") (auto simp: 4(9) meta_ok_def b)
    then show ?thesis using inv 4(9) by (simp add: relay_inv_def)
  qed (use inv in \<open>simp_all add: relay_inv_delete\<close>)
  then show ?thesis by (simp add: r)
qed

lemma relay_inv_counters [simp]:
  "relay_inv (s\<lparr>rl_bytesDown := n\<rparr>) = relay_inv s" "relay_inv (s\<lparr>rl_bytesUp := n\<rparr>) = relay_inv s"
  "relay_inv (s\<lparr>rl_startTime := t\<rparr>) = relay_inv s"
  by (simp_all add: relay_inv_def)

lemma relay_inv_get_open [step_preserves]:
  "relay_inv s \<Longrightarrow> relay_inv (snd (relay_get_open P now did rq s))"
  by (auto simp: relay_get_open_def relay_inv_delete Let_def split: option.splits)

lemma relay_inv_get_serve [step_preserves]:
  "relay_inv s \<Longrightarrow> relay_inv (snd (relay_get_serve conn d s))"
  by (simp add: relay_get_serve_def Let_def)

lemma relay_inv_get_finish [step_preserves]: "relay_inv s \<Longrightarrow> relay_inv (relay_get_finish d s)"
  by (auto simp: relay_get_finish_def relay_inv_delete split: option.splits)

lemma relay_inv_Delete [step_preserves]: "relay_inv s \<Longrightarrow> relay_inv (snd (relay_handleDelete P did rq s))"
  by (auto simp: relay_handleDelete_def relay_inv_delete split: option.splits)

lemma relay_inv_sweep_one [step_preserves]: "relay_inv s \<Longrightarrow> relay_inv (snd (relay_sweep_one now name s))"
  by (auto simp: relay_sweep_one_def relay_inv_delete Let_def split: option.splits)

lemma relay_inv_sweep_names [step_preserves]:
  "relay_inv s \<Longrightarrow> relay_inv (snd (relay_sweep_names now names s))"
proof (induction names arbitrary: s)
  case (Cons name names)
  then show ?case
    using relay_inv_sweep_one [of s now name] by (auto simp: Let_def split: prod.splits) (metis snd_conv)
qed simp

lemma reload_tokens_get:
  assumes "dir_ok d" "\<And>did m. dget d (metaPath did) = Some (Json m) \<Longrightarrow> rm_ID m = did"
  shows "dget (reload_tokens d toks) did =
    (case dget d (metaPath did) of Some (Json m) \<Rightarrow> Some (rm_TokenHash m) | _ \<Rightarrow> dget toks did)"
  using assms
proof (induction d arbitrary: toks)
  case (Cons e d)
  obtain name f where e: "e = (name, f)" by (cases e)
  have nd: "dget d name = None" and ok: "dir_ok d" using Cons.prems(1) by (simp_all add: e map_of_eq_None_iff)
  have ids: "rm_ID m = k" if "dget d (metaPath k) = Some (Json m)" for k m
  proof -
    have "metaPath k \<noteq> name" using that nd by auto
    then show ?thesis using Cons.prems(2) [of k m] that by (simp add: e)
  qed
  show ?case
  proof (cases "has_suffix ''.meta.json'' name \<and> (\<exists>m. f = Json m)")
    case True
    then obtain k m where name: "name = metaPath k" and f: "f = Json m"
      by (auto simp: has_suffix_iff metaPath_def)
    have "rm_ID m = k" using Cons.prems(2) [of k m] by (simp add: e name f)
    then show ?thesis
      using Cons.IH [OF ok ids, of "dput k (rm_TokenHash m) toks"] True nd
      by (auto simp: e name f split: option.splits file_data.splits)
  next
    case False
    then have "reload_tokens (e # d) toks = reload_tokens d toks"
      by (auto simp: e split: file_data.splits)
    then show ?thesis
      using Cons.IH [OF ok ids, of toks] False nd
      by (auto simp: e metaPath_def split: option.splits file_data.splits)
  qed
qed simp

lemma dir_ok_reload [simp]: "dir_ok toks \<Longrightarrow> dir_ok (reload_tokens d toks)"
  by (induction d toks rule: reload_tokens.induct) (auto split: file_data.splits)

text \<open>A restart on the same directory rebuilds the token mirror.\<close>

lemma relay_inv_New [step_preserves]:
  assumes "relay_inv s" "relay_New dataDir (rl_dir s) quota = Some s'"
  shows "relay_inv s' \<and> map_of (rl_tokens s') = map_of (rl_tokens s)"
proof -
  have ok: "dir_ok (rl_dir s)" and old: "drop_ok k (dget (rl_dir s) (metaPath k)) (dget (rl_dir s) (binPath k))
      (dget (rl_tokens s) k)" for k
    using assms(1) by (simp_all add: relay_inv_def)
  have s': "rl_dir s' = rl_dir s" "rl_tokens s' = reload_tokens (rl_dir s) []"
    using assms(2) by (auto simp: relay_New_def split: if_splits)
  have ids: "rm_ID m = k" if "dget (rl_dir s) (metaPath k) = Some (Json m)" for k m
    using old [of k] that by (cases rule: drop_ok_cases) (auto simp: meta_ok_def)
  have tok: "dget (rl_tokens s') k = dget (rl_tokens s) k" for k
  proof -
    have get: "dget (reload_tokens (rl_dir s) []) k =
        (case dget (rl_dir s) (metaPath k) of Some (Json m) \<Rightarrow> Some (rm_TokenHash m) | _ \<Rightarrow> dget [] k)"
      using ok ids by (rule reload_tokens_get)
    show ?thesis
      unfolding s'(2) get using old [of k] by (cases rule: drop_ok_cases) (simp_all only: option.case file_data.case map_of.simps)
  qed
  then show ?thesis using old ok by (simp add: relay_inv_def s'(1) fun_eq_iff) (simp add: s')
qed

section \<open>The transition system\<close>

text \<open>What has left a critical section and waits for the next one.\<close>

datatype pending =
    PCreate create_request
  | PServe download
  | PFinish download
  | PExpire rmeta

type_synonym rsys = "relay \<times> pending list"

inductive relay_step :: "prims \<Rightarrow> rsys \<Rightarrow> rsys \<Rightarrow> bool" for P where
  create_check: "relay_create_check now rq s = Inr req \<Longrightarrow> relay_step P (s, ps) (s, PCreate req # ps)"
| create_commit: "PCreate req \<in> set ps \<Longrightarrow>
    relay_step P (s, ps) (snd (relay_create_commit P now rnd req s), remove1 (PCreate req) ps)"
| put: "relay_step P (s, ps) (snd (relay_handlePut P now did rq s), ps)"
| get_refused: "relay_get_open P now did rq s = (Inl resp, s') \<Longrightarrow> relay_step P (s, ps) (s', ps)"
| get_open: "relay_get_open P now did rq s = (Inr d, s') \<Longrightarrow> relay_step P (s, ps) (s', PServe d # ps)"
| get_serve: "PServe d \<in> set ps \<Longrightarrow>
    relay_step P (s, ps) (snd (relay_get_serve conn d s), PFinish d # remove1 (PServe d) ps)"
| get_finish: "PFinish d \<in> set ps \<Longrightarrow> relay_step P (s, ps) (relay_get_finish d s, remove1 (PFinish d) ps)"
| meta_expired: "relay_meta_read P now did rq s = (resp, Some m) \<Longrightarrow> relay_step P (s, ps) (s, PExpire m # ps)"
| meta_delete: "PExpire m \<in> set ps \<Longrightarrow>
    relay_step P (s, ps) (relay_deleteLocked m s, remove1 (PExpire m) ps)"
| delete: "relay_step P (s, ps) (snd (relay_handleDelete P did rq s), ps)"
| sweep: "relay_step P (s, ps) (snd (relay_sweep_one now name s), ps)"
| restart: "relay_New dataDir (rl_dir s) quota = Some s' \<Longrightarrow> relay_step P (s, ps) (s', [])"

inductive relay_reach :: "prims \<Rightarrow> rsys \<Rightarrow> bool" for P where
  init: "relay_New dataDir [] quota = Some s \<Longrightarrow> relay_reach P (s, [])"
| step: "relay_reach P x \<Longrightarrow> relay_step P x y \<Longrightarrow> relay_reach P y"

inductive_cases relay_stepE: "relay_step P (s, ps) (s', ps')"

definition pending_ok :: "pending \<Rightarrow> bool" where
  "pending_ok p = (case p of
     PCreate req \<Rightarrow> relay_validID (cq_ID req) \<and> 0 < cq_SizeBytes req \<and> cq_SizeBytes req < 2 ^ 63
   | _ \<Rightarrow> True)"

lemma relay_step_inv:
  assumes "relay_step P x y" "relay_inv (fst x)" "\<forall>p \<in> set (snd x). pending_ok p"
  shows "relay_inv (fst y) \<and> (\<forall>p \<in> set (snd y). pending_ok p)"
  using assms
proof (induction rule: relay_step.induct)
  case (create_check now rq s req ps)
  then show ?case using create_check_ok [OF create_check(1)] by (simp add: pending_ok_def)
next
  case (create_commit req ps s now rnd)
  then show ?case using relay_inv_create [of s req] set_remove1_subset [of "PCreate req" ps]
    by (force simp: pending_ok_def)
next
  case (get_refused now did rq s resp s' ps)
  then show ?case using relay_inv_get_open [of s P now did rq] by simp
next
  case (get_open now did rq s d s' ps)
  then show ?case using relay_inv_get_open [of s P now did rq] by (simp add: pending_ok_def)
next
  case (get_serve d ps s conn)
  then show ?case using set_remove1_subset [of "PServe d" ps]
    by (auto simp: relay_inv_get_serve pending_ok_def)
next
  case (get_finish d ps s)
  then show ?case using set_remove1_subset [of "PFinish d" ps] by (auto simp: relay_inv_get_finish)
next
  case (meta_delete m ps s)
  then show ?case using set_remove1_subset [of "PExpire m" ps] by (auto simp: relay_inv_delete)
next
  case (restart dataDir s quota s' ps)
  then show ?case using relay_inv_New by simp
qed (simp_all add: relay_inv_Put relay_inv_Delete relay_inv_sweep_one pending_ok_def)

lemma relay_reach_inv: "relay_reach P x \<Longrightarrow> relay_inv (fst x) \<and> (\<forall>p \<in> set (snd x). pending_ok p)"
proof (induction rule: relay_reach.induct)
  case (init dataDir quota s)
  then show ?case by (auto simp: relay_New_def relay_inv_def split: if_splits)
next
  case (step x y)
  then show ?case using relay_step_inv by blast
qed

end
