(* ===== verification/RelayProps.thy ===== *)
theory RelayProps
  imports RelayInv
begin

text \<open>
  The properties of the relay server: what it stores, who may touch it, what an upload and a
  download do through the client helpers of \<open>Transport\<close>, expiry, one-time drops, the quota and
  the rate limit.
\<close>

section \<open>Handlers touch one drop only\<close>

text \<open>The record and the payload file of a drop.\<close>

definition drop_files :: "relay \<Rightarrow> string \<Rightarrow> rmeta file_data option \<times> rmeta file_data option" where
  "drop_files s did = (dget (rl_dir s) (metaPath did), dget (rl_dir s) (binPath did))"

lemma drop_files_delete [simp]:
  "drop_files (relay_deleteLocked m s) did = (if did = rm_ID m then (None, None) else drop_files s did)"
  by (simp add: drop_files_def)

lemma drop_files_counters [simp]:
  "drop_files (s\<lparr>rl_bytesDown := n\<rparr>) did = drop_files s did"
  by (simp add: drop_files_def)

lemma loadMeta_drop_files: "relay_loadMeta (rl_dir s) did = Some m \<longleftrightarrow> fst (drop_files s did) = Some (Json m)"
  by (simp add: drop_files_def relay_loadMeta_iff)

lemma handlePut_frame:
  assumes "relay_inv s" "relay_handlePut P now did rq s = (resp, s')" "drop_files s' k \<noteq> drop_files s k"
  shows "k = did \<and> (\<exists>m. relay_loadMeta (rl_dir s) did = Some m \<and> relay_checkToken P rq (rm_TokenHash m))"
  using assms(1,2)
proof (cases rule: handlePut_cases)
  case (2 m)
  then show ?thesis using assms(1,3) relay_inv_load [OF assms(1) 2(1)] by (auto simp: meta_ok_def split: if_splits)
next
  case (4 m b data)
  then show ?thesis
    using assms(3) relay_inv_load [OF assms(1) 4(1)]
    by (auto simp: drop_files_def meta_ok_def split: if_splits)
qed (use assms(3) in \<open>auto simp: drop_files_def split: if_splits\<close>)

lemma get_open_frame:
  assumes "relay_inv s" "relay_get_open P now did rq s = (r, s')" "drop_files s' k \<noteq> drop_files s k"
  shows "k = did \<and> (\<exists>m. relay_loadMeta (rl_dir s) did = Some m \<and> relay_checkToken P rq (rm_TokenHash m))"
proof (cases "relay_loadMeta (rl_dir s) did")
  case None
  then show ?thesis using assms(2,3) by (auto simp: relay_get_open_def split: if_splits)
next
  case (Some m)
  then have "rm_ID m = did" using relay_inv_load [OF assms(1)] by (auto simp: meta_ok_def)
  then show ?thesis
    using assms(2,3) Some by (auto simp: relay_get_open_def Let_def split: if_splits option.splits)
qed

lemma get_open_ok:
  assumes "relay_get_open P now did rq s = (Inr d, s')"
  obtains m f where "relay_validID did" "relay_loadMeta (rl_dir s) did = Some m"
    "relay_checkToken P rq (rm_TokenHash m)" "\<not> rm_expired now m" "dget (rl_dir s) (binPath did) = Some f"
    "d = \<lparr>dl_id = did, dl_content = blob_of f, dl_range = header ''Range'' rq, dl_head = (rq_method rq = ''HEAD''),
      dl_consume = (rm_OneTime m \<and> trim_space (header ''Range'' rq) = [])\<rparr>" "s' = s"
  using assms by (auto simp: relay_get_open_def Let_def split: if_splits option.splits)

lemma get_finish_frame:
  assumes "relay_inv s" "drop_files (relay_get_finish d s) k \<noteq> drop_files s k"
  shows "k = dl_id d \<and> dl_consume d"
proof (cases "relay_loadMeta (rl_dir s) (dl_id d)")
  case None
  then show ?thesis using assms(2) by (simp add: relay_get_finish_def split: if_splits)
next
  case (Some m)
  then have "rm_ID m = dl_id d" using relay_inv_load [OF assms(1)] by (auto simp: meta_ok_def)
  then show ?thesis using assms(2) Some by (auto simp: relay_get_finish_def split: if_splits)
qed

lemma handleGet_frame:
  assumes inv: "relay_inv s" and run: "relay_handleGet P now conn did rq s = (resp, s')"
    and ch: "drop_files s' k \<noteq> drop_files s k"
  shows "k = did \<and> (\<exists>m. relay_loadMeta (rl_dir s) did = Some m \<and> relay_checkToken P rq (rm_TokenHash m))"
proof (cases "relay_get_open P now did rq s")
  case (Pair r s1)
  show ?thesis
  proof (cases r)
    case (Inl x)
    then have "s1 = s'" using run Pair by (simp add: relay_handleGet_def)
    then show ?thesis using get_open_frame [OF inv Pair] ch by blast
  next
    case (Inr d)
    obtain m where d: "relay_loadMeta (rl_dir s) did = Some m" "relay_checkToken P rq (rm_TokenHash m)"
      "dl_id d = did" "s1 = s"
      by (rule get_open_ok [OF Pair [unfolded Inr]]) (simp add: that)
    obtain n where s': "s' = relay_get_finish d (s\<lparr>rl_bytesDown := n\<rparr>)"
      using run Pair Inr d(4) by (auto simp: relay_handleGet_def relay_get_serve_def Let_def split: prod.splits)
    have "k = dl_id d"
      using get_finish_frame [of "s\<lparr>rl_bytesDown := n\<rparr>" d k] inv ch by (simp add: s')
    then show ?thesis using d by blast
  qed
qed

lemma handleMeta_frame:
  assumes "relay_inv s" "relay_handleMeta P now did rq s = (resp, s')" "drop_files s' k \<noteq> drop_files s k"
  shows "k = did \<and> (\<exists>m. relay_loadMeta (rl_dir s) did = Some m \<and> relay_checkToken P rq (rm_TokenHash m))"
proof (cases "relay_loadMeta (rl_dir s) did")
  case None
  then show ?thesis using assms(2,3)
    by (auto simp: relay_handleMeta_def relay_meta_read_def split: if_splits)
next
  case (Some m)
  then have "rm_ID m = did" using relay_inv_load [OF assms(1)] by (auto simp: meta_ok_def)
  then show ?thesis
    using assms(2,3) Some by (auto simp: relay_handleMeta_def relay_meta_read_def split: if_splits)
qed

lemma handleDelete_frame:
  assumes "relay_inv s" "relay_handleDelete P did rq s = (resp, s')" "drop_files s' k \<noteq> drop_files s k"
  shows "k = did \<and> (\<exists>m. relay_loadMeta (rl_dir s) did = Some m \<and> relay_checkToken P rq (rm_TokenHash m))"
proof (cases "relay_loadMeta (rl_dir s) did")
  case None
  then show ?thesis using assms(2,3) by (auto simp: relay_handleDelete_def split: if_splits)
next
  case (Some m)
  then have "rm_ID m = did" using relay_inv_load [OF assms(1)] by (auto simp: meta_ok_def)
  then show ?thesis using assms(2,3) Some by (auto simp: relay_handleDelete_def split: if_splits)
qed

lemma handleCreate_frame:
  assumes "relay_handleCreate P now rnd rq s = (resp, s')" "dget (rl_dir s) (metaPath k) \<noteq> None"
  shows "drop_files s' k = drop_files s k"
proof (cases "relay_create_check now rq s")
  case (Inl r)
  then show ?thesis using assms(1) by (simp add: relay_handleCreate_def)
next
  case (Inr req)
  then have "relay_create_commit P now rnd req s = (resp, s')" using assms(1) by (simp add: relay_handleCreate_def)
  then show ?thesis
    by (cases rule: create_commit_cases) (use assms(2) in \<open>auto simp: drop_files_def\<close>)
qed

section \<open>What is stored\<close>

text \<open>
  C3 The storage invariant of the relay, under every interleaving of its critical sections,
  with sweeps and restarts: every record lies under the identifier it was created for, its
  payload file exists and holds at least the acknowledged and at most the declared number of
  bytes, no record is marked as served, and the token mirror holds exactly the hashes of the
  stored records.
\<close>

theorem relay_store_invariant:
  assumes "relay_reach P (s, ps)"
  shows "(\<forall>did m. dget (rl_dir s) (relay_metaPath did) = Some (Json m) \<longrightarrow>
      (\<exists>b. dget (rl_dir s) (relay_binPath did) = Some (Blob b) \<and> rm_ID m = did \<and> relay_validID did \<and>
         0 \<le> rm_UploadedBytes m \<and> rm_UploadedBytes m \<le> int (length b) \<and>
         int (length b) \<le> rm_SizeBytes m \<and> \<not> rm_ServedFull m \<and>
         dget (rl_tokens s) did = Some (rm_TokenHash m))) \<and>
    (\<forall>did. dget (rl_tokens s) did \<noteq> None \<longrightarrow> dget (rl_dir s) (relay_metaPath did) \<noteq> None)"
proof -
  have inv: "relay_inv s" using relay_reach_inv [OF assms] by simp
  then have "drop_ok did (dget (rl_dir s) (metaPath did)) (dget (rl_dir s) (binPath did)) (dget (rl_tokens s) did)"
    for did by (simp add: relay_inv_def)
  then show ?thesis
    unfolding relay_paths
    by (intro conjI allI impI; metis drop_ok_cases meta_ok_def option.distinct(1) option.inject file_data.inject(2))
qed


section \<open>A relay with one drop, for the witnesses\<close>

text \<open>The identity stands in for SHA-256 here, to keep the evaluation small.\<close>

definition demo_prims :: prims where
  "demo_prims = sample_prims\<lparr>p_sha256 := (\<lambda>b. b)\<rparr>"

definition demo_body :: "bool \<Rightarrow> body" where
  "demo_body ot = Obj [(''id'', JStr ''a''), (''size_bytes'', JInt 3),
     (''expiry_rfc3339'', JStr ''2030-01-01T00:00:00Z''), (''one_time'', JBool ot)]"

definition demo_request :: "string \<Rightarrow> string \<Rightarrow> (string \<times> string) list \<Rightarrow> body \<Rightarrow> request" where
  "demo_request method path hs b =
     \<lparr>rq_method = method, rq_path = path, rq_headers = hs, rq_body = b, rq_fails = False\<rparr>"

definition demo_token :: string where
  "demo_token = hex_encode [7]"

definition demo_empty :: "int \<Rightarrow> relay" where
  "demo_empty quota = the (relay_New ''d'' [] quota)"

definition demo_relay :: "bool \<Rightarrow> relay" where
  "demo_relay ot = snd (relay_handleCreate demo_prims 0 (Some [7])
     (demo_request ''POST'' ''/api/v1/drops'' [] (demo_body ot)) (demo_empty 100))"

lemma demo_reach: "relay_reach demo_prims (demo_relay ot, [])"
proof -
  let ?rq = "demo_request ''POST'' ''/api/v1/drops'' [] (demo_body ot)"
  have 0: "relay_reach demo_prims (demo_empty 100, [])"
    by (rule relay_reach.init [of "''d''" 100]) (simp add: demo_empty_def relay_New_def)
  show ?thesis
  proof (cases "relay_create_check 0 ?rq (demo_empty 100)")
    case (Inl r)
    then show ?thesis using 0 by (simp add: demo_relay_def relay_handleCreate_def)
  next
    case (Inr req)
    have 1: "relay_reach demo_prims (demo_empty 100, [PCreate req])"
      using relay_reach.step [OF 0 relay_step.create_check [OF Inr]] .
    have "relay_step demo_prims (demo_empty 100, [PCreate req])
        (snd (relay_create_commit demo_prims 0 (Some [7]) req (demo_empty 100)),
         remove1 (PCreate req) [PCreate req])"
      by (rule relay_step.create_commit) simp
    from relay_reach.step [OF 1 this] show ?thesis
      by (simp add: demo_relay_def relay_handleCreate_def Inr)
  qed
qed

abbreviation demo_meta :: "bool \<Rightarrow> rmeta" where
  "demo_meta ot \<equiv> new_meta demo_prims 0 demo_token
    \<lparr>cq_ID = ''a'', cq_SizeBytes = 3, cq_Expiry = ''2030-01-01T00:00:00Z'', cq_OneTime = ot\<rparr>"

lemma demo_expiry:
  "case parse_rfc3339 ''2030-01-01T00:00:00Z'' of Some t \<Rightarrow> 0 < t \<and> t \<le> 100000000000000000000 | None \<Rightarrow> False"
  by code_simp

lemma demo_expired [simp]: "rm_expired (100000000000000000000) (demo_meta ot)" "\<not> rm_expired 0 (demo_meta ot)"
  using demo_expiry by (auto simp: rm_expired_def split: option.splits)

lemma demo_relay_load:
  "relay_loadMeta (rl_dir (demo_relay ot)) ''a'' =
    Some (demo_meta ot)"
  by (cases ot) code_simp+

lemma demo_token_ok [simp]:
  "relay_checkToken demo_prims (demo_request m p [(TokenHeader, demo_token)] b)
    (relay_tokenHash demo_prims demo_token)"
  by (simp add: relay_checkToken_def header_def demo_request_def Let_def)
    (simp add: demo_token_def relay_tokenHash_def demo_prims_def bytes_of_def)


theorem relay_store_invariant_witness:
  "\<exists>b. dget (rl_dir (demo_relay False)) (relay_binPath ''a'') = Some (Blob b) \<and> int (length b) \<le> 3"
  using relay_store_invariant [OF demo_reach [of False]] demo_relay_load [of False]
  by (auto simp: relay_loadMeta_iff dest!: spec [of _ "''a''"])

end
