(* ===== verification/RelayClients.thy ===== *)
theory RelayClients
  imports Transport GoTime StorageApi
begin

text \<open>
  The three HTTP clients of a relay: \<^verbatim>\<open>relay.Client\<close> (\<^verbatim>\<open>internal/relay/server.go\<close>, \<open>rcl_\<close>),
  \<^verbatim>\<open>storage.RelayClient\<close> (\<^verbatim>\<open>internal/storage/relay.go\<close>, \<open>srl_\<close>) and \<^verbatim>\<open>app.RelayClient\<close>
  (\<^verbatim>\<open>internal/app/relay.go\<close>, \<open>arl_\<close>). Each operation takes the function that performs requests at the
  client's base URL, which is taken to be well formed, and the state of the far end. What a
  client only discards of a response is left out.
\<close>

section \<open>relay.Client\<close>

datatype rcl_err = RclTransport | RclCreate string | RclPut int | RclMeta int | RclDelete int | RclGet tr_err

definition drops_path :: string where
  "drops_path = ''/api/v1/drops''"

definition drop_path :: "string \<Rightarrow> string" where
  "drop_path did = ''/api/v1/drops/'' @ did"

definition data_path :: "string \<Rightarrow> string" where
  "data_path did = ''/api/v1/drops/'' @ did @ ''/data''"

definition meta_url :: "string \<Rightarrow> string" where
  "meta_url did = ''/api/v1/drops/'' @ did @ ''/meta''"

definition create_body :: "string \<Rightarrow> int \<Rightarrow> string \<Rightarrow> bool \<Rightarrow> body" where
  "create_body did sz expiry ot = Obj [(''id'', JStr did), (''size_bytes'', JInt sz),
     (''expiry_rfc3339'', JStr expiry), (''one_time'', JBool ot)]"

text \<open>Fields of a decoded response, with the zero value where they are absent.\<close>

definition obj_str :: "string \<Rightarrow> body \<Rightarrow> string" where
  "obj_str k b = (case b of Obj v \<Rightarrow> (case map_of v k of Some (JStr s) \<Rightarrow> s | _ \<Rightarrow> []) | _ \<Rightarrow> [])"

definition obj_bool :: "string \<Rightarrow> body \<Rightarrow> bool" where
  "obj_bool k b = (case b of Obj v \<Rightarrow> (case map_of v k of Some (JBool x) \<Rightarrow> x | _ \<Rightarrow> False) | _ \<Rightarrow> False)"

text \<open>\<^verbatim>\<open>Create\<close> returns the token the client keeps; the text of an error is the server's, or \<open>[]\<close>
  where it sent none and the status line is used.\<close>

definition rcl_Create ::
  "'s http \<Rightarrow> string \<Rightarrow> int \<Rightarrow> string \<Rightarrow> bool \<Rightarrow> 's \<Rightarrow> (rcl_err + string) \<times> 's" where
  "rcl_Create client did sz expiry ot s =
     (let rq = \<lparr>rq_method = ''POST'', rq_path = drops_path,
                rq_headers = [(''Content-Type'', ''application/json'')],
                rq_body = create_body did sz expiry ot, rq_fails = False\<rparr>
      in case client rq s of
           (None, s') \<Rightarrow> (Inl RclTransport, s')
         | (Some resp, s') \<Rightarrow>
             (if rs_status resp \<noteq> 201 \<or> \<not> obj_bool ''ok'' (rs_body resp)
              then (Inl (RclCreate (obj_str ''error'' (rs_body resp))), s')
              else (Inr (obj_str ''token'' (rs_body resp)), s')))"

definition rcl_putRange ::
  "'s http \<Rightarrow> string \<Rightarrow> string \<Rightarrow> int \<Rightarrow> int \<Rightarrow> bytes \<Rightarrow> bool \<Rightarrow> 's \<Rightarrow> rcl_err option \<times> 's" where
  "rcl_putRange client token did off fsize chunk ranged s =
     (let endb = off + int (length chunk) - 1;
          rq = \<lparr>rq_method = ''PUT'', rq_path = data_path did,
                rq_headers = (''Content-Type'', ''application/octet-stream'') #
                  (if ranged then [(''Content-Range'', transport_FormatContentRange off endb fsize)] else []) @
                  [(TokenHeader, token)],
                rq_body = Bytes chunk, rq_fails = False\<rparr>
      in case client rq s of
           (None, s') \<Rightarrow> (Some RclTransport, s')
         | (Some resp, s') \<Rightarrow>
             (if rs_status resp \<noteq> 200 then (Some (RclPut (rs_status resp)), s') else (None, s')))"

definition rcl_Put :: "'s http \<Rightarrow> string \<Rightarrow> string \<Rightarrow> bytes \<Rightarrow> 's \<Rightarrow> rcl_err option \<times> 's" where
  "rcl_Put client token did payload s =
     rcl_putRange client token did 0 (int (length payload)) payload False s"

definition rcl_PutResume ::
  "'s http \<Rightarrow> string \<Rightarrow> string \<Rightarrow> int \<Rightarrow> int \<Rightarrow> bytes \<Rightarrow> 's \<Rightarrow> rcl_err option \<times> 's" where
  "rcl_PutResume client token did fsize off chunk s = rcl_putRange client token did off fsize chunk True s"

definition rcl_Get :: "'s http \<Rightarrow> string \<Rightarrow> string \<Rightarrow> int \<Rightarrow> 's \<Rightarrow> (tr_err + response) \<times> 's" where
  "rcl_Get client token did off s = transport_FetchRange client (data_path did) off token s"

definition rcl_Meta :: "'s http \<Rightarrow> string \<Rightarrow> string \<Rightarrow> 's \<Rightarrow> (rcl_err + body) \<times> 's" where
  "rcl_Meta client token did s =
     (case client \<lparr>rq_method = ''GET'', rq_path = meta_url did, rq_headers = [(TokenHeader, token)],
                   rq_body = Bytes [], rq_fails = False\<rparr> s of
        (None, s') \<Rightarrow> (Inl RclTransport, s')
      | (Some resp, s') \<Rightarrow>
          (if rs_status resp \<noteq> 200 then (Inl (RclMeta (rs_status resp)), s') else (Inr (rs_body resp), s')))"

definition rcl_Delete :: "'s http \<Rightarrow> string \<Rightarrow> string \<Rightarrow> 's \<Rightarrow> rcl_err option \<times> 's" where
  "rcl_Delete client token did s =
     (case client \<lparr>rq_method = ''DELETE'', rq_path = drop_path did, rq_headers = [(TokenHeader, token)],
                   rq_body = Bytes [], rq_fails = False\<rparr> s of
        (None, s') \<Rightarrow> (Some RclTransport, s')
      | (Some resp, s') \<Rightarrow>
          (if rs_status resp \<noteq> 200 then (Some (RclDelete (rs_status resp)), s') else (None, s')))"

section \<open>storage.RelayClient\<close>

definition relayChunkSize :: nat where
  "relayChunkSize = 2 ^ 20"

definition srl_base :: "string \<Rightarrow> string" where
  "srl_base baseURL = trim_suffix ''/'' (trim_space baseURL)"

definition srl_req :: "string \<Rightarrow> string \<Rightarrow> string \<Rightarrow> body \<Rightarrow> (string \<times> string) list \<Rightarrow> request" where
  "srl_req token method path b hdr =
     \<lparr>rq_method = method, rq_path = path,
      rq_headers = (if token \<noteq> [] then [(TokenHeader, token)] else []) @ hdr,
      rq_body = b, rq_fails = False\<rparr>"

record relay_meta =
  rlm_Size :: int
  rlm_Expiry :: time

text \<open>A number may also be a string that is a JSON number.\<close>

definition json_int :: "jval \<Rightarrow> int option" where
  "json_int v =
     (case v of
        JInt n \<Rightarrow> if in_int64 n then Some n else None
      | JStr s \<Rightarrow> (case parse_int s of
                     Some n \<Rightarrow> if format_int n = s \<or> s = ''-0'' then Some n else None
                   | None \<Rightarrow> None)
      | JBool b \<Rightarrow> None)"

fun first_num :: "(string \<times> jval) list \<Rightarrow> string list \<Rightarrow> int" where
  "first_num v [] = - 1"
| "first_num v (k # ks) =
     (case map_of v k of
        None \<Rightarrow> first_num v ks
      | Some x \<Rightarrow> (case json_int x of Some n \<Rightarrow> n | None \<Rightarrow> first_num v ks))"

fun first_str :: "(string \<times> jval) list \<Rightarrow> string list \<Rightarrow> string" where
  "first_str v [] = []"
| "first_str v (k # ks) = (case map_of v k of Some (JStr s) \<Rightarrow> s | _ \<Rightarrow> first_str v ks)"

text \<open>\<^verbatim>\<open>parseMeta\<close>, for integers in the range of \<^verbatim>\<open>int64\<close>.\<close>

definition srl_parseMeta :: "body \<Rightarrow> relay_meta option" where
  "srl_parseMeta b =
     (case b of
        Obj v \<Rightarrow>
          (let n = first_num v [''uploaded_bytes'', ''uploaded'', ''offset''];
               sz = (if n \<ge> 0 then n else first_num v [''size_bytes'', ''size'', ''total'', ''length'']);
               e = first_str v [''expiry_rfc3339'', ''expiry'', ''expires_at'']
           in Some \<lparr>rlm_Size = sz, rlm_Expiry = (case parse_rfc3339 e of Some t \<Rightarrow> t | None \<Rightarrow> 0)\<rparr>)
      | _ \<Rightarrow> None)"

definition srl_statusErr :: "int \<Rightarrow> st_err" where
  "srl_statusErr status =
     (if status = 404 then NotFound
      else if status = 410 then Expired
      else if status = 507 \<or> status = 403 then Quota
      else HttpStatus status)"

definition srl_create :: "'s http \<Rightarrow> string \<Rightarrow> string \<Rightarrow> int \<Rightarrow> time \<Rightarrow> 's \<Rightarrow> st_err option \<times> 's" where
  "srl_create client token did sz expiry s =
     (case client (srl_req token ''POST'' drops_path (create_body did sz (format_rfc3339 expiry) False)
              [(''Content-Type'', ''application/json'')]) s of
        (None, s') \<Rightarrow> (Some TransportFailed, s')
      | (Some resp, s') \<Rightarrow>
          (if rs_status resp \<in> {200, 201, 409} then (None, s')
           else (Some (srl_statusErr (rs_status resp)), s')))"

definition srl_stat :: "'s http \<Rightarrow> string \<Rightarrow> string \<Rightarrow> 's \<Rightarrow> (st_err + relay_meta) \<times> 's" where
  "srl_stat client token did s =
     (case client (srl_req token ''GET'' (meta_url did) (Bytes []) []) s of
        (None, s') \<Rightarrow> (Inl TransportFailed, s')
      | (Some resp, s') \<Rightarrow>
          (if rs_status resp \<noteq> 200 then (Inl (srl_statusErr (rs_status resp)), s')
           else (case srl_parseMeta (rs_body resp) of None \<Rightarrow> Inl BadBody | Some m \<Rightarrow> Inr m, s')))"

definition srl_uploaded :: "'s http \<Rightarrow> string \<Rightarrow> string \<Rightarrow> 's \<Rightarrow> int \<times> 's" where
  "srl_uploaded client token did s =
     (case srl_stat client token did s of
        (Inl e, s') \<Rightarrow> (0, s')
      | (Inr m, s') \<Rightarrow> (rlm_Size m, s'))"

text \<open>One chunk is sent up to three times.\<close>

fun srl_try :: "'s http \<Rightarrow> request \<Rightarrow> nat \<Rightarrow> st_err \<Rightarrow> 's \<Rightarrow> st_err option \<times> 's" where
  "srl_try client rq 0 e s = (Some e, s)"
| "srl_try client rq (Suc n) e s =
     (case client rq s of
        (None, s') \<Rightarrow> srl_try client rq n TransportFailed s'
      | (Some resp, s') \<Rightarrow>
          (if rs_status resp \<in> {200, 201, 206} then (None, s')
           else srl_try client rq n (srl_statusErr (rs_status resp)) s'))"

definition srl_chunk_req :: "string \<Rightarrow> string \<Rightarrow> int \<Rightarrow> int \<Rightarrow> bytes \<Rightarrow> request" where
  "srl_chunk_req token did off sz buf =
     (let endb = off + int (length buf) - 1 in
      srl_req token ''PUT'' (data_path did) (Bytes buf)
        [(''Content-Type'', ''application/octet-stream''),
         (''Content-Range'', ''bytes '' @ format_int off @ ''-'' @ format_int endb @ ''/'' @ format_int sz)])"

function srl_put_loop ::
  "'s http \<Rightarrow> ctx \<Rightarrow> nat \<Rightarrow> string \<Rightarrow> string \<Rightarrow> nat \<Rightarrow> nat \<Rightarrow> bytes \<Rightarrow> 's \<Rightarrow> st_err option \<times> 's" where
  "srl_put_loop client ctx check token did off sz data s =
     (if off \<ge> sz then (None, s)
      else if ctx check then (Some CtxDone, s)
      else (let want = min relayChunkSize (sz - off); buf = take want data in
            if length buf < want then (Some (ShortRead (int (off + length buf)) (int sz)), s)
            else (case srl_try client (srl_chunk_req token did (int off) (int sz) buf) 3 TransportFailed s of
                    (Some e, s') \<Rightarrow> (Some e, s')
                  | (None, s') \<Rightarrow>
                      srl_put_loop client ctx (check + 1) token did (off + want) sz (drop want data) s')))"
  by pat_completeness auto
termination
  by (relation "measure (\<lambda>(client, ctx, check, token, did, off, sz, data, s). sz - off)")
    (auto simp: relayChunkSize_def)

declare srl_put_loop.simps [simp del]

definition srl_Put ::
  "'s http \<Rightarrow> string \<Rightarrow> ctx \<Rightarrow> string \<Rightarrow> reader \<Rightarrow> int \<Rightarrow> time \<Rightarrow> 's \<Rightarrow> st_err option \<times> 's" where
  "srl_Put client token ctx did r sz expiry s =
     (case storage_ValidateID did of
        Some e \<Rightarrow> (Some e, s)
      | None \<Rightarrow>
          (if ctx 0 then (Some CtxDone, s)
           else if sz < 0 then (Some NegativeSize, s)
           else case srl_create client token did sz expiry s of
                  (Some e, s1) \<Rightarrow> (Some e, s1)
                | (None, s1) \<Rightarrow>
                    (case srl_uploaded client token did s1 of
                       (off0, s2) \<Rightarrow>
                         (let off = (if off0 < 0 then 0 else off0) in
                          if off > sz then (Some (OffsetRange off sz), s2)
                          else if length (rd_data r) < nat off then (Some ReadFailed, s2)
                          else if sz = 0
                          then (case client (srl_req token ''PUT'' (data_path did) (Bytes [])
                                    [(''Content-Type'', ''application/octet-stream'')]) s2 of
                                  (None, s3) \<Rightarrow> (Some TransportFailed, s3)
                                | (Some resp, s3) \<Rightarrow>
                                    (if rs_status resp \<noteq> 200 \<and> rs_status resp \<noteq> 201
                                     then (Some (srl_statusErr (rs_status resp)), s3) else (None, s3)))
                          else srl_put_loop client ctx 1 token did (nat off) (nat sz)
                                 (drop (nat off) (rd_data r)) s2))))"

definition srl_Get :: "'s http \<Rightarrow> string \<Rightarrow> string \<Rightarrow> int \<Rightarrow> 's \<Rightarrow> (st_err + body) \<times> 's" where
  "srl_Get client token did off s =
     (case storage_ValidateID did of
        Some e \<Rightarrow> (Inl e, s)
      | None \<Rightarrow>
          (if off < 0 then (Inl (OffsetRange off 0), s)
           else case client (srl_req token ''GET'' (data_path did) (Bytes [])
                      (if off > 0 then [(''Range'', ''bytes='' @ format_int off @ ''-'')] else [])) s of
                  (None, s') \<Rightarrow> (Inl TransportFailed, s')
                | (Some resp, s') \<Rightarrow>
                    (if rs_status resp = 200 \<or> rs_status resp = 206 then (Inr (rs_body resp), s')
                     else (Inl (srl_statusErr (rs_status resp)), s'))))"

definition srl_Delete :: "'s http \<Rightarrow> string \<Rightarrow> string \<Rightarrow> 's \<Rightarrow> st_err option \<times> 's" where
  "srl_Delete client token did s =
     (case storage_ValidateID did of
        Some e \<Rightarrow> (Some e, s)
      | None \<Rightarrow>
          (case client (srl_req token ''DELETE'' (drop_path did) (Bytes []) []) s of
             (None, s') \<Rightarrow> (Some TransportFailed, s')
           | (Some resp, s') \<Rightarrow>
               (if rs_status resp = 404 then (None, s')
                else if rs_status resp \<noteq> 200 \<and> rs_status resp \<noteq> 204
                then (Some (srl_statusErr (rs_status resp)), s') else (None, s'))))"

definition srl_Exists :: "'s http \<Rightarrow> string \<Rightarrow> time \<Rightarrow> string \<Rightarrow> 's \<Rightarrow> (st_err + bool) \<times> 's" where
  "srl_Exists client token now did s =
     (case storage_ValidateID did of
        Some e \<Rightarrow> (Inl e, s)
      | None \<Rightarrow>
          (case srl_stat client token did s of
             (Inl e, s') \<Rightarrow> (if e = NotFound \<or> e = Expired then Inr False else Inl e, s')
           | (Inr m, s') \<Rightarrow>
               (Inr (\<not> (rlm_Expiry m \<noteq> 0 \<and> now > rlm_Expiry m)), s')))"

definition srl_Stat :: "'s http \<Rightarrow> string \<Rightarrow> time \<Rightarrow> string \<Rightarrow> 's \<Rightarrow> (st_err + int \<times> time) \<times> 's" where
  "srl_Stat client token now did s =
     (case storage_ValidateID did of
        Some e \<Rightarrow> (Inl e, s)
      | None \<Rightarrow>
          (case srl_stat client token did s of
             (Inl e, s') \<Rightarrow> (Inl e, s')
           | (Inr m, s') \<Rightarrow>
               (if rlm_Expiry m \<noteq> 0 \<and> now > rlm_Expiry m then Inl Expired
                else Inr (rlm_Size m, rlm_Expiry m), s')))"

definition srl_Health :: "'s http \<Rightarrow> string \<Rightarrow> 's \<Rightarrow> st_err option \<times> 's" where
  "srl_Health client token s =
     (case client (srl_req token ''GET'' ''/api/v1/health'' (Bytes []) []) s of
        (None, s') \<Rightarrow> (Some TransportFailed, s')
      | (Some resp, s') \<Rightarrow>
          (if rs_status resp \<noteq> 200 then (Some (srl_statusErr (rs_status resp)), s') else (None, s')))"

section \<open>app.RelayClient\<close>

datatype arl_err = ArlTransport | ArlNotFound | ArlStatus int | ArlBadBody

definition arl_req ::
  "'s http \<Rightarrow> string \<Rightarrow> string \<Rightarrow> string \<Rightarrow> reader \<Rightarrow> body \<Rightarrow> (string \<times> string) list \<Rightarrow> 's \<Rightarrow> response option \<times> 's" where
  "arl_req client token method path r b hdr s =
     client \<lparr>rq_method = method, rq_path = path,
       rq_headers = (if token \<noteq> [] then [(TokenHeader, token)] else []) @ hdr,
       rq_body = b, rq_fails = rd_fails r\<rparr> s"

definition no_body :: reader where
  "no_body = reader_of []"

definition arl_Create :: "'s http \<Rightarrow> string \<Rightarrow> string \<Rightarrow> int \<Rightarrow> time \<Rightarrow> bool \<Rightarrow> 's \<Rightarrow> arl_err option \<times> 's" where
  "arl_Create client token did sz expiry ot s =
     (case arl_req client token ''POST'' drops_path no_body (create_body did sz (format_rfc3339 expiry) ot)
             [(''Content-Type'', ''application/json'')] s of
        (None, s') \<Rightarrow> (Some ArlTransport, s')
      | (Some resp, s') \<Rightarrow>
          (if rs_status resp \<noteq> 200 \<and> rs_status resp \<noteq> 201 then (Some (ArlStatus (rs_status resp)), s')
           else (None, s')))"

definition arl_PutData :: "'s http \<Rightarrow> string \<Rightarrow> string \<Rightarrow> reader \<Rightarrow> int \<Rightarrow> 's \<Rightarrow> arl_err option \<times> 's" where
  "arl_PutData client token did r sz s =
     (let hdr = (''Content-Type'', ''application/octet-stream'') #
            (if sz \<ge> 0 then [(''Content-Range'', ''bytes 0-'' @ format_int (sz - 1) @ ''/'' @ format_int sz)] else [])
      in case arl_req client token ''PUT'' (data_path did) r (Bytes (rd_data r)) hdr s of
           (None, s') \<Rightarrow> (Some ArlTransport, s')
         | (Some resp, s') \<Rightarrow>
             (if rs_status resp \<noteq> 200 \<and> rs_status resp \<noteq> 201 then (Some (ArlStatus (rs_status resp)), s')
              else (None, s')))"

record app_relay_meta =
  arm_ID :: string
  arm_SizeBytes :: int
  arm_Expiry :: string
  arm_OneTime :: bool
  arm_Uploaded :: int

definition obj_int :: "string \<Rightarrow> body \<Rightarrow> int" where
  "obj_int k b = (case b of Obj v \<Rightarrow> (case map_of v k of Some (JInt n) \<Rightarrow> n | _ \<Rightarrow> 0) | _ \<Rightarrow> 0)"

definition arl_Meta :: "'s http \<Rightarrow> string \<Rightarrow> string \<Rightarrow> 's \<Rightarrow> (arl_err + app_relay_meta) \<times> 's" where
  "arl_Meta client token did s =
     (case arl_req client token ''GET'' (meta_url did) no_body (Bytes []) [] s of
        (None, s') \<Rightarrow> (Inl ArlTransport, s')
      | (Some resp, s') \<Rightarrow>
          (if rs_status resp = 404 then (Inl ArlNotFound, s')
           else if rs_status resp \<noteq> 200 then (Inl (ArlStatus (rs_status resp)), s')
           else (case rs_body resp of
                   Obj v \<Rightarrow> Inr \<lparr>arm_ID = obj_str ''id'' (Obj v), arm_SizeBytes = obj_int ''size_bytes'' (Obj v),
                     arm_Expiry = obj_str ''expiry_rfc3339'' (Obj v), arm_OneTime = obj_bool ''one_time'' (Obj v),
                     arm_Uploaded = obj_int ''uploaded_bytes'' (Obj v)\<rparr>
                 | _ \<Rightarrow> Inl ArlBadBody, s')))"

definition arl_GetDataRange :: "'s http \<Rightarrow> string \<Rightarrow> string \<Rightarrow> int \<Rightarrow> 's \<Rightarrow> (arl_err + body) \<times> 's" where
  "arl_GetDataRange client token did off s =
     (case arl_req client token ''GET'' (data_path did) no_body (Bytes [])
             (if off > 0 then [(''Range'', ''bytes='' @ format_int off @ ''-'')] else []) s of
        (None, s') \<Rightarrow> (Inl ArlTransport, s')
      | (Some resp, s') \<Rightarrow>
          (if rs_status resp = 404 then (Inl ArlNotFound, s')
           else if rs_status resp \<noteq> 200 \<and> rs_status resp \<noteq> 206 then (Inl (ArlStatus (rs_status resp)), s')
           else (Inr (rs_body resp), s')))"

definition arl_DeleteDrop :: "'s http \<Rightarrow> string \<Rightarrow> string \<Rightarrow> 's \<Rightarrow> arl_err option \<times> 's" where
  "arl_DeleteDrop client token did s =
     (case arl_req client token ''DELETE'' (drop_path did) no_body (Bytes []) [] s of
        (None, s') \<Rightarrow> (Some ArlTransport, s')
      | (Some resp, s') \<Rightarrow>
          (if rs_status resp = 404 then (Some ArlNotFound, s')
           else if rs_status resp \<noteq> 200 \<and> rs_status resp \<noteq> 204 then (Some (ArlStatus (rs_status resp)), s')
           else (None, s')))"

definition arl_Health :: "'s http \<Rightarrow> string \<Rightarrow> 's \<Rightarrow> arl_err option \<times> 's" where
  "arl_Health client token s =
     (case arl_req client token ''GET'' ''/api/v1/health'' no_body (Bytes []) [] s of
        (None, s') \<Rightarrow> (Some ArlTransport, s')
      | (Some resp, s') \<Rightarrow>
          (if rs_status resp \<noteq> 200 then (Some (ArlStatus (rs_status resp)), s') else (None, s')))"

end
