(* ===== verification/RelayEnd2End.thy ===== *)
theory RelayEnd2End
  imports RelayProps RelayClients
begin

text \<open>
  The relay's clients against the relay server: requests built by the clients go through the
  server's routing and handlers. A drop that is created, uploaded in pieces and fetched comes
  back as it was; \<^verbatim>\<open>storage.RelayClient\<close> cannot upload what it creates.
\<close>

section \<open>The server as the far end of a client\<close>

definition relay_http :: "prims \<Rightarrow> time \<Rightarrow> bytes option \<Rightarrow> nat \<Rightarrow> relay http" where
  "relay_http P now rnd conn rq s = (case relay_dispatch P now rnd conn rq s of (resp, s') \<Rightarrow> (Some resp, s'))"

lemma split_on_no: "c \<notin> set a \<Longrightarrow> split_on c a = [a]"
  by (induction a) auto

lemma split_on_append: "c \<notin> set a \<Longrightarrow> split_on c (a @ c # b) = a # split_on c b"
  by (induction a) auto

lemma split_paths [simp]:
  assumes "CHR ''/'' \<notin> set did"
  shows "split_on CHR ''/'' (data_path did) = [[], ''api'', ''v1'', ''drops'', did, ''data'']"
    "split_on CHR ''/'' (meta_url did) = [[], ''api'', ''v1'', ''drops'', did, ''meta'']"
    "split_on CHR ''/'' (drop_path did) = [[], ''api'', ''v1'', ''drops'', did]"
  using split_on_append [OF assms, of "''data''"] split_on_append [OF assms, of "''meta''"] split_on_no [OF assms]
  by (simp_all add: data_path_def meta_url_def drop_path_def)

lemma split_drops_path [simp]: "split_on CHR ''/'' drops_path = [[], ''api'', ''v1'', ''drops'']"
  by (simp add: drops_path_def)

lemma validID_no_slash: "relay_validID did \<Longrightarrow> CHR ''/'' \<notin> set did"
proof -
  have "\<not> id_char (CHR ''/'')" by (simp add: id_char_def is_upper_def is_lower_def is_digit_def)
  then show "relay_validID did \<Longrightarrow> CHR ''/'' \<notin> set did"
    by (auto simp: relay_validID_def list_all_iff)
qed

text \<open>A drop as the server holds it, and a token it accepts.\<close>

definition holds :: "relay \<Rightarrow> string \<Rightarrow> rmeta \<Rightarrow> bytes \<Rightarrow> bool" where
  "holds s did m b \<longleftrightarrow> relay_loadMeta (rl_dir s) did = Some m \<and> dget (rl_dir s) (binPath did) = Some (Blob b) \<and>
     rm_ID m = did \<and> relay_validID did"

definition opens :: "prims \<Rightarrow> string \<Rightarrow> rmeta \<Rightarrow> bool" where
  "opens P token m \<longleftrightarrow> token \<noteq> [] \<and> rm_TokenHash m \<noteq> [] \<and> relay_tokenHash P token = rm_TokenHash m"

lemma checkToken_opens: "opens P token m \<Longrightarrow> header TokenHeader rq = token \<Longrightarrow> relay_checkToken P rq (rm_TokenHash m)"
  by (simp add: opens_def relay_checkToken_def Let_def)

section \<open>Uploading through the client\<close>

lemma put_offset_ranged:
  assumes "header ''Content-Range'' rq = transport_FormatContentRange (rm_UploadedBytes m) e (rm_SizeBytes m)"
    and "0 \<le> rm_UploadedBytes m" "rm_UploadedBytes m \<le> e" "e < rm_SizeBytes m" "rm_SizeBytes m < 2 ^ 63"
  shows "relay_put_offset rq m = Inr (rm_UploadedBytes m)"
proof -
  let ?v = "transport_FormatContentRange (rm_UploadedBytes m) e (rm_SizeBytes m)"
  have p: "transport_ParseContentRange ?v = Inr \<lparr>cr_Start = rm_UploadedBytes m, cr_End = e, cr_Total = rm_SizeBytes m\<rparr>"
    using assms(2-) by (rule ParseContentRange_format)
  have t: "transport_ParseContentRange (trim_space ?v) = transport_ParseContentRange ?v"
    by (simp add: transport_ParseContentRange_def)
  have "trim_space ?v \<noteq> []"
  proof
    assume "trim_space ?v = []"
    then have "transport_ParseContentRange ?v = Inl BadContentRange"
      by (simp add: transport_ParseContentRange_def has_prefix_def)
    with p show False by simp
  qed
  then show ?thesis unfolding relay_put_offset_def assms(1) by (simp add: t p)
qed

lemma handlePut_append:
  assumes st: "holds s did m b" "rm_UploadedBytes m = int (length b)" and tok: "relay_checkToken P rq (rm_TokenHash m)"
    and live: "\<not> rm_expired now m" and off: "relay_put_offset rq m = Inr (rm_UploadedBytes m)"
    and body: "rq_body rq = Bytes chunk" "\<not> rq_fails rq" "chunk \<noteq> []"
    and fits: "int (length b) + int (length chunk) \<le> rm_SizeBytes m" "rm_SizeBytes m < 2 ^ 63 - 1"
  obtains resp s' where "relay_handlePut P now did rq s = (resp, s')" "rs_status resp = 200"
    "holds s' did (m\<lparr>rm_UploadedBytes := int (length b) + int (length chunk)\<rparr>) (b @ chunk)"
proof -
  define remain where "remain = rm_SizeBytes m - int (length b)"
  have "0 < int (length chunk)" using body(3) by simp
  with fits have remain: "int (length chunk) \<le> remain" "0 < remain" "in_int64 (remain + 1)"
    unfolding remain_def in_int64_def by linarith+
  have copy: "relay_copyN (int (length b)) (remain + 1) rq b = (b @ chunk, Some (int (length chunk)))"
    using remain body by (simp add: relay_copyN_def body_bytes_def write_at_def nat_add_distrib)
  let ?m = "m\<lparr>rm_UploadedBytes := int (length b) + int (length chunk)\<rparr>"
  let ?s = "s\<lparr>rl_dir := relay_saveMeta ?m (dput (binPath did) (Blob (b @ chunk)) (rl_dir s)),
    rl_bytesUp := rl_bytesUp s + int (length chunk)\<rparr>"
  have "\<exists>resp. relay_handlePut P now did rq s = (resp, ?s) \<and> rs_status resp = 200"
    using st tok live off copy remain
    by (simp add: relay_handlePut_def holds_def remain_def [symmetric] Let_def)
  moreover have "holds ?s did ?m (b @ chunk)"
    using st(1) by (simp add: holds_def relay_loadMeta_iff)
  ultimately show thesis using that by blast
qed

lemma dispatch_put:
  "relay_validID did \<Longrightarrow> rq_method rq = ''PUT'' \<Longrightarrow> rq_path rq = data_path did \<Longrightarrow>
    relay_dispatch P now rnd conn rq s = relay_handlePut P now did rq s"
  by (simp add: relay_dispatch_def validID_no_slash)

lemma dispatch_get:
  "relay_validID did \<Longrightarrow> rq_method rq = ''GET'' \<Longrightarrow> rq_path rq = data_path did \<Longrightarrow>
    relay_dispatch P now rnd conn rq s = relay_handleGet P now conn did rq s"
  by (simp add: relay_dispatch_def validID_no_slash)

lemma PutResume_append:
  assumes st: "holds s did m b" "rm_UploadedBytes m = int (length b)" and tok: "opens P token m"
    and live: "\<not> rm_expired now m" and chunk: "chunk \<noteq> []"
    and fits: "int (length b) + int (length chunk) \<le> rm_SizeBytes m" "rm_SizeBytes m < 2 ^ 63 - 1"
  shows "\<exists>s'. rcl_PutResume (relay_http P now rnd conn) token did (rm_SizeBytes m) (int (length b)) chunk s =
      (None, s') \<and> holds s' did (m\<lparr>rm_UploadedBytes := int (length b) + int (length chunk)\<rparr>) (b @ chunk)"
proof -
  let ?e = "int (length b) + int (length chunk) - 1"
  define rq where "rq = \<lparr>rq_method = ''PUT'', rq_path = data_path did,
      rq_headers = [(''Content-Type'', ''application/octet-stream''),
        (''Content-Range'', transport_FormatContentRange (int (length b)) ?e (rm_SizeBytes m)), (TokenHeader, token)],
      rq_body = Bytes chunk, rq_fails = False\<rparr>"
  have h: "header ''Content-Range'' rq = transport_FormatContentRange (rm_UploadedBytes m) ?e (rm_SizeBytes m)"
    "header TokenHeader rq = token"
    by (simp_all add: rq_def header_def TokenHeader_def st(2))
  have off: "relay_put_offset rq m = Inr (rm_UploadedBytes m)"
    using h(1) by (rule put_offset_ranged) (use fits chunk st(2) in \<open>cases chunk; simp\<close>)+
  have vid: "relay_validID did" using st(1) by (simp add: holds_def)
  obtain resp s' where p: "relay_handlePut P now did rq s = (resp, s')" "rs_status resp = 200"
    "holds s' did (m\<lparr>rm_UploadedBytes := int (length b) + int (length chunk)\<rparr>) (b @ chunk)"
    by (rule handlePut_append [OF st checkToken_opens [OF tok h(2)] live off _ _ chunk fits])
      (simp_all add: rq_def)
  have "rcl_PutResume (relay_http P now rnd conn) token did (rm_SizeBytes m) (int (length b)) chunk s = (None, s')"
    using p(1,2) dispatch_put [OF vid, of rq P now rnd conn s]
    by (simp add: rcl_PutResume_def rcl_putRange_def relay_http_def rq_def)
  then show ?thesis using p(3) by blast
qed

text \<open>Uploading the pieces one after the other, each at the offset the previous ones leave.\<close>

fun rcl_upload :: "'s http \<Rightarrow> string \<Rightarrow> string \<Rightarrow> int \<Rightarrow> int \<Rightarrow> bytes list \<Rightarrow> 's \<Rightarrow> rcl_err option \<times> 's" where
  "rcl_upload client token did fsize off [] s = (None, s)"
| "rcl_upload client token did fsize off (c # cs) s =
     (case rcl_PutResume client token did fsize off c s of
        (Some e, s') \<Rightarrow> (Some e, s')
      | (None, s') \<Rightarrow> rcl_upload client token did fsize (off + int (length c)) cs s')"

lemma rcl_upload_ok:
  assumes "holds s did m b" "rm_UploadedBytes m = int (length b)" "opens P token m" "\<not> rm_expired now m"
    and "\<forall>c \<in> set cs. c \<noteq> []" "int (length b) + int (length (concat cs)) \<le> rm_SizeBytes m"
    and "rm_SizeBytes m < 2 ^ 63 - 1"
  shows "\<exists>s'. rcl_upload (relay_http P now rnd conn) token did (rm_SizeBytes m) (int (length b)) cs s = (None, s') \<and>
    holds s' did (m\<lparr>rm_UploadedBytes := int (length b) + int (length (concat cs))\<rparr>) (b @ concat cs)"
  using assms
proof (induction cs arbitrary: s m b)
  case Nil
  have "m\<lparr>rm_UploadedBytes := int (length b)\<rparr> = m"
    unfolding Nil.prems(2) [symmetric] by (cases m) simp
  with Nil.prems(1) show ?case by simp
next
  case (Cons c cs)
  let ?m = "m\<lparr>rm_UploadedBytes := int (length b) + int (length c)\<rparr>"
  from PutResume_append [OF Cons.prems(1-4), of c rnd conn] Cons.prems(5-7) obtain s1 where
    s1: "rcl_PutResume (relay_http P now rnd conn) token did (rm_SizeBytes m) (int (length b)) c s = (None, s1)"
      "holds s1 did ?m (b @ c)"
    by auto
  have "opens P token ?m" "\<not> rm_expired now ?m"
    using Cons.prems(3,4) by (simp_all add: opens_def rm_expired_def)
  from Cons.IH [OF s1(2) _ this] Cons.prems(5-7) obtain s' where
    "rcl_upload (relay_http P now rnd conn) token did (rm_SizeBytes m) (int (length (b @ c))) cs s1 = (None, s')"
    "holds s' did (?m\<lparr>rm_UploadedBytes := int (length (b @ c)) + int (length (concat cs))\<rparr>) ((b @ c) @ concat cs)"
    by auto
  then show ?case using s1(1) by (simp add: add_ac)
qed

section \<open>Creating and fetching through the client\<close>

lemma dispatch_create:
  "rq_method rq = ''POST'' \<Longrightarrow> rq_path rq = drops_path \<Longrightarrow>
    relay_dispatch P now rnd conn rq s = relay_handleCreate P now rnd rq s"
  by (simp add: relay_dispatch_def)

text \<open>What a relay asks of a new drop, and that it has room for it.\<close>

definition room_for :: "time \<Rightarrow> string \<Rightarrow> int \<Rightarrow> string \<Rightarrow> relay \<Rightarrow> bool" where
  "room_for now did sz e s \<longleftrightarrow>
     relay_validID did \<and> 0 < sz \<and> sz < 2 ^ 63 - 1 \<and>
     (case parse_rfc3339 e of Some ex \<Rightarrow> now < ex | None \<Rightarrow> False) \<and>
     (rl_quota s \<le> 0 \<or> wrap64 (relay_storedBytes (rl_dir s) + sz) \<le> rl_quota s) \<and>
     relay_loadMeta (rl_dir s) did = None \<and> drop_files s did = (None, None)"

lemma rcl_Create_ok:
  assumes room: "room_for now did sz e s" and raw: "raw \<noteq> []"
    and sha: "p_sha256 P (bytes_of (hex_encode raw)) \<noteq> []"
  obtains m s' where "rcl_Create (relay_http P now (Some raw) conn) did sz e ot s = (Inr (hex_encode raw), s')"
    "holds s' did m []" "opens P (hex_encode raw) m" "rm_UploadedBytes m = 0" "rm_SizeBytes m = sz"
    "rm_Expiry m = e" "rm_OneTime m = ot" "\<not> rm_ServedFull m"
proof -
  define req where "req = \<lparr>cq_ID = did, cq_SizeBytes = sz, cq_Expiry = e, cq_OneTime = ot\<rparr>"
  define rq where "rq = \<lparr>rq_method = ''POST'', rq_path = drops_path,
    rq_headers = [(''Content-Type'', ''application/json'')], rq_body = create_body did sz e ot, rq_fails = False\<rparr>"
  define m where "m = new_meta P now (hex_encode raw) req"
  have "decode_create (create_body did sz e ot) = Some req"
    using room by (simp add: decode_create_def create_body_def js_str_def js_int_def js_bool_def req_def
      room_for_def in_int64_def)
  then have chk: "relay_create_check now rq s = Inr req"
    using room by (auto simp: relay_create_check_def rq_def req_def room_for_def split: option.splits)
  define s' where "s' = s\<lparr>rl_dir := dput (binPath did) (Blob []) (relay_saveMeta m (rl_dir s)),
      rl_tokens := dput did (rm_TokenHash m) (rl_tokens s)\<rparr>"
  have "relay_dispatch P now (Some raw) conn rq s =
      (writeJSON 201 [(''ok'', JBool True), (''id'', JStr did), (''token'', JStr (hex_encode raw))], s')"
    using room by (simp add: dispatch_create rq_def relay_handleCreate_def chk [unfolded rq_def]
      relay_create_commit_def relay_newToken_def room_for_def drop_files_def req_def m_def s'_def Let_def)
  then have 1: "rcl_Create (relay_http P now (Some raw) conn) did sz e ot s = (Inr (hex_encode raw), s')"
    by (simp add: rcl_Create_def relay_http_def rq_def writeJSON_def obj_bool_def obj_str_def Let_def)
  have 2: "holds s' did m []"
    using room by (simp add: holds_def s'_def m_def req_def relay_loadMeta_iff room_for_def)
  have 3: "opens P (hex_encode raw) m"
    using sha raw by (simp add: opens_def m_def relay_tokenHash_def)
  show thesis by (rule that [OF 1 2 3]) (simp_all add: m_def req_def)
qed

lemma trim_blank_digits: "list_all is_digit d \<Longrightarrow> trim_blank d = d"
proof -
  have b: "\<not> is_blank c" if "is_digit c" for c using that by (auto simp: is_digit_def is_blank_def)
  have "dropWhile is_blank d = d" if "list_all is_digit d" for d
    using that b by (cases d) auto
  then show "list_all is_digit d \<Longrightarrow> trim_blank d = d"
    by (simp add: trim_blank_def list_all_iff)
qed

lemma trim_blank_dash: "trim_blank (format_nat n @ ''-'') = format_nat n @ ''-''"
proof -
  have b: "\<not> is_blank CHR ''-''" "\<not> is_blank (hd (format_nat n))"
    using format_nat_hd [of n] by (auto simp: is_digit_def is_blank_def)
  then have "dropWhile is_blank (format_nat n @ ''-'') = format_nat n @ ''-''"
    by (cases "format_nat n") auto
  with b(1) show ?thesis by (simp add: trim_blank_def)
qed

lemma parse_range_from:
  assumes "off < length b" "int (length b) < 2 ^ 63"
  shows "parse_range (''bytes='' @ format_nat off @ ''-'') (int (length b)) =
    Some [RangeAt (int off) (int (length b) - int off)]"
proof -
  let ?d = "format_nat off"
  have digits: "is_digit c" if "c \<in> set ?d" for c using format_nat_digits that by blast
  have nd: "CHR '','' \<notin> set (?d @ ''-'')" "CHR ''-'' \<notin> set ?d"
    using digits by (force simp: is_digit_def)+
  have "trim_blank ?d = ?d" using digits by (simp add: trim_blank_digits list_all_iff)
  moreover have "index_byte (?d @ ''-'') CHR ''-'' = Some (length ?d)"
    using nd(2) index_byte_append [of "CHR ''-''" ?d "[]"] by simp
  moreover have "parse_int ?d = Some (int off)" using assms by (intro parse_format_nat) linarith
  moreover have "trim_blank [] = []" by (simp add: trim_blank_def)
  ultimately have i: "parse_range_item (int (length b)) (?d @ ''-'') = RangeAt (int off) (int (length b) - int off)"
    using assms(1) unfolding parse_range_item_def trim_blank_dash Let_def
    by simp
  show ?thesis
    using i split_on_no [OF nd(1)] trim_prefix_append [of "''bytes=''" "?d @ ''-''"]
      has_prefix_append [of "''bytes=''" "?d @ ''-''"]
    unfolding parse_range_def Let_def by simp
qed

lemma serveContent_from:
  assumes "off < length b" "int (length b) < 2 ^ 63"
  shows "rs_status (serveContent (''bytes='' @ format_nat off @ ''-'') False b) = 206"
    "rs_body (serveContent (''bytes='' @ format_nat off @ ''-'') False b) = Bytes (drop off b)"
  using parse_range_from [OF assms] assms(1)
  by (simp_all add: serveContent_def range_len_def serve_reply_def Let_def)

lemma rcl_Get_from:
  assumes st: "holds s did m b" and tok: "opens P token m" and live: "\<not> rm_expired now m" "\<not> rm_ServedFull m"
    and off: "off < length b" "int (length b) < 2 ^ 63" "length b \<le> conn"
  obtains resp s' where "rcl_Get (relay_http P now rnd conn) token did (int off) s = (Inr resp, s')"
    "rs_body resp = Bytes (drop off b)"
proof -
  let ?rq = "fetch_request (data_path did) (int off) token"
  have h: "header TokenHeader ?rq = token"
    "header ''Range'' ?rq = (if off = 0 then [] else ''bytes='' @ format_nat off @ ''-'')"
    using tok by (simp_all add: fetch_request_def header_def TokenHeader_def opens_def format_int_nonneg)
  have chk: "relay_checkToken P ?rq (rm_TokenHash m)" using tok h(1) by (rule checkToken_opens)
  have o: "\<exists>d. relay_get_open P now did ?rq s = (Inr d, s) \<and> dl_content d = b \<and>
      dl_range d = header ''Range'' ?rq \<and> \<not> dl_head d"
    using st chk live by (simp add: relay_get_open_def holds_def fetch_request_def Let_def)
  have full: "serveContent [] False b = serve_reply False 200 [] (Bytes b)"
    by (simp add: serveContent_def parse_range_def Let_def)
  have r: "rs_status (deliver conn (serveContent (header ''Range'' ?rq) False b)) \<in> {200, 206}"
    "rs_body (deliver conn (serveContent (header ''Range'' ?rq) False b)) = Bytes (drop off b)"
    using serveContent_from [OF off(1,2)] off(3) unfolding h(2)
    by (simp_all add: full serve_reply_def deliver_def)
  have vid: "relay_validID did" using st by (simp add: holds_def)
  have "\<exists>resp s'. relay_handleGet P now conn did ?rq s = (resp, s') \<and> rs_status resp \<in> {200, 206} \<and>
      rs_body resp = Bytes (drop off b)"
    using o r by (auto simp: relay_handleGet_def relay_get_serve_def Let_def)
  then show thesis
    using that dispatch_get [OF vid, of ?rq P now rnd conn s]
    by (auto simp: rcl_Get_def transport_FetchRange_def relay_http_def fetch_request_def)
qed

section \<open>Create, upload, download\<close>

text \<open>
  C17 A drop sent through the relay client arrives as it was. A client that creates a drop the
  relay has room for, uploads the payload in any division into non-empty pieces with
  \<^verbatim>\<open>PutResume\<close> and downloads it before it expires, from any offset, gets exactly the rest of the
  payload from that offset; no step fails.
\<close>

theorem relay_upload_download:
  fixes cs :: "bytes list"
  assumes "room_for t did (int (length (concat cs))) e s" "\<forall>c \<in> set cs. c \<noteq> []"
    and "parse_rfc3339 e = Some ex" "u < ex" "v < ex"
    and "raw \<noteq> []" "p_sha256 P (bytes_of (hex_encode raw)) \<noteq> []"
    and "off < length (concat cs)" "length (concat cs) \<le> conn"
  shows "\<exists>token s1 s2 s3 resp.
    rcl_Create (relay_http P t (Some raw) conn) did (int (length (concat cs))) e ot s = (Inr token, s1) \<and>
    rcl_upload (relay_http P u rnd conn) token did (int (length (concat cs))) 0 cs s1 = (None, s2) \<and>
    rcl_Get (relay_http P v rnd conn) token did (int off) s2 = (Inr resp, s3) \<and>
    rs_body resp = Bytes (drop off (concat cs))"
proof -
  let ?b = "concat cs"
  have len: "int (length ?b) < 2 ^ 63 - 1" using assms(1) by (simp add: room_for_def)
  obtain m s1 where c: "rcl_Create (relay_http P t (Some raw) conn) did (int (length ?b)) e ot s =
      (Inr (hex_encode raw), s1)" "holds s1 did m []" "opens P (hex_encode raw) m" "rm_UploadedBytes m = 0"
    "rm_SizeBytes m = int (length ?b)" "rm_Expiry m = e" "\<not> rm_ServedFull m"
    by (rule rcl_Create_ok [OF assms(1,6,7), of conn ot])
  have live: "\<not> rm_expired u m" "\<not> rm_expired v m" using assms(3-5) c(6) by (simp_all add: rm_expired_def)
  let ?m = "m\<lparr>rm_UploadedBytes := int (length ?b)\<rparr>"
  obtain s2 where up: "rcl_upload (relay_http P u rnd conn) (hex_encode raw) did (int (length ?b)) 0 cs s1 = (None, s2)"
    "holds s2 did ?m ?b"
    using rcl_upload_ok [OF c(2) _ c(3) live(1) assms(2), of rnd conn] c(4,5) len by auto
  have m: "opens P (hex_encode raw) ?m" "\<not> rm_expired v ?m" "\<not> rm_ServedFull ?m"
    using c(3,7) live(2) by (simp_all add: opens_def rm_expired_def)
  have len': "int (length ?b) < 2 ^ 63" using len by simp
  obtain resp s3 where g: "rcl_Get (relay_http P v rnd conn) (hex_encode raw) did (int off) s2 = (Inr resp, s3)"
    "rs_body resp = Bytes (drop off ?b)"
    by (rule rcl_Get_from [OF up(2) m assms(8) len' assms(9), of rnd])
  show ?thesis using c(1) up(1) g by blast
qed

theorem relay_upload_download_witness:
  "\<exists>token s1 s2 s3 resp.
    rcl_Create (relay_http demo_prims 0 (Some [7]) 3) ''a'' 3 ''2030-01-01T00:00:00Z'' True (demo_empty 100) =
      (Inr token, s1) \<and>
    rcl_upload (relay_http demo_prims 1 None 3) token ''a'' 3 0 [[1, 2], [3]] s1 = (None, s2) \<and>
    rcl_Get (relay_http demo_prims 2 None 3) token ''a'' 1 s2 = (Inr resp, s3) \<and>
    rs_body resp = Bytes [2, 3]"
proof -
  have "room_for 0 ''a'' 3 ''2030-01-01T00:00:00Z'' (demo_empty 100)" by code_simp
  moreover have "case parse_rfc3339 ''2030-01-01T00:00:00Z'' of Some ex \<Rightarrow> 1 < ex \<and> 2 < ex | None \<Rightarrow> False"
    by code_simp
  moreover have "p_sha256 demo_prims (bytes_of (hex_encode [7])) \<noteq> []" by code_simp
  ultimately show ?thesis
    using relay_upload_download [of 0 "''a''" "[[1, 2], [3]]" "''2030-01-01T00:00:00Z''" "demo_empty 100" _ 1 2
        "[7]" demo_prims 1 3 True None]
    by (auto split: option.splits)
qed

section \<open>storage.RelayClient against the relay\<close>

text \<open>\<^verbatim>\<open>storage.RelayClient\<close> sends its configured token and never learns the one the relay made.\<close>

definition locked_out :: "prims \<Rightarrow> string \<Rightarrow> relay \<Rightarrow> string \<Rightarrow> bool" where
  "locked_out P token s did \<longleftrightarrow> relay_validID did \<and>
     (\<exists>m. relay_loadMeta (rl_dir s) did = Some m \<and> rm_TokenHash m \<noteq> relay_tokenHash P token)"

lemma locked_out_check:
  "rm_TokenHash m \<noteq> relay_tokenHash P token \<Longrightarrow> header TokenHeader rq = token \<Longrightarrow>
    \<not> relay_checkToken P rq (rm_TokenHash m)"
  by (simp add: relay_checkToken_def Let_def)

lemma dispatch_meta:
  "relay_validID did \<Longrightarrow> rq_method rq = ''GET'' \<Longrightarrow> rq_path rq = meta_url did \<Longrightarrow>
    relay_dispatch P now rnd conn rq s = relay_handleMeta P now did rq s"
  by (simp add: relay_dispatch_def validID_no_slash)

lemma srl_req_sel [simp]:
  "rq_method (srl_req token meth path b hs) = meth" "rq_path (srl_req token meth path b hs) = path"
  "rq_body (srl_req token meth path b hs) = b" "\<not> rq_fails (srl_req token meth path b hs)"
  by (simp_all add: srl_req_def)

lemma srl_req_token:
  "list_all (\<lambda>(k, v). k \<noteq> TokenHeader) hs \<Longrightarrow> header TokenHeader (srl_req token meth path b hs) = token"
  by (induction hs) (auto simp: srl_req_def header_def)

lemma locked_out_stat:
  assumes "locked_out P token s did"
  shows "srl_uploaded (relay_http P now rnd conn) token did s = (0, s)"
proof -
  let ?rq = "srl_req token ''GET'' (meta_url did) (Bytes []) []"
  from assms obtain m where m: "relay_validID did" "relay_loadMeta (rl_dir s) did = Some m"
    "rm_TokenHash m \<noteq> relay_tokenHash P token"
    by (auto simp: locked_out_def)
  have "\<not> relay_checkToken P ?rq (rm_TokenHash m)" by (rule locked_out_check [OF m(3) srl_req_token]) simp
  then have "relay_http P now rnd conn ?rq s = (Some (writeErr 401 ''unauthorized''), s)"
    using m by (simp add: relay_http_def dispatch_meta relay_handleMeta_def relay_meta_read_def)
  then show ?thesis by (simp add: srl_uploaded_def srl_stat_def)
qed

lemma locked_out_put:
  assumes "locked_out P token s did"
  shows "relay_http P now rnd conn (srl_chunk_req token did off sz buf) s =
    (Some (writeErr 401 ''unauthorized''), s)"
proof -
  let ?rq = "srl_chunk_req token did off sz buf"
  from assms obtain m where m: "relay_validID did" "relay_loadMeta (rl_dir s) did = Some m"
    "rm_TokenHash m \<noteq> relay_tokenHash P token"
    by (auto simp: locked_out_def)
  have rq: "rq_method ?rq = ''PUT''" "rq_path ?rq = data_path did" by (simp_all add: srl_chunk_req_def Let_def)
  have "\<not> relay_checkToken P ?rq (rm_TokenHash m)"
    unfolding srl_chunk_req_def Let_def
    by (rule locked_out_check [OF m(3) srl_req_token]) (simp add: TokenHeader_def)
  then show ?thesis
    using m by (simp add: relay_http_def dispatch_put rq relay_handlePut_def)
qed

lemma locked_out_try:
  "locked_out P token s did \<Longrightarrow>
    srl_try (relay_http P now rnd conn) (srl_chunk_req token did off sz buf) (Suc n) e s = (Some (HttpStatus 401), s)"
  by (induction n arbitrary: e) (simp_all add: locked_out_put srl_statusErr_def)

lemma locked_out_loop:
  assumes "locked_out P token s did" "0 < sz"
  shows "\<exists>e. srl_put_loop (relay_http P now rnd conn) ctx chk token did 0 sz data s = (Some e, s)"
  using assms(2) locked_out_try [OF assms(1), of now rnd conn _ _ _ 2]
  by (subst srl_put_loop.simps) (simp add: Let_def eval_nat_numeral)

lemma srl_create_fresh:
  assumes "drop_files s did = (None, None)"
    and "srl_create (relay_http P now rnd conn) token did sz expiry s = (None, s')"
    and "\<forall>raw. rnd = Some raw \<longrightarrow> relay_tokenHash P token \<noteq> relay_tokenHash P (hex_encode raw)"
  shows "locked_out P token s' did \<and> 0 < sz"
proof -
  let ?rq = "srl_req token ''POST'' drops_path (create_body did sz (format_rfc3339 expiry) False)
    [(''Content-Type'', ''application/json'')]"
  obtain resp where r: "relay_handleCreate P now rnd ?rq s = (resp, s')" "rs_status resp \<in> {200, 201, 409}"
    using assms(2) by (auto simp: srl_create_def relay_http_def dispatch_create split: prod.splits if_splits)
  show ?thesis
  proof (cases "relay_create_check now ?rq s")
    case (Inl x)
    then have "x = resp" using r(1) by (simp add: relay_handleCreate_def)
    then have "rs_status resp \<in> {400, 507}"
      using Inl by (auto simp: relay_create_check_def split: if_splits option.splits)
    with r(2) show ?thesis by auto
  next
    case (Inr req)
    have d: "decode_create (create_body did sz (format_rfc3339 expiry) False) = Some req"
      using Inr by (auto simp: relay_create_check_def split: if_splits option.splits)
    have q: "cq_ID req = did" "cq_SizeBytes req = sz"
      using d by (auto simp: decode_create_def create_body_def js_str_def js_int_def js_bool_def split: if_splits)
    have v: "relay_validID did" "0 < sz" using create_check_ok [OF Inr] q by simp_all
    have "relay_create_commit P now rnd req s = (resp, s')" using r(1) Inr by (simp add: relay_handleCreate_def)
    then have "locked_out P token s' did"
      using assms(1,3) r(2) q v
      by (auto simp: relay_create_commit_def relay_newToken_def drop_files_def locked_out_def relay_loadMeta_iff
        Let_def new_meta_def split: option.splits if_splits)
    with v show ?thesis by simp
  qed
qed

text \<open>
  C36 \<^verbatim>\<open>storage.RelayClient\<close> cannot store a new drop on the relay: its \<^verbatim>\<open>create\<close> discards the token
  the relay answers with, so its upload presents the client's own token and is refused. Every
  \<^verbatim>\<open>Put\<close> of an identifier the relay does not hold ends in an error, whatever the payload, unless
  the client's token hashes to the hash of the fresh token.
\<close>

theorem storage_relay_put_fails:
  assumes "drop_files s did = (None, None)"
    and "\<forall>raw. rnd = Some raw \<longrightarrow> relay_tokenHash P token \<noteq> relay_tokenHash P (hex_encode raw)"
  shows "\<exists>e. fst (srl_Put (relay_http P now rnd conn) token ctx did r sz expiry s) = Some e"
proof (cases "storage_ValidateID did = None \<and> \<not> ctx 0 \<and> 0 \<le> sz")
  case True
  show ?thesis
  proof (cases "srl_create (relay_http P now rnd conn) token did sz expiry s")
    case (Pair oe s1)
    show ?thesis
    proof (cases oe)
      case None
      with Pair have l: "locked_out P token s1 did" "0 < sz"
        using srl_create_fresh [OF assms(1) _ assms(2)] by blast+
      then obtain e where "srl_put_loop (relay_http P now rnd conn) ctx 1 token did 0 (nat sz) (rd_data r) s1 = (Some e, s1)"
        using locked_out_loop [OF l(1), of "nat sz"] by fastforce
      with True Pair None l show ?thesis by (simp add: srl_Put_def locked_out_stat Let_def)
    qed (use True Pair in \<open>simp add: srl_Put_def\<close>)
  qed
qed (auto simp: srl_Put_def split: option.splits)

theorem storage_relay_put_fails_witness:
  "\<exists>e. fst (srl_Put (relay_http demo_prims 0 (Some [7]) 3) ''secret'' (\<lambda>n. False) ''a''
     (reader_of [1, 2, 3]) 3 (1893456000 * second_ns) (demo_empty 100)) = Some e"
proof -
  have "drop_files (demo_empty 100) ''a'' = (None, None)" by code_simp
  moreover have "relay_tokenHash demo_prims ''secret'' \<noteq> relay_tokenHash demo_prims (hex_encode [7])" by code_simp
  ultimately show ?thesis using storage_relay_put_fails [of "demo_empty 100" "''a''" "Some [7]" demo_prims] by simp
qed

end
