(* ===== verification/RelayLimits.thy ===== *)
theory RelayLimits
  imports RelayProps
begin

text \<open>
  What the relay server promises over time: acknowledged bytes survive failed uploads, expired
  drops are gone, one-time drops are consumed, and the rate limiter admits what its bucket holds.
  Also what it does not promise: two overlapping downloads of a one-time drop both succeed, and
  the quota reserves nothing for drops that are created and not yet uploaded.
\<close>

lemma demo_no_range [simp]: "header ''Range'' (demo_request m p [(TokenHeader, token)] b) = []"
  by (simp add: header_def demo_request_def TokenHeader_def)

section \<open>Uploads\<close>

text \<open>
  An upload never damages what the relay has acknowledged. Unless the drop has expired, an
  upload of any kind leaves the drop in place and the acknowledged prefix of the payload as it
  was. It is acknowledged exactly when the status is 200; then the record counts the bytes of
  the body (none, where the declared size is the largest \<^verbatim>\<open>int64\<close>), and the payload up to the
  count is the old prefix followed by them.
\<close>

theorem relay_upload_keeps_acknowledged:
  assumes "relay_reach P (s, ps)" "relay_loadMeta (rl_dir s) did = Some m"
    and "dget (rl_dir s) (relay_binPath did) = Some (Blob b)"
    and "relay_handlePut P now did rq s = (resp, s')" "rs_status resp \<noteq> 410"
  shows "\<exists>m' b'. relay_loadMeta (rl_dir s') did = Some m' \<and>
    dget (rl_dir s') (relay_binPath did) = Some (Blob b') \<and>
    take (nat (rm_UploadedBytes m)) b' = take (nat (rm_UploadedBytes m)) b \<and>
    (if rs_status resp = 200
     then \<exists>data. (data = body_bytes (rq_body rq) \<or> data = [] \<and> rm_SizeBytes m = 2 ^ 63 - 1) \<and>
       m' = m\<lparr>rm_UploadedBytes := rm_UploadedBytes m + int (length data)\<rparr> \<and>
       take (nat (rm_UploadedBytes m')) b' = take (nat (rm_UploadedBytes m)) b @ data
     else m' = m)"
proof -
  have inv: "relay_inv s" using relay_reach_inv [OF assms(1)] by simp
  have ok: "meta_ok did m b"
    by (rule relay_inv_load [OF inv assms(2)]) (use assms(3) in simp)
  then have bounds: "nat (rm_UploadedBytes m) \<le> length b" "0 \<le> rm_UploadedBytes m" "rm_ID m = did"
    by (auto simp: meta_ok_def)
  show ?thesis
    using inv assms(4)
  proof (cases rule: handlePut_cases)
    case (4 m0 b0 data)
    then have "m0 = m" "b0 = b" using assms(2,3) by simp_all
    note c = 4 [unfolded this]
    have n: "nat (rm_UploadedBytes m + int (length data)) = nat (rm_UploadedBytes m) + length data"
      using bounds(2) by (simp add: nat_add_distrib)
    show ?thesis
      using c(6,8) bounds take_write_at [OF bounds(1), of data] take_off_write_at [OF bounds(1), of data]
      by (auto simp: c(9) relay_loadMeta_iff n)
  qed (use assms in \<open>auto simp: relay_loadMeta_iff\<close>)
qed

theorem relay_upload_keeps_acknowledged_witness:
  "\<exists>m' b'. relay_loadMeta (rl_dir (snd (relay_handlePut demo_prims 0 ''a''
      (demo_request ''PUT'' [] [(TokenHeader, demo_token)] (Bytes [1, 2, 3, 4])) (demo_relay True)))) ''a'' = Some m' \<and>
    rm_UploadedBytes m' = 0"
proof -
  have "dget (rl_dir (demo_relay True)) (relay_binPath ''a'') = Some (Blob [])" by code_simp
  moreover have "rs_status (fst (relay_handlePut demo_prims 0 ''a''
      (demo_request ''PUT'' [] [(TokenHeader, demo_token)] (Bytes [1, 2, 3, 4])) (demo_relay True))) = 400" by code_simp
  ultimately show ?thesis
    using relay_upload_keeps_acknowledged [OF demo_reach demo_relay_load _ prod.collapse [symmetric],
        of True "[]" 0 "demo_request ''PUT'' [] [(TokenHeader, demo_token)] (Bytes [1, 2, 3, 4])"]
    by auto
qed

section \<open>Expiry\<close>

text \<open>
  C26 From its expiry on, a drop is not served, extended or described: an authorised upload,
  download or metadata request is answered 410 and removes record and payload; without the
  token nothing changes.
\<close>

theorem relay_expired_gone:
  assumes "relay_reach P (s, ps)" "relay_loadMeta (rl_dir s) did = Some m" "rm_expired now m"
    and "(resp, s') \<in> {relay_handlePut P now did rq s, relay_handleGet P now conn did rq s,
      relay_handleMeta P now did rq s}"
  shows "if relay_checkToken P rq (rm_TokenHash m)
    then rs_status resp = 410 \<and> drop_files s' did = (None, None)
    else rs_status resp = 401 \<and> s' = s"
proof -
  have inv: "relay_inv s" using relay_reach_inv [OF assms(1)] by simp
  have "relay_validID did \<and> rm_ID m = did"
    by (rule relay_inv_load [OF inv assms(2)]) (simp add: meta_ok_def)
  then show ?thesis
    using assms(2-4)
    by (auto simp: relay_handlePut_def relay_handleGet_def relay_get_open_def relay_handleMeta_def relay_meta_read_def)
qed

theorem relay_expired_gone_witness:
  "drop_files (snd (relay_handleGet demo_prims (100000000000000000000) 0 ''a''
      (demo_request ''GET'' [] [(TokenHeader, demo_token)] (Bytes [])) (demo_relay True))) ''a'' = (None, None)"
  using relay_expired_gone [OF demo_reach demo_relay_load demo_expired(1),
      where rq = "demo_request ''GET'' [] [(TokenHeader, demo_token)] (Bytes [])" and conn = 0 and ot1 = True]
  by (metis demo_token_ok insertI1 insertI2 new_meta_sel(5) prod.collapse)

text \<open>One name of a sweep, and the names it has still to look at.\<close>

definition expired_drop :: "time \<Rightarrow> relay \<Rightarrow> string \<Rightarrow> bool" where
  "expired_drop now s did \<longleftrightarrow> (\<exists>m. relay_loadMeta (rl_dir s) did = Some m \<and> rm_expired now m)"

definition expired_name :: "time \<Rightarrow> relay \<Rightarrow> string \<Rightarrow> bool" where
  "expired_name now s name \<longleftrightarrow>
     has_suffix ''.meta.json'' name \<and> expired_drop now s (trim_suffix ''.meta.json'' name)"

lemma expired_name_meta [simp]: "expired_name now s (metaPath did) = expired_drop now s did"
  by (simp add: expired_name_def metaPath_def)

lemma expired_nameE:
  assumes "expired_name now s name"
  obtains did where "name = metaPath did" "expired_drop now s did"
  using assms by (auto simp: expired_name_def has_suffix_iff metaPath_def)

lemma sweep_one_files:
  assumes "relay_inv s" "relay_sweep_one now name s = (k, s1)"
  shows "(\<forall>did. drop_files s1 did =
      (if metaPath did = name \<and> expired_drop now s did then (None, None) else drop_files s did)) \<and>
    k = (if expired_name now s name then 1 else 0)"
proof (cases "expired_name now s name")
  case False
  have "s1 = s \<and> k = 0"
    using False assms(2)
    by (auto simp: relay_sweep_one_def expired_name_def expired_drop_def Let_def split: if_splits option.splits)
  then show ?thesis using False by auto
next
  case True
  then obtain x m where x: "name = metaPath x" "relay_loadMeta (rl_dir s) x = Some m" "rm_expired now m"
    by (auto simp: expired_drop_def elim!: expired_nameE)
  have v: "relay_validID x \<and> rm_ID m = x"
    by (rule relay_inv_load [OF assms(1) x(2)]) (simp add: meta_ok_def)
  have "has_suffix ''.meta.json'' name" "trim_suffix ''.meta.json'' name = x"
    by (simp_all add: x(1) metaPath_def)
  then have "s1 = relay_deleteLocked m s \<and> k = 1"
    using assms(2) v x(2,3) by (simp add: relay_sweep_one_def)
  then show ?thesis using True v x by (auto simp: expired_drop_def)
qed

lemma expired_drop_files: "expired_drop now s did \<longleftrightarrow> (\<exists>m. fst (drop_files s did) = Some (Json m) \<and> rm_expired now m)"
  by (simp add: expired_drop_def loadMeta_drop_files)

lemma sweep_names_files:
  assumes "relay_inv s" "relay_sweep_names now names s = (n, s')" "distinct names"
  shows "(\<forall>did. drop_files s' did =
      (if metaPath did \<in> set names \<and> expired_drop now s did then (None, None) else drop_files s did)) \<and>
    n = int (length (filter (expired_name now s) names))"
  using assms
proof (induction names arbitrary: s n)
  case (Cons name names)
  obtain k s1 where one: "relay_sweep_one now name s = (k, s1)" by fastforce
  obtain l where rest: "relay_sweep_names now names s1 = (l, s')" and n: "n = k + l"
    using Cons.prems(2) one by (auto split: prod.splits)
  have inv: "relay_inv s1" using relay_inv_sweep_one [OF Cons.prems(1), of now name] one by simp
  note IH = Cons.IH [OF inv rest] and files = sweep_one_files [OF Cons.prems(1) one]
  have ex: "expired_drop now s1 did \<longleftrightarrow> metaPath did \<noteq> name \<and> expired_drop now s did" for did
    using files unfolding expired_drop_files by (cases "metaPath did = name") auto
  have "expired_name now s1 x = expired_name now s x" if "x \<in> set names" for x
    using that Cons.prems(3) ex by (auto elim!: expired_nameE)
  then have "filter (expired_name now s1) names = filter (expired_name now s) names"
    by (rule filter_cong [OF refl])
  with IH Cons.prems(3) files n ex show ?case by auto
qed simp

text \<open>
  A sweep removes exactly the expired drops. Afterwards the record and the payload of every
  expired drop are gone, every other drop is as it was, and the count returned is the number of
  records removed.
\<close>

theorem relay_sweep_exact:
  assumes "relay_reach P (s, ps)" "relay_sweep now s = (n, s')"
  shows "(case relay_loadMeta (rl_dir s) did of
      Some m \<Rightarrow> drop_files s' did = (if rm_expired now m then (None, None) else drop_files s did)
    | None \<Rightarrow> drop_files s' did = drop_files s did) \<and>
    n = int (length (filter (expired_name now s) (map fst (rl_dir s))))"
proof -
  have inv: "relay_inv s" using relay_reach_inv [OF assms(1)] by simp
  then have "distinct (map fst (rl_dir s))" by (simp add: relay_inv_def)
  note files = sweep_names_files [OF inv assms(2) [unfolded relay_sweep_def] this]
  have "metaPath did \<in> set (map fst (rl_dir s))" if "relay_loadMeta (rl_dir s) did = Some m" for m
    using that by (force simp: relay_loadMeta_iff dest: map_of_SomeD)
  with files show ?thesis by (auto simp: expired_drop_def split: option.splits)
qed

theorem relay_sweep_exact_witness:
  "drop_files (snd (relay_sweep 0 (demo_relay False))) ''a'' = drop_files (demo_relay False) ''a'' \<and>
    drop_files (snd (relay_sweep (100000000000000000000) (demo_relay False))) ''a'' = (None, None)"
  using relay_sweep_exact [OF demo_reach prod.collapse [symmetric], of 0 False "''a''"]
    relay_sweep_exact [OF demo_reach prod.collapse [symmetric], of "100000000000000000000" False "''a''"]
  by (simp add: demo_relay_load del: new_meta_sel)

section \<open>One-time drops\<close>

text \<open>
  A one-time drop is consumed by the first request for all of it, whatever the connection
  delivers: after an authorised \<^verbatim>\<open>GET\<close> or \<^verbatim>\<open>HEAD\<close> without a \<^verbatim>\<open>Range\<close> the drop is gone, also when
  the transfer broke off after \<open>conn\<close> bytes or the method has no body. A request with a \<^verbatim>\<open>Range\<close>
  leaves it in place, even for a range of everything.
\<close>

theorem relay_one_time_get:
  assumes "relay_reach P (s, ps)" "relay_loadMeta (rl_dir s) did = Some m" "rm_OneTime m"
    and "relay_checkToken P rq (rm_TokenHash m)" "\<not> rm_expired now m"
    and "relay_handleGet P now conn did rq s = (resp, s')"
  shows "drop_files s' did = (if trim_space (header ''Range'' rq) = [] then (None, None) else drop_files s did)"
proof -
  have inv: "relay_inv s" using relay_reach_inv [OF assms(1)] by simp
  obtain b where b: "dget (rl_dir s) (binPath did) = Some (Blob b)" "meta_ok did m b"
    by (rule relay_inv_load [OF inv assms(2)])
  then show ?thesis
    using assms(2-6)
    by (auto simp: relay_handleGet_def relay_get_open_def relay_get_serve_def relay_get_finish_def meta_ok_def
      drop_files_def Let_def)
qed

theorem relay_one_time_get_witness:
  "drop_files (snd (relay_handleGet demo_prims 0 0 ''a''
      (demo_request ''HEAD'' [] [(TokenHeader, demo_token)] (Bytes [])) (demo_relay True))) ''a'' = (None, None)"
  using relay_one_time_get [OF demo_reach demo_relay_load _ _ demo_expired(2) prod.collapse [symmetric],
      of True "demo_request ''HEAD'' [] [(TokenHeader, demo_token)] (Bytes [])" 0]
  by simp

text \<open>
  C37 A one-time drop can be downloaded twice. Two requests that overlap, the second opened
  before the first has finished, are both served the whole payload: the record is consulted
  only when a download is opened, and removed after it has been sent.
\<close>

theorem relay_one_time_race:
  assumes "relay_reach P (s, ps)" "relay_loadMeta (rl_dir s) did = Some m" "rm_OneTime m"
    and "relay_checkToken P rq (rm_TokenHash m)" "\<not> rm_expired now m"
    and "rq_method rq = ''GET''" "header ''Range'' rq = []"
    and "dget (rl_dir s) (relay_binPath did) = Some (Blob b)" "length b \<le> conn"
  shows "\<exists>d s1 s2. relay_get_open P now did rq s = (Inr d, s) \<and>
    relay_step P (s, ps) (s, PServe d # ps) \<and>
    relay_step P (s, PServe d # ps) (s, PServe d # PServe d # ps) \<and>
    relay_get_serve conn d s = (serve_reply False 200 [] (Bytes b), s1) \<and>
    relay_get_serve conn d (relay_get_finish d s1) = (serve_reply False 200 [] (Bytes b), s2) \<and>
    drop_files (relay_get_finish d s1) did = (None, None)"
proof -
  have inv: "relay_inv s" using relay_reach_inv [OF assms(1)] by simp
  have m: "meta_ok did m b" by (rule relay_inv_load [OF inv assms(2)]) (use assms(8) in simp)
  define d where "d = \<lparr>dl_id = did, dl_content = b, dl_range = [], dl_head = False, dl_consume = True\<rparr>"
  have o: "relay_get_open P now did rq s = (Inr d, s)"
    using assms(2-8) m by (simp add: relay_get_open_def d_def meta_ok_def Let_def)
  have c: "deliver conn (serveContent [] False b) = serve_reply False 200 [] (Bytes b)"
    using assms(9) by (simp add: serveContent_def parse_range_def deliver_def serve_reply_def Let_def)
  have "drop_files (relay_get_finish d (s\<lparr>rl_bytesDown := n\<rparr>)) did = (None, None)" for n
    using assms(2) m by (simp add: relay_get_finish_def d_def meta_ok_def)
  then show ?thesis
    using o relay_step.get_open [OF o] c
    by (intro exI [of _ d]) (simp add: relay_get_serve_def Let_def d_def)
qed

theorem relay_one_time_race_witness:
  "\<exists>d s1 s2. relay_get_open demo_prims 0 ''a'' (demo_request ''GET'' [] [(TokenHeader, demo_token)] (Bytes []))
       (demo_relay True) = (Inr d, demo_relay True) \<and>
     relay_get_serve 0 d (demo_relay True) = (serve_reply False 200 [] (Bytes []), s1) \<and>
     relay_get_serve 0 d (relay_get_finish d s1) = (serve_reply False 200 [] (Bytes []), s2)"
proof -
  let ?rq = "demo_request ''GET'' [] [(TokenHeader, demo_token)] (Bytes [])"
  have bin: "dget (rl_dir (demo_relay True)) (relay_binPath ''a'') = Some (Blob [])" by code_simp
  have rq: "rq_method ?rq = ''GET''" "header ''Range'' ?rq = []"
    by (simp_all add: demo_request_def header_def TokenHeader_def)
  show ?thesis
    using relay_one_time_race [OF demo_reach demo_relay_load _ _ demo_expired(2) rq bin, of 0] by auto
qed

section \<open>The rate limiter\<close>

text \<open>Requests of one client, at the given times: how many are admitted.\<close>

fun admitted :: "time list \<Rightarrow> bucket option \<Rightarrow> nat" where
  "admitted [] ob = 0"
| "admitted (t # ts) ob =
     (case bucket_allow t ob of (ok, ob') \<Rightarrow> (if ok then 1 else 0) + admitted ts ob')"

lemma allow_some:
  assumes "tb_last b \<le> t" "0 \<le> tb_tokens b" "0 \<le> tb_rate b" "0 \<le> tb_burst b"
  obtains ok b' where "bucket_allow t (Some b) = (ok, Some b')" "tb_last b' = t" "tb_rate b' = tb_rate b"
    "tb_burst b' = tb_burst b" "0 \<le> tb_tokens b'"
    "(if ok then 1 else 0) + tb_tokens b' \<le> tb_tokens b + tb_rate b * of_int (t - tb_last b) / of_int second_ns"
    "(if ok then 1 else 0) + tb_tokens b' \<le> tb_burst b"
proof -
  define u where "u = tb_tokens b + of_int (t - tb_last b) / of_int second_ns * tb_rate b"
  define w where "w = (if u > tb_burst b then tb_burst b else u)"
  have "0 \<le> of_int (t - tb_last b) / of_int second_ns * tb_rate b"
    using assms(1,3) by (intro mult_nonneg_nonneg divide_nonneg_nonneg) simp_all
  then have "0 \<le> u" using assms(2) by (simp add: u_def)
  then have w: "0 \<le> w" "w \<le> u" "w \<le> tb_burst b" using assms(4) by (auto simp: w_def)
  have u': "u = tb_tokens b + tb_rate b * of_int (t - tb_last b) / of_int second_ns"
    by (simp add: u_def)
  have "bucket_allow t (Some b) = (if w < 1 then (False, Some (b\<lparr>tb_tokens := w, tb_last := t\<rparr>))
      else (True, Some (b\<lparr>tb_tokens := w - 1, tb_last := t\<rparr>)))"
    by (cases b) (simp add: bucket_allow_def Let_def u_def w_def)
  with that [of "\<not> w < 1" "b\<lparr>tb_tokens := if w < 1 then w else w - 1, tb_last := t\<rparr>"] w
  show thesis unfolding u' by auto
qed

lemma admitted_bound:
  assumes "sorted (tb_last b # ts)" "0 \<le> tb_tokens b" "0 \<le> tb_rate b" "0 \<le> tb_burst b"
  shows "of_nat (admitted ts (Some b)) \<le>
    tb_tokens b + tb_rate b * of_int (last (tb_last b # ts) - tb_last b) / of_int second_ns"
  using assms
proof (induction ts arbitrary: b)
  case (Cons t ts)
  have "tb_last b \<le> t" using Cons.prems(1) by simp
  then obtain ok b' where b': "bucket_allow t (Some b) = (ok, Some b')" "tb_last b' = t" "tb_rate b' = tb_rate b"
    "tb_burst b' = tb_burst b" "0 \<le> tb_tokens b'"
    "(if ok then 1 else 0) + tb_tokens b' \<le> tb_tokens b + tb_rate b * of_int (t - tb_last b) / of_int second_ns"
    by (rule allow_some [OF _ Cons.prems(2-4)])
  have IH: "of_nat (admitted ts (Some b')) \<le>
      tb_tokens b' + tb_rate b * of_int (last (t # ts) - t) / of_int second_ns"
    using Cons.IH [of b'] Cons.prems b' by simp
  have split: "tb_rate b * of_int (last (t # ts) - tb_last b) / (of_int second_ns :: rat) =
      tb_rate b * of_int (last (t # ts) - t) / of_int second_ns + tb_rate b * of_int (t - tb_last b) / of_int second_ns"
    by (simp add: algebra_simps flip: add_divide_distrib)
  have eq: "(of_nat (admitted (t # ts) (Some b)) :: rat) = (if ok then 1 else 0) + of_nat (admitted ts (Some b'))"
    using b'(1) by simp
  have l: "last (tb_last b # t # ts) = last (t # ts)" by simp
  show ?case unfolding l split eq using IH b'(6) by linarith
qed simp

lemma admitted_none:
  assumes "sorted (tb_last b # ts)" "0 \<le> tb_tokens b" "0 \<le> tb_rate b" "0 \<le> tb_burst b" "tb_burst b < 1"
  shows "admitted ts (Some b) = 0"
  using assms
proof (induction ts arbitrary: b)
  case (Cons t ts)
  have "tb_last b \<le> t" using Cons.prems(1) by simp
  then obtain ok b' where b': "bucket_allow t (Some b) = (ok, Some b')" "tb_last b' = t" "tb_rate b' = tb_rate b"
    "tb_burst b' = tb_burst b" "0 \<le> tb_tokens b'" "(if ok then 1 else 0) + tb_tokens b' \<le> tb_burst b"
    by (rule allow_some [OF _ Cons.prems(2-4)])
  then have "\<not> ok" using Cons.prems(5) by (auto split: if_splits)
  then show ?case using Cons b' by simp
qed simp



section \<open>The quota\<close>

text \<open>A request served on its own is a run of the transition system.\<close>

lemma reach_create:
  assumes "relay_reach P (s, ps)"
  shows "relay_reach P (snd (relay_handleCreate P now rnd rq s), ps)"
proof (cases "relay_create_check now rq s")
  case (Inr req)
  have 1: "relay_reach P (s, PCreate req # ps)"
    by (rule relay_reach.step [OF assms relay_step.create_check [OF Inr]])
  from relay_reach.step [OF 1 relay_step.create_commit [of req _ P s now rnd]] show ?thesis
    by (simp add: relay_handleCreate_def Inr)
qed (use assms in \<open>simp add: relay_handleCreate_def\<close>)

lemma reach_get:
  assumes "relay_reach P (s, ps)"
  shows "relay_reach P (snd (relay_handleGet P now conn did rq s), ps)"
proof (cases "relay_get_open P now did rq s")
  case (Pair r s1)
  show ?thesis
  proof (cases r)
    case (Inl resp)
    then show ?thesis
      using relay_reach.step [OF assms relay_step.get_refused [OF Pair [unfolded Inl]]] Pair
      by (simp add: relay_handleGet_def)
  next
    case (Inr d)
    note 1 = relay_reach.step [OF assms relay_step.get_open [OF Pair [unfolded Inr]]]
    note 2 = relay_reach.step [OF 1 relay_step.get_serve [of d _ P s1 conn]]
    from relay_reach.step [OF 2 relay_step.get_finish [of d]] show ?thesis
      by (simp add: relay_handleGet_def Pair Inr case_prod_unfold)
  qed
qed

lemma reach_meta:
  assumes "relay_reach P (s, ps)"
  shows "relay_reach P (snd (relay_handleMeta P now did rq s), ps)"
proof (cases "relay_meta_read P now did rq s")
  case (Pair resp om)
  show ?thesis
  proof (cases om)
    case (Some m)
    note 1 = relay_reach.step [OF assms relay_step.meta_expired [OF Pair [unfolded Some]]]
    from relay_reach.step [OF 1 relay_step.meta_delete [of m]] show ?thesis
      by (simp add: relay_handleMeta_def Pair Some)
  qed (use assms Pair in \<open>simp add: relay_handleMeta_def\<close>)
qed

lemma reach_if: "relay_reach P (snd a, ps) \<Longrightarrow> relay_reach P (snd b, ps) \<Longrightarrow> relay_reach P (snd (if c then a else b), ps)"
  by simp

lemma reach_dispatch:
  assumes "relay_reach P (s, ps)"
  shows "relay_reach P (snd (relay_dispatch P now rnd conn rq s), ps)"
  unfolding relay_dispatch_def Let_def
  by (split list.split | intro conjI allI impI | rule reach_if reach_create [OF assms] reach_get [OF assms] reach_meta [OF assms]
    relay_reach.step [OF assms relay_step.put] relay_reach.step [OF assms relay_step.delete] | simp only: snd_conv assms)+

text \<open>What the quota counts are payload files; records do not change it.\<close>

definition bin_weight :: "string \<Rightarrow> rmeta file_data \<Rightarrow> int" where
  "bin_weight name f = (if has_suffix ''.bin'' name then int (length (blob_of f)) else 0)"

lemma storedBytes_dsum: "relay_storedBytes d = dsum bin_weight d"
  unfolding relay_storedBytes_def bin_weight_def [abs_def] ..

lemma bin_weight_simps [simp]:
  "bin_weight (metaPath did) f = 0" "bin_weight (metaPath did @ ''.tmp'') f = 0"
  "bin_weight (binPath did) f = int (length (blob_of f))"
  by (simp_all add: bin_weight_def)

lemma dweight_zero [simp]:
  "dweight bin_weight d (metaPath did) = 0" "dweight bin_weight d (metaPath did @ ''.tmp'') = 0"
  by (simp_all add: dweight_def split: option.splits)

lemma storedBytes_saveMeta [simp]:
  "dir_ok d \<Longrightarrow> relay_storedBytes (relay_saveMeta m d) = relay_storedBytes d"
  by (simp add: storedBytes_dsum relay_saveMeta_def drename_def Let_def dsum_dput dsum_ddel)

text \<open>
  The quota is looked at only when a drop is created, and a created drop takes no room until
  it is uploaded: whatever size it declares, creating it leaves the stored bytes as they were,
  so any number of drops of up to the remaining quota can be created. An upload and its answer
  are the same under every quota.
\<close>

theorem relay_quota_reserves_nothing:
  assumes "relay_reach P (s, ps)"
  shows "relay_storedBytes (rl_dir (snd (relay_handleCreate P now rnd rq s))) = relay_storedBytes (rl_dir s) \<and>
    relay_handlePut P now did rq' (s\<lparr>rl_quota := q\<rparr>) =
      map_prod (\<lambda>resp. resp) (\<lambda>s'. s'\<lparr>rl_quota := q\<rparr>) (relay_handlePut P now did rq' s)"
proof
  have ok: "dir_ok (rl_dir s)" using relay_reach_inv [OF assms] by (simp add: relay_inv_def)
  show "relay_storedBytes (rl_dir (snd (relay_handleCreate P now rnd rq s))) = relay_storedBytes (rl_dir s)"
  proof (cases "relay_create_check now rq s")
    case (Inr req)
    obtain resp s' where r: "relay_create_commit P now rnd req s = (resp, s')" by fastforce
    then have "relay_storedBytes (rl_dir s') = relay_storedBytes (rl_dir s)"
    proof (cases rule: create_commit_cases)
      case (2 m)
      have "relay_storedBytes (ddel (metaPath (cq_ID req)) (relay_saveMeta m (rl_dir s))) = relay_storedBytes (rl_dir s)"
        using ok storedBytes_saveMeta [OF ok, of m] by (simp add: storedBytes_dsum dsum_ddel)
      then show ?thesis by (simp add: 2)
    next
      case (3 b tok)
      let ?d = "relay_saveMeta (new_meta P now tok req) (rl_dir s)"
      have "dweight bin_weight ?d (binPath (cq_ID req)) = 0" using 3(4) by (simp add: dweight_def)
      then have "relay_storedBytes (dput (binPath (cq_ID req)) (Blob []) ?d) = relay_storedBytes (rl_dir s)"
        using ok storedBytes_saveMeta [OF ok, of "new_meta P now tok req"]
        by (simp add: storedBytes_dsum dsum_dput)
      then show ?thesis by (simp add: 3)
    qed simp
    then show ?thesis by (simp add: relay_handleCreate_def Inr r)
  qed (simp add: relay_handleCreate_def)
  show "relay_handlePut P now did rq' (s\<lparr>rl_quota := q\<rparr>) =
      map_prod (\<lambda>resp. resp) (\<lambda>s'. s'\<lparr>rl_quota := q\<rparr>) (relay_handlePut P now did rq' s)"
    by (simp add: relay_handlePut_def relay_deleteLocked_def Let_def split: option.split sum.split prod.split)
qed

theorem relay_quota_reserves_nothing_witness:
  "relay_storedBytes (rl_dir (snd (relay_handleCreate demo_prims 0 (Some [7])
     (demo_request ''POST'' ''/api/v1/drops'' [] (demo_body True)) (demo_relay False)))) =
   relay_storedBytes (rl_dir (demo_relay False))"
  using relay_quota_reserves_nothing [OF demo_reach [of False], where now = 0 and rnd = "Some [7]"] by simp

end
