(* ===== verification/Json.thy ===== *)
theory Json
  imports GoTime
begin

text \<open>
  \<^verbatim>\<open>json.Marshal\<close> of \<^verbatim>\<open>encoding/json\<close>, with its default HTML-safe escaping, and the JSON form of
  times. The main fact is that values with ASCII strings are read off their text uniquely:
  two values with the same text are equal. Without the restriction to ASCII this is false, as
  every malformed UTF-8 byte is printed as the replacement character.
\<close>

section \<open>Strings\<close>

definition backslash :: char where
  "backslash = CHR 0x5C"

definition quote :: char where
  "quote = CHR 0x22"

text \<open>One ASCII character inside a string literal.\<close>

definition json_esc1 :: "char \<Rightarrow> string" where
  "json_esc1 c =
     (if c = quote \<or> c = backslash then [backslash, c]
      else if code c = 8 then [backslash, CHR ''b'']
      else if code c = 12 then [backslash, CHR ''f'']
      else if code c = 10 then [backslash, CHR ''n'']
      else if code c = 13 then [backslash, CHR ''r'']
      else if code c = 9 then [backslash, CHR ''t'']
      else if code c < 32 \<or> c = CHR ''<'' \<or> c = CHR ''>'' \<or> c = CHR ''&''
      then backslash # ''u00'' @ hex_encode [byte_of_char c]
      else [c])"

definition cont :: "char \<Rightarrow> bool" where
  "cont c \<longleftrightarrow> 128 \<le> code c \<and> code c \<le> 191"

text \<open>\<^verbatim>\<open>utf8.DecodeRuneInString\<close> at a byte that is not ASCII: the width of the rune, if it is
  well formed.\<close>

definition utf8_width :: "string \<Rightarrow> nat option" where
  "utf8_width s =
     (case s of
        a # b # r \<Rightarrow>
          (if 194 \<le> code a \<and> code a \<le> 223 then (if cont b then Some 2 else None)
           else if 224 \<le> code a \<and> code a \<le> 239
           then (case r of
                   c # _ \<Rightarrow> if (if code a = 224 then 160 else 128) \<le> code b \<and>
                       code b \<le> (if code a = 237 then 159 else 191) \<and> cont c then Some 3 else None
                 | [] \<Rightarrow> None)
           else if 240 \<le> code a \<and> code a \<le> 244
           then (case r of
                   c # d # _ \<Rightarrow> if (if code a = 240 then 144 else 128) \<le> code b \<and>
                       code b \<le> (if code a = 244 then 143 else 191) \<and> cont c \<and> cont d then Some 4 else None
                 | _ \<Rightarrow> None)
           else None)
      | _ \<Rightarrow> None)"

text \<open>A rune that is not ASCII: U+2028 and U+2029 are escaped, others stay as they are.\<close>

definition json_rune :: "string \<Rightarrow> string" where
  "json_rune r =
     (if map code r = [0xE2, 0x80, 0xA8] then backslash # ''u2028''
      else if map code r = [0xE2, 0x80, 0xA9] then backslash # ''u2029''
      else r)"

function json_esc :: "string \<Rightarrow> string" where
  "json_esc [] = []"
| "json_esc (c # cs) =
     (if is_ascii c then json_esc1 c @ json_esc cs
      else case utf8_width (c # cs) of
             None \<Rightarrow> backslash # ''ufffd'' @ json_esc cs
           | Some w \<Rightarrow> json_rune (take w (c # cs)) @ json_esc (drop (w - 1) cs))"
  by pat_completeness auto
termination by (relation "measure length") auto

section \<open>Values\<close>

datatype json =
    JsNull
  | JsBool bool
  | JsInt int
  | JsStr string
  | JsArr "json list"
  | JsObj "(string \<times> json) list"

fun json_print :: "json \<Rightarrow> string" and json_items :: "json list \<Rightarrow> string"
  and json_members :: "(string \<times> json) list \<Rightarrow> string" where
  "json_print JsNull = ''null''"
| "json_print (JsBool b) = (if b then ''true'' else ''false'')"
| "json_print (JsInt n) = format_int n"
| "json_print (JsStr s) = quote # json_esc s @ [quote]"
| "json_print (JsArr vs) = CHR ''['' # json_items vs @ '']''"
| "json_print (JsObj ms) = CHR ''{'' # json_members ms @ ''}''"
| "json_items [] = []"
| "json_items (v # vs) = json_print v @ (if vs = [] then [] else CHR '','' # json_items vs)"
| "json_members [] = []"
| "json_members ((k, v) # ms) = quote # json_esc k @ [quote, CHR '':''] @ json_print v @
     (if ms = [] then [] else CHR '','' # json_members ms)"

section \<open>Unique reading\<close>

lemma json_esc_ascii_Cons [simp]: "is_ascii c \<Longrightarrow> json_esc (c # cs) = json_esc1 c @ json_esc cs"
  by simp

declare json_esc.simps(2) [simp del]

text \<open>Reading one character back, for the proofs.\<close>

definition json_unletter :: "char \<Rightarrow> char" where
  "json_unletter e =
     (if e = CHR ''b'' then char_of (8 :: nat) else if e = CHR ''f'' then char_of (12 :: nat)
      else if e = CHR ''n'' then char_of (10 :: nat) else if e = CHR ''r'' then char_of (13 :: nat)
      else if e = CHR ''t'' then char_of (9 :: nat) else e)"

definition json_unesc1 :: "string \<Rightarrow> char \<times> string" where
  "json_unesc1 s =
     (if hd s \<noteq> backslash then (hd s, tl s)
      else if s ! 1 = CHR ''u'' then (char_of_byte (hd (the (hex_decode (take 2 (drop 4 s))))), drop 6 s)
      else (json_unletter (s ! 1), drop 2 s))"

lemma code_eq_char: "code c = n \<Longrightarrow> char_of n = c"
  by auto

lemma json_esc1_cases:
  obtains "json_esc1 c = [c]" "c \<noteq> backslash" "c \<noteq> quote"
    | e where "json_esc1 c = [backslash, e]" "e \<noteq> CHR ''u''" "json_unletter e = c"
    | "json_esc1 c = backslash # ''u00'' @ hex_encode [byte_of_char c]"
proof -
  note letter = that(2)
  show thesis
  proof (cases "c = quote \<or> c = backslash")
    case True
    then have "json_esc1 c = [backslash, c]" by (simp add: json_esc1_def)
    moreover have "c \<noteq> CHR ''u''" "json_unletter c = c" using True by (auto simp: quote_def backslash_def json_unletter_def)
    ultimately show thesis by (rule letter)
  next
    case False
    note f = False
    show thesis
    proof (cases "code c \<in> {8, 12, 10, 13, 9}")
      case True
      then obtain e where "json_esc1 c = [backslash, e]" "e \<noteq> CHR ''u''" "json_unletter e = c"
        using f by (auto simp: json_esc1_def json_unletter_def code_eq_char)
      then show thesis by (rule letter)
    next
      case False
      then have "json_esc1 c = [c] \<or> json_esc1 c = backslash # ''u00'' @ hex_encode [byte_of_char c]"
        using f by (simp add: json_esc1_def)
      then show thesis using f that(1,3) by blast
    qed
  qed
qed

lemma json_unesc1_esc1: "json_unesc1 (json_esc1 c @ x) = (c, x)"
proof (cases rule: json_esc1_cases [of c])
  case 3
  obtain h l where hl: "hex_encode [byte_of_char c] = [h, l]" by simp
  have "hex_decode [h, l] = Some [byte_of_char c]" unfolding hl [symmetric] by (rule hex_decode_encode)
  then show ?thesis unfolding 3 hl by (simp add: json_unesc1_def eval_nat_numeral)
qed (simp_all add: json_unesc1_def)

lemma json_esc1_prefix: "json_esc1 c @ x = json_esc1 d @ y \<longleftrightarrow> c = d \<and> x = y"
  by (metis json_unesc1_esc1 Pair_inject)

lemma json_esc1_not_quote: "json_esc1 c @ x \<noteq> quote # y"
  by (cases rule: json_esc1_cases [of c]) (simp_all add: quote_def backslash_def)

abbreviation ascii :: "string \<Rightarrow> bool" where
  "ascii \<equiv> list_all is_ascii"

lemma json_esc_unique:
  "ascii s \<Longrightarrow> ascii t \<Longrightarrow> json_esc s @ quote # x = json_esc t @ quote # y \<Longrightarrow> s = t \<and> x = y"
proof (induction s arbitrary: t)
  case Nil
  then show ?case using json_esc1_not_quote by (cases t) (auto simp: eq_commute [of "quote # _"])
next
  case (Cons c s)
  then obtain d t' where t: "t = d # t'"
    using json_esc1_not_quote [of c] by (cases t) auto
  have "c = d \<and> json_esc s @ quote # x = json_esc t' @ quote # y" "ascii s" "ascii t'"
    using Cons.prems by (simp_all add: t json_esc1_prefix)
  with Cons.IH [of t'] show ?case by (simp add: t)
qed

lemma json_print_unique_int:
  assumes "format_int n @ x = format_int m @ y"
    and "x = [] \<or> \<not> is_digit (hd x)" "y = [] \<or> \<not> is_digit (hd y)"
  shows "n = m \<and> x = y"
proof -
  have nat_case: "a = b \<and> x = y" if "format_nat a @ x = format_nat b @ y" for a b
  proof -
    have tw: "takeWhile is_digit (format_nat k @ z) = format_nat k" if "z = [] \<or> \<not> is_digit (hd z)" for k z
    proof -
      have "takeWhile is_digit (format_nat k @ z) = format_nat k @ takeWhile is_digit z"
        by (rule takeWhile_append2) (rule format_nat_digits)
      moreover have "takeWhile is_digit z = []" using that by (cases z) auto
      ultimately show ?thesis by simp
    qed
    have "format_nat a = format_nat b" using that tw [OF assms(2), of a] tw [OF assms(3), of b] by simp
    then have "a = b" by (metis digits_val_format_nat option.inject)
    with that show ?thesis by simp
  qed
  have h: "CHR ''-'' # u \<noteq> format_nat k @ z" "format_nat k @ z \<noteq> CHR ''-'' # u" for k z u
    using format_nat_digits [of "CHR ''-''" k]
    by (auto simp: is_digit_def Cons_eq_append_conv append_eq_Cons_conv) (metis list.set_intros(1))+
  show ?thesis
  proof (cases "n < 0")
    case True
    show ?thesis
    proof (cases "m < 0")
      case True
      then show ?thesis using \<open>n < 0\<close> assms(1) nat_case [of "nat (- n)" "nat (- m)"]
        by (simp add: format_int_def eq_nat_nat_iff)
    next
      case False
      then show ?thesis using \<open>n < 0\<close> assms(1) h(1) by (simp add: format_int_def)
    qed
  next
    case False
    show ?thesis
    proof (cases "m < 0")
      case True
      then show ?thesis using \<open>\<not> n < 0\<close> assms(1) h(2) by (simp add: format_int_def)
    next
      case False
      then show ?thesis using \<open>\<not> n < 0\<close> assms(1) nat_case [of "nat n" "nat m"]
        by (simp add: format_int_def eq_nat_nat_iff)
    qed
  qed
qed

text \<open>Values whose strings are ASCII; the ends of a value inside a text.\<close>

fun json_ok :: "json \<Rightarrow> bool" and json_oks :: "json list \<Rightarrow> bool" and json_okm :: "(string \<times> json) list \<Rightarrow> bool" where
  "json_ok (JsStr s) = ascii s"
| "json_ok (JsArr vs) = json_oks vs"
| "json_ok (JsObj ms) = json_okm ms"
| "json_ok v = True"
| "json_oks [] = True"
| "json_oks (v # vs) = (json_ok v \<and> json_oks vs)"
| "json_okm [] = True"
| "json_okm ((k, v) # ms) = (ascii k \<and> json_ok v \<and> json_okm ms)"

definition delim :: "string \<Rightarrow> bool" where
  "delim x \<longleftrightarrow> x = [] \<or> hd x \<in> {CHR '','', CHR '']'', CHR ''}''}"

lemma delim_simps [simp]: "delim []" "delim (CHR '','' # x)" "delim (CHR '']'' # x)" "delim (CHR ''}'' # x)"
  by (simp_all add: delim_def)

lemma delim_not_digit: "delim x \<Longrightarrow> x = [] \<or> \<not> is_digit (hd x)"
  by (auto simp: delim_def is_digit_def)

text \<open>The kind of a value, by its first character.\<close>

fun json_kind :: "json \<Rightarrow> nat" where
  "json_kind JsNull = 0" | "json_kind (JsBool b) = (if b then 1 else 2)" | "json_kind (JsInt n) = 3"
| "json_kind (JsStr s) = 4" | "json_kind (JsArr vs) = 5" | "json_kind (JsObj ms) = 6"

definition head_kind :: "char \<Rightarrow> nat" where
  "head_kind c =
     (if c = CHR ''n'' then 0 else if c = CHR ''t'' then 1 else if c = CHR ''f'' then 2
      else if is_digit c \<or> c = CHR ''-'' then 3 else if c = quote then 4
      else if c = CHR ''['' then 5 else if c = CHR ''{'' then 6 else 7)"

lemma json_print_head:
  obtains c cs where "json_print v = c # cs" "head_kind c = json_kind v"
proof (cases v)
  case (JsInt n)
  have "json_print v = hd (json_print v) # tl (json_print v)"
    using JsInt by (simp add: format_int_def)
  moreover have "head_kind (hd (json_print v)) = 3"
    using JsInt format_nat_hd [of "nat n"] by (auto simp: format_int_def head_kind_def is_digit_def)
  ultimately show thesis using that JsInt by simp
next
  case (JsBool b)
  then show thesis using that by (cases b) (simp_all add: head_kind_def)
qed (use that in \<open>auto simp: head_kind_def is_digit_def quote_def\<close>)

lemma json_print_kind:
  assumes "json_print v @ x = json_print w @ y" shows "json_kind v = json_kind w"
  using assms by (metis json_print_head append_Cons list.inject)

lemma json_print_close: "json_print v @ x \<noteq> CHR '']'' # y"
proof
  assume a: "json_print v @ x = CHR '']'' # y"
  obtain c cs where "json_print v = c # cs" "head_kind c = json_kind v" by (rule json_print_head)
  with a have "json_kind v = 7" by (simp add: head_kind_def is_digit_def quote_def split: if_splits)
  then show False by (cases v) (auto split: if_splits)
qed

lemma json_unique:
  "json_ok v \<Longrightarrow> json_ok w \<Longrightarrow> delim x \<Longrightarrow> delim y \<Longrightarrow> json_print v @ x = json_print w @ y \<Longrightarrow> v = w \<and> x = y"
  "json_oks vs \<Longrightarrow> json_oks ws \<Longrightarrow> json_items vs @ CHR '']'' # x = json_items ws @ CHR '']'' # y \<Longrightarrow> vs = ws \<and> x = y"
  "json_okm ms \<Longrightarrow> json_okm ns \<Longrightarrow> json_members ms @ CHR ''}'' # x = json_members ns @ CHR ''}'' # y \<Longrightarrow> ms = ns \<and> x = y"
proof (induction v and vs and ms arbitrary: w x y and ws x y and ns x y
    rule: json_print_json_items_json_members.induct)
  case 1
  then show ?case using json_print_kind [OF 1(5)] by (cases w) (auto split: if_splits)
next
  case (2 b)
  then show ?case using json_print_kind [OF 2(5)] by (cases w) (auto split: if_splits)
next
  case (3 n)
  then obtain m where w: "w = JsInt m" using json_print_kind [OF 3(5)] by (cases w) (auto split: if_splits)
  show ?case
    using json_print_unique_int [of n x m y] 3 by (simp add: w delim_not_digit)
next
  case (4 s)
  then obtain t where w: "w = JsStr t" using json_print_kind [OF 4(5)] by (cases w) (auto split: if_splits)
  have "json_esc s @ quote # x = json_esc t @ quote # y" "ascii s" "ascii t"
    using 4(1,2,5) by (simp_all add: w)
  from json_esc_unique [OF this(2,3,1)] show ?case by (simp add: w)
next
  case (5 vs)
  obtain us where w: "w = JsArr us" using json_print_kind [OF 5(6)] by (cases w) (auto split: if_splits)
  show ?case using 5(1) [of us x y] 5(2,3,6) by (simp add: w)
next
  case (6 ms)
  obtain us where w: "w = JsObj us" using json_print_kind [OF 6(6)] by (cases w) (auto split: if_splits)
  show ?case using 6(1) [of us x y] 6(2,3,6) by (simp add: w)
next
  case 7
  then show ?case using json_print_close by (cases ws) (auto simp: eq_commute [of "CHR '']'' # _"])
next
  case (8 v vs)
  obtain u us where ws: "ws = u # us"
    using 8(5) json_print_close by (cases ws) auto
  let ?r = "\<lambda>l z. (if l = [] then [] else CHR '','' # json_items l) @ CHR '']'' # z"
  have "v = u \<and> ?r vs x = ?r us y"
    using 8(3-5) by (intro 8(1)) (auto simp: ws)
  then show ?case using 8(2) [of us x y] 8(3,4) by (auto simp: ws split: if_splits)
next
  case 9
  then show ?case by (cases ns) (auto simp: quote_def)
next
  case (10 k v ms)
  obtain l u us where ns: "ns = (l, u) # us"
    using 10(5) by (cases ns) (auto simp: quote_def)
  let ?r = "\<lambda>l z. (if l = [] then [] else CHR '','' # json_members l) @ CHR ''}'' # z"
  have kl: "k = l \<and> json_print v @ ?r ms x = json_print u @ ?r us y"
    using json_esc_unique [of k l "CHR '':'' # json_print v @ ?r ms x" "CHR '':'' # json_print u @ ?r us y"] 10(3-5)
    by (simp add: ns)
  then have "v = u \<and> ?r ms x = ?r us y"
    using 10(3,4) kl by (intro 10(1)) (auto simp: ns)
  then show ?case using 10(2) [of us x y] 10(3,4) kl by (auto simp: ns split: if_splits)
qed

lemma json_print_inj: "json_ok v \<Longrightarrow> json_ok w \<Longrightarrow> json_print v = json_print w \<longleftrightarrow> v = w"
  using json_unique(1) [of v w "[]" "[]"] by auto

section \<open>Times\<close>

text \<open>\<^verbatim>\<open>time.RFC3339Nano\<close> of a UTC time: the fraction is left out when zero and has no trailing
  zeros. A year outside 0 to 9999 has no JSON form.\<close>

fun pad_digits :: "nat \<Rightarrow> nat \<Rightarrow> string" where
  "pad_digits 0 n = []"
| "pad_digits (Suc k) n = pad_digits k (n div 10) @ [digit_char (n mod 10)]"

definition strip_zeros :: "string \<Rightarrow> string" where
  "strip_zeros s = rev (dropWhile (\<lambda>c. c = CHR ''0'') (rev s))"

definition nano_fraction :: "time \<Rightarrow> string" where
  "nano_fraction t =
     (let ns = nat (t mod second_ns) in if ns = 0 then [] else CHR ''.'' # strip_zeros (pad_digits 9 ns))"

definition format_rfc3339nano :: "time \<Rightarrow> string" where
  "format_rfc3339nano t = butlast (format_rfc3339 t) @ nano_fraction t @ ''Z''"

definition json_year :: "time \<Rightarrow> bool" where
  "json_year t \<longleftrightarrow> 0 \<le> fst (civil t) \<and> fst (civil t) < 10000"

lemma length_pad_digits [simp]: "length (pad_digits k n) = k"
  by (induction k arbitrary: n) simp_all

lemma pad_digits_digit: "c \<in> set (pad_digits k n) \<Longrightarrow> is_digit c"
  by (induction k arbitrary: n) auto

lemma digits_val_pad: "digits_val 0 (pad_digits k n) = Some (n mod 10 ^ k)"
proof (induction k arbitrary: n)
  case (Suc k)
  have "n mod 10 ^ Suc k = 10 * (n div 10 mod 10 ^ k) + n mod 10"
    by (simp add: mod_mult2_eq)
  then show ?case using Suc [of "n div 10"] by (simp add: digits_val_append)
qed simp

lemma strip_zeros_split: "\<exists>j. s = strip_zeros s @ replicate j CHR ''0''"
proof -
  let ?z = "takeWhile (\<lambda>c. c = CHR ''0'') (rev s)"
  have "rev s = ?z @ dropWhile (\<lambda>c. c = CHR ''0'') (rev s)" by simp
  then have "s = strip_zeros s @ rev ?z" unfolding strip_zeros_def by (metis rev_append rev_rev_ident)
  moreover have "?z = replicate (length ?z) CHR ''0''"
    by (rule replicate_eqI) (auto dest: set_takeWhileD)
  ultimately show ?thesis by (metis rev_replicate)
qed

lemma digits_val_zeros:
  "digits_val acc (s @ replicate j CHR ''0'') = map_option (\<lambda>n. n * 10 ^ j) (digits_val acc s)"
proof (induction s arbitrary: acc)
  case Nil
  show ?case by (induction j arbitrary: acc) (simp_all add: digit_val_def is_digit_def)
qed (simp add: Let_def)

lemma fraction_nano:
  "fraction (nano_fraction t @ ''Z'') = (nat (t mod second_ns), ''Z'')"
proof (cases "nat (t mod second_ns) = 0")
  case True
  then show ?thesis by (simp add: nano_fraction_def)
next
  case False
  define n where "n = nat (t mod second_ns)"
  define d where "d = strip_zeros (pad_digits 9 n)"
  obtain j where j: "pad_digits 9 n = d @ replicate j CHR ''0''" using strip_zeros_split d_def by blast
  have n: "0 < n" "n < 10 ^ 9" using False by (simp_all add: n_def nat_less_iff)
  have len: "length d + j = 9" using arg_cong [OF j, of length] by simp
  obtain v where v: "digits_val 0 d = Some v" "n = v * 10 ^ j"
    using digits_val_pad [of 9 n] n digits_val_zeros [of 0 d j] by (auto simp: j)
  then have "d \<noteq> []" using n(1) by auto
  have dig: "\<forall>c \<in> set d. is_digit c" using pad_digits_digit [of _ 9 n] by (auto simp: j)
  have tw: "takeWhile is_digit (d @ ''Z'') = d" "dropWhile is_digit (d @ ''Z'') = ''Z''"
    using dig by (simp_all add: takeWhile_append dropWhile_append is_digit_def)
  obtain c cs where c: "d = c # cs" using \<open>d \<noteq> []\<close> by (cases d) auto
  have j9: "j = 9 - length d" and t9: "take 9 d = d" using len by simp_all
  have "fraction (CHR ''.'' # d @ ''Z'') = (v * 10 ^ j, ''Z'')"
    using dig tw v t9 unfolding j9 by (simp add: c Let_def)
  moreover have "nano_fraction t = CHR ''.'' # d"
    using False by (simp add: nano_fraction_def d_def n_def Let_def)
  ultimately show ?thesis using v(2) by (simp add: n_def)
qed

lemma parse_format_nano [wire]:
  assumes "json_year t" shows "parse_rfc3339 (format_rfc3339nano t) = Some t"
proof -
  obtain y m d h mi s where c: "civil t = (y, m, d, h, mi, s)" by (cases "civil t") auto
  note spec = civil_spec [OF c]
  have b: "d < 100" "m < 100" "h < 100" "mi < 100" "s < 100" "nat y < 10000" "0 \<le> y"
    using spec assms by (auto simp: c json_year_def days_in_def split: if_splits)
  have f: "format_rfc3339nano t = pad4 (nat y) @ CHR ''-'' # pad2 m @ CHR ''-'' # pad2 d @ CHR ''T'' #
      pad2 h @ CHR '':'' # pad2 mi @ CHR '':'' # pad2 s @ nano_fraction t @ ''Z''"
    using b by (simp add: format_rfc3339nano_def format_rfc3339_def c butlast_append)
  have z: "zone ''Z'' = Some (0, [])" by (simp add: zone_def)
  have "time_of y m d h mi s (nat (t mod second_ns)) = t"
    using spec by (simp add: time_of_def)
  then show ?thesis
    unfolding f parse_rfc3339_def using b spec
    by (simp add: z fraction_nano guard_def del: fraction.simps One_nat_def)
qed

lemma format_nano_inj: "json_year t \<Longrightarrow> json_year u \<Longrightarrow> format_rfc3339nano t = format_rfc3339nano u \<longleftrightarrow> t = u"
  by (metis option.inject parse_format_nano)

lemma ascii_digits: "(\<And>c. c \<in> set s \<Longrightarrow> is_digit c) \<Longrightarrow> ascii s"
  unfolding list_all_iff is_ascii_def is_digit_def by fastforce

lemma ascii_pad [simp]: "n < 100 \<Longrightarrow> ascii (pad2 n)" "n < 10000 \<Longrightarrow> ascii (pad4 n)"
proof -
  have d: "is_ascii (digit_char k)" if "k < 10" for k
    using ascii_digits [of "[digit_char k]"] that by simp
  show p: "ascii (pad2 n)" if "n < 100" for n
    using that d [of "n div 10"] d [of "n mod 10"] by (simp add: pad2_def less_mult_imp_div_less)
  show "n < 10000 \<Longrightarrow> ascii (pad4 n)"
    using p [of "n div 100"] p [of "n mod 100"] by (simp add: pad4_def less_mult_imp_div_less)
qed

lemma ascii_nano_fraction: "ascii (nano_fraction t)"
proof -
  obtain j where j: "pad_digits 9 (nat (t mod second_ns)) =
      strip_zeros (pad_digits 9 (nat (t mod second_ns))) @ replicate j CHR ''0''"
    using strip_zeros_split by blast
  have "ascii (pad_digits 9 (nat (t mod second_ns)))" by (rule ascii_digits) (rule pad_digits_digit)
  then have "ascii (strip_zeros (pad_digits 9 (nat (t mod second_ns))))"
    using j by (metis list_all_append)
  then show ?thesis by (simp add: nano_fraction_def is_ascii_def Let_def del: pad_digits.simps)
qed

lemma ascii_nano: "json_year t \<Longrightarrow> ascii (format_rfc3339nano t)"
proof -
  assume t: "json_year t"
  obtain y m d h mi s where c: "civil t = (y, m, d, h, mi, s)" by (cases "civil t") auto
  note spec = civil_spec [OF c]
  have b: "d < 100" "m < 100" "h < 100" "mi < 100" "s < 100" "nat y < 10000" "0 \<le> y"
    using spec t by (auto simp: c json_year_def days_in_def split: if_splits)
  have "format_rfc3339nano t = pad4 (nat y) @ CHR ''-'' # pad2 m @ CHR ''-'' # pad2 d @ CHR ''T'' #
      pad2 h @ CHR '':'' # pad2 mi @ CHR '':'' # pad2 s @ nano_fraction t @ ''Z''"
    using b by (simp add: format_rfc3339nano_def format_rfc3339_def c butlast_append)
  then show ?thesis using b ascii_nano_fraction by (simp add: is_ascii_def)
qed

end
