(* ===== verification/Base64.thy ===== *)
theory Base64
  imports GoStrings
begin

text \<open>
  The standard encoding of \<^verbatim>\<open>encoding/base64\<close>: groups of three bytes as four characters, padded.
  Decoding skips line breaks and, as the package does by default, ignores the spare bits of a
  padded group. Decoding what was encoded gives the bytes back.
\<close>

definition b64_char :: "nat \<Rightarrow> char" where
  "b64_char n =
     (if n < 26 then char_of (65 + n) else if n < 52 then char_of (71 + n)
      else if n < 62 then char_of (n - 4) else if n = 62 then CHR ''+'' else CHR ''/'')"

definition b64_val :: "char \<Rightarrow> nat option" where
  "b64_val c =
     (if is_upper c then Some (code c - 65) else if is_lower c then Some (code c - 71)
      else if is_digit c then Some (code c + 4)
      else if c = CHR ''+'' then Some 62 else if c = CHR ''/'' then Some 63 else None)"

definition pad_char :: char where
  "pad_char = CHR ''=''"

fun b64_encode :: "bytes \<Rightarrow> string" where
  "b64_encode [] = []"
| "b64_encode [a] =
     (let n = unat a * 16 in [b64_char (n div 64), b64_char (n mod 64), pad_char, pad_char])"
| "b64_encode [a, b] =
     (let n = (unat a * 256 + unat b) * 4
      in [b64_char (n div 4096), b64_char (n div 64 mod 64), b64_char (n mod 64), pad_char])"
| "b64_encode (a # b # c # r) =
     (let n = (unat a * 256 + unat b) * 256 + unat c
      in b64_char (n div 262144) # b64_char (n div 4096 mod 64) # b64_char (n div 64 mod 64) #
         b64_char (n mod 64) # b64_encode r)"

fun b64_groups :: "string \<Rightarrow> bytes option" where
  "b64_groups [] = Some []"
| "b64_groups (a # b # c # d # r) =
     (case (b64_val a, b64_val b) of
        (Some x, Some y) \<Rightarrow>
          (if c = pad_char
           then (if d = pad_char \<and> r = [] then Some [word_of_nat ((x * 64 + y) div 16)] else None)
           else case b64_val c of
                  None \<Rightarrow> None
                | Some z \<Rightarrow>
                    (if d = pad_char
                     then (let n = ((x * 64 + y) * 64 + z) div 4 in
                           if r = [] then Some [word_of_nat (n div 256), word_of_nat (n mod 256)] else None)
                     else case (b64_val d, b64_groups r) of
                            (Some w, Some bs) \<Rightarrow>
                              (let n = ((x * 64 + y) * 64 + z) * 64 + w
                               in Some (word_of_nat (n div 65536) # word_of_nat (n div 256 mod 256) #
                                        word_of_nat (n mod 256) # bs))
                          | _ \<Rightarrow> None))
      | _ \<Rightarrow> None)"
| "b64_groups s = None"

definition b64_decode :: "string \<Rightarrow> bytes option" where
  "b64_decode s = b64_groups (filter (\<lambda>c. code c \<noteq> 10 \<and> code c \<noteq> 13) s)"

lemma b64_val_char [simp]: "n < 64 \<Longrightarrow> b64_val (b64_char n) = Some n"
  by (auto simp: b64_val_def b64_char_def is_upper_def is_lower_def is_digit_def)

lemma b64_char_plain [simp]: "n < 64 \<Longrightarrow> b64_char n \<noteq> pad_char" "n < 64 \<Longrightarrow> code (b64_char n) \<noteq> 10"
  "n < 64 \<Longrightarrow> code (b64_char n) \<noteq> 13"
proof -
  have v: "b64_val pad_char = None" "code c = 10 \<or> code c = 13 \<Longrightarrow> b64_val c = None" for c
    by (auto simp: b64_val_def pad_char_def is_upper_def is_lower_def is_digit_def)
  show "n < 64 \<Longrightarrow> b64_char n \<noteq> pad_char" "n < 64 \<Longrightarrow> code (b64_char n) \<noteq> 10"
    "n < 64 \<Longrightarrow> code (b64_char n) \<noteq> 13"
    using v b64_val_char [of n] by (metis option.distinct(1))+
qed

lemma six_bits: "(n :: nat) div 64 * 64 + n mod 64 = n"
  "(n div 4096 * 64 + n div 64 mod 64) * 64 + n mod 64 = n"
  "((n div 262144 * 64 + n div 4096 mod 64) * 64 + n div 64 mod 64) * 64 + n mod 64 = n"
proof -
  have *: "m div 64 * 64 + m mod 64 = m" for m :: nat by simp
  have d: "n div 64 div 64 = n div 4096" "n div 4096 div 64 = n div 262144"
    by (simp_all add: div_mult2_eq [symmetric])
  show "n div 64 * 64 + n mod 64 = n" by (rule *)
  show 2: "(n div 4096 * 64 + n div 64 mod 64) * 64 + n mod 64 = n"
    using * [of n] * [of "n div 64"] by (simp add: d)
  show "((n div 262144 * 64 + n div 4096 mod 64) * 64 + n div 64 mod 64) * 64 + n mod 64 = n"
    using 2 * [of "n div 4096"] by (simp add: d)
qed

lemma b64_groups_encode: "b64_groups (b64_encode bs) = Some bs"
proof (induction bs rule: b64_encode.induct)
  case (2 a)
  define n where "n = unat a * 16"
  have "n < 64 * 64" using unat_byte_less [of a] by (simp add: n_def)
  then have "n div 64 < 64" by (rule less_mult_imp_div_less)
  moreover have "n div 16 = unat a" by (simp add: n_def)
  ultimately show ?case
    unfolding b64_encode.simps Let_def n_def [symmetric] six_bits by simp
next
  case (3 a b)
  define n where "n = (unat a * 256 + unat b) * 4"
  have "unat a \<le> 255" "unat b \<le> 255" using unat_byte_less [of a] unat_byte_less [of b] by linarith+
  then have "n < 64 * 4096" unfolding n_def by simp
  then have "n div 4096 < 64" by (rule less_mult_imp_div_less)
  moreover have "n div 4 = unat a * 256 + unat b" by (simp add: n_def)
  moreover have "4096 * (n div 4096) + n div 64 mod 64 * 64 + n mod 64 = n"
    using six_bits(2) [of n] by (simp add: distrib_right)
  moreover have "(unat a * 256 + unat b) div 256 = unat a" "(unat a * 256 + unat b) mod 256 = unat b"
    using unat_byte_less [of b] by simp_all
  ultimately show ?case
    unfolding b64_encode.simps Let_def n_def [symmetric] by (simp add: Let_def)
next
  case (4 a b c r)
  define n where "n = (unat a * 256 + unat b) * 256 + unat c"
  note bounds = unat_byte_less [of a] unat_byte_less [of b] unat_byte_less [of c]
  have "unat a \<le> 255" "unat b \<le> 255" "unat c \<le> 255" using bounds by linarith+
  then have "n < 64 * 262144" unfolding n_def by simp
  then have "n div 262144 < 64" by (rule less_mult_imp_div_less)
  moreover have "n div 65536 = unat a" "n div 256 mod 256 = unat b" "n mod 256 = unat c"
  proof -
    have low: "(A * 256 + x) div 256 = A" "(A * 256 + x) mod 256 = x" if "x < 256" for A x :: nat
      using that by simp_all
    have m: "n div 256 = unat a * 256 + unat b" "n mod 256 = unat c" unfolding n_def using low bounds(3) by blast+
    then show "n mod 256 = unat c" "n div 256 mod 256 = unat b" using low(2) bounds(2) by simp_all
    have "n div 65536 = n div 256 div 256" by (simp add: div_mult2_eq [symmetric])
    then show "n div 65536 = unat a" using bounds by (simp add: m)
  qed
  moreover have "262144 * (n div 262144) + 4096 * (n div 4096 mod 64) + n div 64 mod 64 * 64 + n mod 64 = n"
    using six_bits(3) [of n] by (simp add: distrib_right)
  ultimately show ?case
    using 4 unfolding b64_encode.simps Let_def n_def [symmetric] by (simp add: Let_def)
qed simp

lemma b64_encode_chars: "c \<in> set (b64_encode bs) \<Longrightarrow> c = pad_char \<or> b64_val c \<noteq> None"
proof (induction bs rule: b64_encode.induct)
  case (2 a)
  have "unat a * 16 < 64 * 64" using unat_byte_less [of a] by simp
  then have "unat a * 16 div 64 < 64" by (rule less_mult_imp_div_less)
  then show ?case using 2 by (auto simp: Let_def simp del: div_mult_mult2)
next
  case (3 a b)
  define n where "n = (unat a * 256 + unat b) * 4"
  have "unat a \<le> 255" "unat b \<le> 255" using unat_byte_less [of a] unat_byte_less [of b] by linarith+
  then have "n < 64 * 4096" unfolding n_def by simp
  then have "n div 4096 < 64" by (rule less_mult_imp_div_less)
  then show ?case using 3 unfolding b64_encode.simps Let_def n_def [symmetric] by auto
next
  case (4 a b d r)
  define n where "n = (unat a * 256 + unat b) * 256 + unat d"
  have "unat a \<le> 255" "unat b \<le> 255" "unat d \<le> 255"
    using unat_byte_less [of a] unat_byte_less [of b] unat_byte_less [of d] by linarith+
  then have "n < 64 * 262144" unfolding n_def by simp
  then have "n div 262144 < 64" by (rule less_mult_imp_div_less)
  then show ?case using 4 unfolding b64_encode.simps Let_def n_def [symmetric] by auto
qed simp

lemma b64_decode_encode [simp, wire]: "b64_decode (b64_encode bs) = Some bs"
proof -
  have "b64_val c = None \<and> c \<noteq> pad_char" if "code c = 10 \<or> code c = 13" for c
    using that by (auto simp: b64_val_def pad_char_def is_upper_def is_lower_def is_digit_def)
  then have "filter (\<lambda>c. code c \<noteq> 10 \<and> code c \<noteq> 13) (b64_encode bs) = b64_encode bs"
    using b64_encode_chars [of _ bs] unfolding filter_id_conv by metis
  then show ?thesis by (simp add: b64_decode_def b64_groups_encode)
qed

end
