(* ===== verification/Manifest.thy ===== *)
theory Manifest
  imports Crypto AppCrypto Json Base64 StorageApi
begin

text \<open>
  The drop manifest, in the two packages that have one: \<^verbatim>\<open>internal/manifest/manifest.go\<close> (\<open>mf_\<close>)
  and \<^verbatim>\<open>internal/app/manifest.go\<close> (\<open>am_\<close>). A manifest is signed over its JSON text without the
  signature. Times of the first package are UTC times, as \<^verbatim>\<open>New\<close> makes them; a nil slice of
  files is \<open>None\<close>. Saved manifests are documents in a directory.
\<close>

section \<open>Data\<close>

record file_entry =
  fe_NameEnc :: string
  fe_Nonce :: string
  fe_Size :: int
  fe_Hash :: string

record storage_ref =
  sr_Backend :: string
  sr_Ref :: string

record access =
  ac_WrappedKey :: string
  ac_EphemPub :: string
  ac_PassphraseSalt :: string
  ac_KDF :: string

record payment =
  py_Amount :: u64
  py_Address :: string
  py_TxidRequired :: bool

record signature =
  sg_By :: string
  sg_Pub :: string
  sg_Sig :: string

record manifest =
  mf_DropID :: string
  mf_Version :: int
  mf_CreatedAt :: time
  mf_ExpiresAt :: time
  mf_Mode :: string
  mf_SenderIdentity :: string
  mf_RecipientCommitment :: string
  mf_Cipher :: string
  mf_PayloadHash :: string
  mf_PayloadSize :: int
  mf_PlaintextHash :: string
  mf_FileCount :: int
  mf_Files :: "file_entry list option"
  mf_Storage :: storage_ref
  mf_Access :: access
  mf_Payment :: payment
  mf_OneTime :: bool
  mf_Signature :: signature
  mf_ChunkSize :: int

definition mf_Version_current :: int where
  "mf_Version_current = 1"

definition mf_ChunkSize_current :: int where
  "mf_ChunkSize_current = 2 ^ 20"

definition mf_CipherSuite :: string where
  "mf_CipherSuite = ''XChaCha20-Poly1305''"

definition knownModes :: "string list" where
  "knownModes = [''anonymous'', ''password'', ''recipient'', ''paid'', ''direct'']"

definition no_signature :: signature where
  "no_signature = \<lparr>sg_By = [], sg_Pub = [], sg_Sig = []\<rparr>"

definition mf_New :: "time \<Rightarrow> string \<Rightarrow> string \<Rightarrow> time \<Rightarrow> manifest" where
  "mf_New now did mode expiry =
     \<lparr>mf_DropID = did, mf_Version = mf_Version_current, mf_CreatedAt = now, mf_ExpiresAt = expiry,
      mf_Mode = mode, mf_SenderIdentity = [], mf_RecipientCommitment = [], mf_Cipher = mf_CipherSuite,
      mf_PayloadHash = [], mf_PayloadSize = 0, mf_PlaintextHash = [], mf_FileCount = 0,
      mf_Files = Some [], mf_Storage = \<lparr>sr_Backend = [], sr_Ref = []\<rparr>,
      mf_Access = \<lparr>ac_WrappedKey = [], ac_EphemPub = [], ac_PassphraseSalt = [], ac_KDF = []\<rparr>,
      mf_Payment = \<lparr>py_Amount = 0, py_Address = [], py_TxidRequired = False\<rparr>, mf_OneTime = False,
      mf_Signature = no_signature, mf_ChunkSize = mf_ChunkSize_current\<rparr>"

abbreviation mf_files :: "manifest \<Rightarrow> file_entry list" where
  "mf_files m \<equiv> (case mf_Files m of None \<Rightarrow> [] | Some fs \<Rightarrow> fs)"

section \<open>Validation\<close>

datatype mf_err =
    MfNil | MfBadDropID | MfBadDropIDHex | MfBadVersion int | MfEmptyMode | MfUnknownMode string
  | MfZeroCreated | MfExpiryOrder | MfBadChunkSize | MfEmptyCipher | MfFileCount | MfNegativePayload
  | MfFileName nat | MfFileNameHex nat | MfFileNonceHex nat | MfFileSize nat
  | MfCrypto crypto_err | MfBadSigningKey nat | MfOpen nat crypto_err | MfBadMetaNonce | MfBadMetaCipher
  | MfNotFound | MfBadJSON | MfMarshal

fun mf_validate_files :: "nat \<Rightarrow> file_entry list \<Rightarrow> mf_err option" where
  "mf_validate_files i [] = None"
| "mf_validate_files i (f # fs) =
     (if fe_NameEnc f = '''' \<or> fe_Nonce f = '''' then Some (MfFileName i)
      else if hex_decode (fe_NameEnc f) = None then Some (MfFileNameHex i)
      else if hex_decode (fe_Nonce f) = None then Some (MfFileNonceHex i)
      else if fe_Size f < 0 then Some (MfFileSize i)
      else mf_validate_files (i + 1) fs)"

definition mf_Validate :: "manifest option \<Rightarrow> mf_err option" where
  "mf_Validate om =
     (case om of
        None \<Rightarrow> Some MfNil
      | Some m \<Rightarrow>
          (if \<not> has_prefix ''GD-'' (mf_DropID m) \<or> length (mf_DropID m) \<noteq> 15 then Some MfBadDropID
           else if hex_decode (drop 3 (mf_DropID m)) = None then Some MfBadDropIDHex
           else if mf_Version m \<noteq> mf_Version_current then Some (MfBadVersion (mf_Version m))
           else if mf_Mode m = '''' then Some MfEmptyMode
           else if mf_Mode m \<notin> set knownModes then Some (MfUnknownMode (mf_Mode m))
           else if mf_CreatedAt m = 0 then Some MfZeroCreated
           else if \<not> mf_CreatedAt m < mf_ExpiresAt m then Some MfExpiryOrder
           else if mf_ChunkSize m \<noteq> mf_ChunkSize_current then Some MfBadChunkSize
           else if mf_Cipher m = '''' then Some MfEmptyCipher
           else if mf_FileCount m \<noteq> int (length (mf_files m)) then Some MfFileCount
           else if mf_PayloadSize m < 0 then Some MfNegativePayload
           else mf_validate_files 0 (mf_files m)))"

section \<open>The signed text\<close>

definition entry_json :: "file_entry \<Rightarrow> json" where
  "entry_json f = JsObj [(''name_enc'', JsStr (fe_NameEnc f)), (''nonce'', JsStr (fe_Nonce f)),
     (''size'', JsInt (fe_Size f)), (''hash'', JsStr (fe_Hash f))]"

definition files_json :: "file_entry list option \<Rightarrow> json" where
  "files_json ofs = (case ofs of None \<Rightarrow> JsNull | Some fs \<Rightarrow> JsArr (map entry_json fs))"

definition mf_json :: "manifest \<Rightarrow> json" where
  "mf_json m = JsObj
     [(''drop_id'', JsStr (mf_DropID m)), (''version'', JsInt (mf_Version m)),
      (''created_at'', JsStr (format_rfc3339nano (mf_CreatedAt m))),
      (''expires_at'', JsStr (format_rfc3339nano (mf_ExpiresAt m))), (''mode'', JsStr (mf_Mode m)),
      (''sender_identity'', JsStr (mf_SenderIdentity m)),
      (''recipient_commitment'', JsStr (mf_RecipientCommitment m)), (''cipher'', JsStr (mf_Cipher m)),
      (''payload_hash'', JsStr (mf_PayloadHash m)), (''payload_size'', JsInt (mf_PayloadSize m)),
      (''plaintext_hash'', JsStr (mf_PlaintextHash m)), (''file_count'', JsInt (mf_FileCount m)),
      (''files'', files_json (mf_Files m)),
      (''storage'', JsObj [(''backend'', JsStr (sr_Backend (mf_Storage m))), (''ref'', JsStr (sr_Ref (mf_Storage m)))]),
      (''access'', JsObj [(''wrapped_key'', JsStr (ac_WrappedKey (mf_Access m))),
         (''ephem_pub'', JsStr (ac_EphemPub (mf_Access m))),
         (''passphrase_salt'', JsStr (ac_PassphraseSalt (mf_Access m))), (''kdf'', JsStr (ac_KDF (mf_Access m)))]),
      (''payment'', JsObj [(''amount'', JsInt (uint (py_Amount (mf_Payment m)))),
         (''address'', JsStr (py_Address (mf_Payment m))),
         (''txid_required'', JsBool (py_TxidRequired (mf_Payment m)))]),
      (''one_time'', JsBool (mf_OneTime m)),
      (''signature'', JsObj [(''by'', JsStr (sg_By (mf_Signature m))), (''pub'', JsStr (sg_Pub (mf_Signature m))),
         (''sig'', JsStr (sg_Sig (mf_Signature m)))]),
      (''chunk_size'', JsInt (mf_ChunkSize m))]"

text \<open>\<^verbatim>\<open>json.Marshal\<close>; a time whose year has more than four digits is an error, which
  \<^verbatim>\<open>CanonicalBytes\<close> drops together with the result.\<close>

definition mf_marshal :: "manifest \<Rightarrow> bytes option" where
  "mf_marshal m =
     (if json_year (mf_CreatedAt m) \<and> json_year (mf_ExpiresAt m) then Some (bytes_of (json_print (mf_json m)))
      else None)"

definition mf_CanonicalBytes :: "manifest \<Rightarrow> bytes" where
  "mf_CanonicalBytes m =
     (case mf_marshal (m\<lparr>mf_Signature := no_signature\<rparr>) of None \<Rightarrow> [] | Some raw \<Rightarrow> raw)"

definition mf_pubFromPriv :: "prims \<Rightarrow> bytes \<Rightarrow> mf_err + bytes" where
  "mf_pubFromPriv P priv =
     (if length priv = 32 then Inr (p_seed_pub P priv)
      else if length priv = 64 then Inr (drop 32 priv)
      else Inl (MfBadSigningKey (length priv)))"

definition mf_Sign :: "prims \<Rightarrow> bytes \<Rightarrow> string \<Rightarrow> manifest \<Rightarrow> mf_err option \<times> manifest" where
  "mf_Sign P priv by_name m =
     (case crypto_Sign P priv (mf_CanonicalBytes m) of
        Inl e \<Rightarrow> (Some (MfCrypto e), m)
      | Inr sig \<Rightarrow>
          (case mf_pubFromPriv P priv of
             Inl e \<Rightarrow> (Some e, m)
           | Inr pub \<Rightarrow>
               (None, m\<lparr>mf_Signature := \<lparr>sg_By = by_name, sg_Pub = hex_encode pub, sg_Sig = hex_encode sig\<rparr>\<rparr>)))"

definition mf_Verify :: "prims \<Rightarrow> manifest option \<Rightarrow> bool" where
  "mf_Verify P om =
     (case om of
        None \<Rightarrow> False
      | Some m \<Rightarrow>
          (if sg_Pub (mf_Signature m) = '''' \<or> sg_Sig (mf_Signature m) = '''' then False
           else case hex_decode (sg_Pub (mf_Signature m)) of
                  None \<Rightarrow> False
                | Some pub \<Rightarrow>
                    (case hex_decode (sg_Sig (mf_Signature m)) of
                       None \<Rightarrow> False
                     | Some sig \<Rightarrow> crypto_Verify P pub (mf_CanonicalBytes m) sig)))"

section \<open>File names and metadata\<close>

text \<open>Each name is sealed with the next random nonce; on an error the manifest is unchanged.\<close>

fun mf_seal_names :: "prims \<Rightarrow> (nat \<Rightarrow> bytes option) \<Rightarrow> nat \<Rightarrow> bytes \<Rightarrow> string list \<Rightarrow> mf_err + file_entry list" where
  "mf_seal_names P rnd i key [] = Inr []"
| "mf_seal_names P rnd i key (n # ns) =
     (case crypto_SealBytes P (rnd i) (bytes_of n) key of
        Inl e \<Rightarrow> Inl (MfCrypto e)
      | Inr (nonce, cipher) \<Rightarrow>
          (case mf_seal_names P rnd (i + 1) key ns of
             Inl e \<Rightarrow> Inl e
           | Inr es \<Rightarrow> Inr (\<lparr>fe_NameEnc = hex_encode cipher, fe_Nonce = hex_encode nonce, fe_Size = 0,
               fe_Hash = []\<rparr> # es)))"

definition mf_EncryptFilenames ::
  "prims \<Rightarrow> (nat \<Rightarrow> bytes option) \<Rightarrow> string list \<Rightarrow> bytes \<Rightarrow> manifest \<Rightarrow> mf_err option \<times> manifest" where
  "mf_EncryptFilenames P rnd names key m =
     (case mf_seal_names P rnd 0 key names of
        Inl e \<Rightarrow> (Some e, m)
      | Inr es \<Rightarrow> (None, m\<lparr>mf_Files := Some es, mf_FileCount := int (length es)\<rparr>))"

fun mf_open_names :: "prims \<Rightarrow> nat \<Rightarrow> bytes \<Rightarrow> file_entry list \<Rightarrow> mf_err + string list" where
  "mf_open_names P i key [] = Inr []"
| "mf_open_names P i key (f # fs) =
     (case hex_decode (fe_Nonce f) of
        None \<Rightarrow> Inl (MfFileNonceHex i)
      | Some nonce \<Rightarrow>
          (case hex_decode (fe_NameEnc f) of
             None \<Rightarrow> Inl (MfFileNameHex i)
           | Some cipher \<Rightarrow>
               (case crypto_OpenBytes P nonce cipher key of
                  Inl e \<Rightarrow> Inl (MfOpen i e)
                | Inr plain \<Rightarrow>
                    (case mf_open_names P (i + 1) key fs of
                       Inl e \<Rightarrow> Inl e
                     | Inr ns \<Rightarrow> Inr (string_of plain # ns)))))"

definition mf_DecryptFilenames :: "prims \<Rightarrow> bytes \<Rightarrow> manifest \<Rightarrow> mf_err + string list" where
  "mf_DecryptFilenames P key m = mf_open_names P 0 key (mf_files m)"

definition mf_SetFileInfo :: "int \<Rightarrow> int \<Rightarrow> string \<Rightarrow> manifest \<Rightarrow> manifest" where
  "mf_SetFileInfo i sz hash m =
     (if 0 \<le> i \<and> i < int (length (mf_files m))
      then m\<lparr>mf_Files := Some ((mf_files m)[nat i := (mf_files m ! nat i)\<lparr>fe_Size := sz, fe_Hash := hash\<rparr>])\<rparr>
      else m)"

definition mf_SealMetadata :: "prims \<Rightarrow> bytes option \<Rightarrow> bytes \<Rightarrow> bytes \<Rightarrow> mf_err + string \<times> string" where
  "mf_SealMetadata P rnd plain key =
     (case crypto_SealBytes P rnd plain key of
        Inl e \<Rightarrow> Inl (MfCrypto e)
      | Inr (nonce, cipher) \<Rightarrow> Inr (hex_encode nonce, hex_encode cipher))"

definition mf_OpenMetadata :: "prims \<Rightarrow> string \<Rightarrow> string \<Rightarrow> bytes \<Rightarrow> mf_err + bytes" where
  "mf_OpenMetadata P nonceHex cipherHex key =
     (case hex_decode nonceHex of
        None \<Rightarrow> Inl MfBadMetaNonce
      | Some nonce \<Rightarrow>
          (case hex_decode cipherHex of
             None \<Rightarrow> Inl MfBadMetaCipher
           | Some cipher \<Rightarrow>
               (case crypto_OpenBytes P nonce cipher key of Inl e \<Rightarrow> Inl (MfCrypto e) | Inr b \<Rightarrow> Inr b)))"

text \<open>Files of a directory; a document is the manifest it was marshalled from.\<close>

definition mf_Save :: "manifest \<Rightarrow> string \<Rightarrow> manifest file_data dir \<Rightarrow> mf_err option \<times> manifest file_data dir" where
  "mf_Save m path d =
     (if mf_marshal m = None then (Some MfMarshal, d) else (None, dput path (Json m) d))"

definition mf_Load :: "string \<Rightarrow> manifest file_data dir \<Rightarrow> mf_err + manifest" where
  "mf_Load path d =
     (case dget d path of
        None \<Rightarrow> Inl MfNotFound
      | Some (Blob raw) \<Rightarrow> Inl MfBadJSON
      | Some (Json m) \<Rightarrow> (case mf_Validate (Some m) of Some e \<Rightarrow> Inl e | None \<Rightarrow> Inr m))"

section \<open>The signed text determines the manifest\<close>

text \<open>Manifests whose text fields are ASCII and whose times have a JSON form.\<close>

definition entry_ascii :: "file_entry \<Rightarrow> bool" where
  "entry_ascii f \<longleftrightarrow> ascii (fe_NameEnc f) \<and> ascii (fe_Nonce f) \<and> ascii (fe_Hash f)"

definition mf_plain :: "manifest \<Rightarrow> bool" where
  "mf_plain m \<longleftrightarrow>
     json_year (mf_CreatedAt m) \<and> json_year (mf_ExpiresAt m) \<and>
     list_all ascii [mf_DropID m, mf_Mode m, mf_SenderIdentity m, mf_RecipientCommitment m, mf_Cipher m,
       mf_PayloadHash m, mf_PlaintextHash m, sr_Backend (mf_Storage m), sr_Ref (mf_Storage m),
       ac_WrappedKey (mf_Access m), ac_EphemPub (mf_Access m), ac_PassphraseSalt (mf_Access m), ac_KDF (mf_Access m),
       py_Address (mf_Payment m)] \<and>
     list_all entry_ascii (mf_files m)"

lemma entry_json_inj: "entry_json f = entry_json g \<longleftrightarrow> f = g"
  by (cases f; cases g) (simp add: entry_json_def)

lemma files_json_inj: "files_json f = files_json g \<longleftrightarrow> f = g"
  by (auto simp: files_json_def map_injective inj_def entry_json_inj inj_map_eq_map split: option.splits)

lemma json_ok_files: "list_all entry_ascii fs \<Longrightarrow> json_oks (map entry_json fs)"
  by (induction fs) (simp_all add: entry_json_def entry_ascii_def is_ascii_def)

lemma mf_json_ok: "mf_plain m \<Longrightarrow> json_ok (mf_json (m\<lparr>mf_Signature := no_signature\<rparr>))"
  by (auto simp: mf_plain_def mf_json_def no_signature_def ascii_nano files_json_def json_ok_files is_ascii_def
      split: option.splits)

lemma mf_json_inj:
  assumes "mf_json m = mf_json n" "mf_plain m" "mf_plain n" shows "m = n"
proof -
  have "mf_CreatedAt m = mf_CreatedAt n" "mf_ExpiresAt m = mf_ExpiresAt n"
    using assms by (simp_all add: mf_json_def mf_plain_def format_nano_inj)
  moreover have "py_Amount (mf_Payment m) = py_Amount (mf_Payment n)"
    using assms(1) by (simp add: mf_json_def word_uint_eq_iff)
  ultimately show ?thesis using assms(1)
    by (auto simp: mf_json_def files_json_inj
        intro!: manifest.equality storage_ref.equality access.equality payment.equality signature.equality)
qed

lemma mf_canonical:
  "mf_plain m \<Longrightarrow> mf_CanonicalBytes m = bytes_of (json_print (mf_json (m\<lparr>mf_Signature := no_signature\<rparr>)))"
  by (simp add: mf_CanonicalBytes_def mf_marshal_def mf_plain_def)

text \<open>
  C14 What a manifest signature covers. For manifests with ASCII text fields and times of years 0
  to 9999, the bytes that are signed are the same exactly when the manifests agree in every
  field but the signature: no field can be altered, moved or split without changing them.
\<close>

theorem manifest_signature_binds:
  assumes "mf_plain m" "mf_plain n"
  shows "mf_CanonicalBytes m = mf_CanonicalBytes n \<longleftrightarrow> m\<lparr>mf_Signature := mf_Signature n\<rparr> = n"
proof
  let ?m = "m\<lparr>mf_Signature := no_signature\<rparr>" and ?n = "n\<lparr>mf_Signature := no_signature\<rparr>"
  assume "mf_CanonicalBytes m = mf_CanonicalBytes n"
  then have "json_print (mf_json ?m) = json_print (mf_json ?n)" using assms by (simp add: mf_canonical)
  then have "mf_json ?m = mf_json ?n" using assms by (simp add: json_print_inj mf_json_ok)
  moreover have "mf_plain ?m" "mf_plain ?n" using assms by (simp_all add: mf_plain_def)
  ultimately have "?m = ?n" by (rule mf_json_inj)
  then show "m\<lparr>mf_Signature := mf_Signature n\<rparr> = n" by (cases m; cases n) simp
next
  assume "m\<lparr>mf_Signature := mf_Signature n\<rparr> = n"
  then have "m\<lparr>mf_Signature := no_signature\<rparr> = n\<lparr>mf_Signature := no_signature\<rparr>" by (cases m; cases n) simp
  then show "mf_CanonicalBytes m = mf_CanonicalBytes n" by (simp add: mf_CanonicalBytes_def)
qed

theorem manifest_signature_binds_witness:
  "mf_CanonicalBytes (mf_New 0 ''GD-0123456789AB'' ''paid'' second_ns) \<noteq>
    mf_CanonicalBytes (mf_New 0 ''GD-0123456789AB'' ''direct'' second_ns)"
proof -
  have "json_year 0" "json_year second_ns" by code_simp+
  then have "mf_plain (mf_New 0 ''GD-0123456789AB'' x second_ns)" if "ascii x" for x
    using that by (simp add: mf_plain_def mf_New_def mf_CipherSuite_def is_ascii_def)
  then show ?thesis
    using manifest_signature_binds [of "mf_New 0 ''GD-0123456789AB'' ''paid'' second_ns"
        "mf_New 0 ''GD-0123456789AB'' ''direct'' second_ns"]
    by (simp add: is_ascii_def mf_New_def)
qed

lemma mf_canonical_signature [simp]: "mf_CanonicalBytes (m\<lparr>mf_Signature := sg\<rparr>) = mf_CanonicalBytes m"
  by (simp add: mf_CanonicalBytes_def)



section \<open>File names\<close>

lemma open_seal_names:
  assumes "aead_ok P" "length key = KeySize"
    and "\<And>i. rnd i \<noteq> None" "\<And>i b. rnd i = Some b \<Longrightarrow> length b = NonceSize"
    and "list_all (\<lambda>n. length n \<le> aead_max) names"
  shows "\<exists>es. mf_seal_names P rnd i key names = Inr es \<and> length es = length names \<and>
    mf_open_names P j key es = Inr names \<and> mf_validate_files j es = None"
  using assms(5)
proof (induction names arbitrary: i j)
  case (Cons n names)
  obtain nonce where r: "rnd i = Some nonce" using assms(3) [of i] by auto
  then have len: "length nonce = NonceSize" by (rule assms(4))
  then have ne: "nonce \<noteq> []" by (auto simp: NonceSize_def)
  from Cons obtain es where es: "mf_seal_names P rnd (i + 1) key names = Inr es" "length es = length names"
    "mf_open_names P (j + 1) key es = Inr names" "mf_validate_files (j + 1) es = None"
    by auto
  have o: "p_open P key nonce (p_seal P key nonce (bytes_of n)) = Some (bytes_of n)"
    using Cons.prems by (intro aead_open_seal [OF assms(1)]) simp
  have "length (p_seal P key nonce (bytes_of n)) = length n + overhead"
    using Cons.prems aead_seal_length [OF assms(1), of "bytes_of n"] by simp
  then have "p_seal P key nonce (bytes_of n) \<noteq> []" by auto
  then show ?case
    using es r o len ne assms(2)
    by (auto simp: crypto_SealBytes_def crypto_OpenBytes_def)
qed simp

lemma seal_names_length: "mf_seal_names P rnd i key names = Inr es \<Longrightarrow> length es = length names"
  by (induction names arbitrary: i es) (auto split: sum.splits prod.splits)

text \<open>
  File names survive their encryption. When randomness is there, the names are sealed into
  one entry each, in order; the manifest counts them, passes the checks on its files, and opens
  to the same names under the same key. Without the randomness for some name the manifest is
  left as it was.
\<close>

theorem manifest_filenames_roundtrip:
  assumes "aead_ok P" "length key = KeySize" "list_all (\<lambda>n. length n \<le> aead_max) names"
    and "\<forall>i b. rnd i = Some b \<longrightarrow> length b = NonceSize"
  shows "case mf_EncryptFilenames P rnd names key m of
    (Some e, m') \<Rightarrow> m' = m \<and> (\<exists>i. rnd i = None)
  | (None, m') \<Rightarrow> ((\<forall>i. rnd i \<noteq> None) \<longrightarrow> mf_DecryptFilenames P key m' = Inr names) \<and>
      mf_FileCount m' = int (length (mf_files m')) \<and> length (mf_files m') = length names"
proof (cases "mf_seal_names P rnd 0 key names")
  case (Inl e)
  have "\<exists>i. rnd i = None"
    using open_seal_names [OF assms(1,2) _ _ assms(3), of rnd 0 0] assms(4) Inl by fastforce
  then show ?thesis by (simp add: mf_EncryptFilenames_def Inl)
next
  case (Inr es)
  then have "length es = length names" by (rule seal_names_length)
  then show ?thesis
    using Inr open_seal_names [OF assms(1,2) _ _ assms(3), of rnd 0 0] assms(4)
    by (auto simp: mf_EncryptFilenames_def mf_DecryptFilenames_def)
qed

theorem manifest_filenames_roundtrip_witness:
  "\<exists>m'. mf_EncryptFilenames sample_prims (\<lambda>i. Some (replicate 24 0)) [''a.txt'', ''b''] (replicate 32 0)
      (mf_New 0 [] [] 1) = (None, m') \<and>
    mf_DecryptFilenames sample_prims (replicate 32 0) m' = Inr [''a.txt'', ''b'']"
proof -
  have "length ''a.txt'' \<le> aead_max" "length ''b'' \<le> aead_max" by (simp_all add: aead_max_def)
  then show ?thesis
    using manifest_filenames_roundtrip [OF sample_aead_ok, of "replicate 32 0" "[''a.txt'', ''b'']"
        "\<lambda>i. Some (replicate 24 0)" "mf_New 0 [] [] 1"]
    by (auto simp: KeySize_def NonceSize_def split: prod.splits option.splits)
qed

text \<open>A fresh manifest with a generated identifier and a known mode is valid exactly when it expires
  after it was made.\<close>

lemma mf_New_valid:
  assumes "crypto_GenerateDropID (Some b) = Some did" "length b = 6" "mode \<in> set knownModes" "now \<noteq> 0"
  shows "mf_Validate (Some (mf_New now did mode expiry)) = (if now < expiry then None else Some MfExpiryOrder)"
proof -
  have "did = ''GD-'' @ map ascii_upper (hex_encode b)"
    using assms(1) by (simp add: crypto_GenerateDropID_def)
  then show ?thesis using assms(2-4) hex_decode_upper [of b]
    by (auto simp: mf_Validate_def mf_New_def knownModes_def mf_CipherSuite_def mf_ChunkSize_current_def
      mf_Version_current_def has_prefix_def)
qed

end
