(* ===== verification/AppManifest.thy ===== *)
theory AppManifest
  imports Manifest
begin

text \<open>
  The manifest of the application, \<^verbatim>\<open>internal/app/manifest.go\<close> (\<open>am_\<close>): times are text, file names
  are base64, the signature is optional, and empty fields of some blocks are left out of the
  signed text. \<open>None\<close> as the outcome of an operation is a panic.
\<close>

section \<open>Data\<close>

record app_manifest =
  am_DropID :: string
  am_Version :: int
  am_CreatedAt :: string
  am_ExpiresAt :: string
  am_Mode :: string
  am_SenderIdentity :: string
  am_RecipientCommitment :: string
  am_Cipher :: string
  am_PayloadHash :: string
  am_PayloadSize :: int
  am_PlaintextHash :: string
  am_FileCount :: int
  am_Files :: "file_entry list option"
  am_Storage :: storage_ref
  am_Access :: access
  am_Payment :: payment
  am_OneTime :: bool
  am_Signature :: "signature option"
  am_ChunkSize :: int

abbreviation am_files :: "app_manifest \<Rightarrow> file_entry list" where
  "am_files m \<equiv> (case am_Files m of None \<Rightarrow> [] | Some fs \<Rightarrow> fs)"

definition am_NewManifest :: "time \<Rightarrow> string \<Rightarrow> string \<Rightarrow> time \<Rightarrow> app_manifest" where
  "am_NewManifest now did mode expiry =
     \<lparr>am_DropID = did, am_Version = 1, am_CreatedAt = format_rfc3339 now, am_ExpiresAt = format_rfc3339 expiry,
      am_Mode = mode, am_SenderIdentity = [], am_RecipientCommitment = [], am_Cipher = ''xchacha20-poly1305'',
      am_PayloadHash = [], am_PayloadSize = 0, am_PlaintextHash = [], am_FileCount = 0, am_Files = None,
      am_Storage = \<lparr>sr_Backend = [], sr_Ref = []\<rparr>,
      am_Access = \<lparr>ac_WrappedKey = [], ac_EphemPub = [], ac_PassphraseSalt = [], ac_KDF = []\<rparr>,
      am_Payment = \<lparr>py_Amount = 0, py_Address = [], py_TxidRequired = False\<rparr>, am_OneTime = False,
      am_Signature = None, am_ChunkSize = int app_ChunkSize\<rparr>"

section \<open>Validation\<close>

datatype am_err =
    AmBadDropID | AmBadVersion int | AmBadCreatedAt | AmBadExpiresAt | AmExpiryOrder | AmUnknownMode string
  | AmUnknownCipher string | AmBadHash | AmBadPayloadSize | AmFileCount | AmBadFileEntry | AmUnknownBackend string
  | AmUnknownKDF string | AmBadChunkSize int | AmIndex | AmBadBase64 | AmCrypto app_crypto_err

definition am_entry_ok :: "file_entry \<Rightarrow> bool" where
  "am_entry_ok f \<longleftrightarrow>
     \<not> (fe_NameEnc f = '''' \<or> fe_Nonce f = '''' \<or> length (fe_Hash f) \<noteq> 64 \<or> fe_Size f < 0)"

definition am_Validate :: "app_manifest \<Rightarrow> am_err option" where
  "am_Validate m =
     (if \<not> has_prefix ''GD-'' (am_DropID m) \<or> length (am_DropID m) \<noteq> 15 then Some AmBadDropID
      else if am_Version m \<noteq> 1 then Some (AmBadVersion (am_Version m))
      else case parse_rfc3339 (am_CreatedAt m) of
             None \<Rightarrow> Some AmBadCreatedAt
           | Some created \<Rightarrow>
               (case parse_rfc3339 (am_ExpiresAt m) of
                  None \<Rightarrow> Some AmBadExpiresAt
                | Some expiry \<Rightarrow>
                    (if \<not> created < expiry then Some AmExpiryOrder
                     else if am_Mode m \<notin> {''open'', ''password'', ''recipient'', ''paid'', ''demo''}
                     then Some (AmUnknownMode (am_Mode m))
                     else if am_Cipher m \<noteq> ''xchacha20-poly1305'' then Some (AmUnknownCipher (am_Cipher m))
                     else if length (am_PayloadHash m) \<noteq> 64 \<or> length (am_PlaintextHash m) \<noteq> 64 then Some AmBadHash
                     else if am_PayloadSize m \<le> 0 then Some AmBadPayloadSize
                     else if am_FileCount m \<noteq> int (length (am_files m)) \<or> am_FileCount m < 1 then Some AmFileCount
                     else if \<not> list_all am_entry_ok (am_files m) then Some AmBadFileEntry
                     else if sr_Backend (am_Storage m) \<noteq> ''local'' \<and> sr_Backend (am_Storage m) \<noteq> ''relay''
                     then Some (AmUnknownBackend (sr_Backend (am_Storage m)))
                     else if ac_KDF (am_Access m) \<notin> {'''', ''none'', ''argon2id'', ''x25519'', ''commitment''}
                     then Some (AmUnknownKDF (ac_KDF (am_Access m)))
                     else if am_ChunkSize m \<noteq> int app_ChunkSize then Some (AmBadChunkSize (am_ChunkSize m))
                     else None)))"

section \<open>The signed text\<close>

text \<open>\<^verbatim>\<open>omitempty\<close>: members with the zero value are left out.\<close>

definition omit_str :: "string \<Rightarrow> string \<Rightarrow> (string \<times> json) list" where
  "omit_str k s = (if s = [] then [] else [(k, JsStr s)])"

definition am_json :: "app_manifest \<Rightarrow> json" where
  "am_json m = JsObj
     ([(''drop_id'', JsStr (am_DropID m)), (''version'', JsInt (am_Version m)),
       (''created_at'', JsStr (am_CreatedAt m)), (''expires_at'', JsStr (am_ExpiresAt m)),
       (''mode'', JsStr (am_Mode m)), (''sender_identity'', JsStr (am_SenderIdentity m))] @
      omit_str ''recipient_commitment'' (am_RecipientCommitment m) @
      [(''cipher'', JsStr (am_Cipher m)), (''payload_hash'', JsStr (am_PayloadHash m)),
       (''payload_size'', JsInt (am_PayloadSize m)), (''plaintext_hash'', JsStr (am_PlaintextHash m)),
       (''file_count'', JsInt (am_FileCount m)), (''files'', files_json (am_Files m)),
       (''storage'', JsObj [(''backend'', JsStr (sr_Backend (am_Storage m))), (''ref'', JsStr (sr_Ref (am_Storage m)))]),
       (''access'', JsObj (omit_str ''wrapped_key'' (ac_WrappedKey (am_Access m)) @
          omit_str ''ephem_pub'' (ac_EphemPub (am_Access m)) @
          omit_str ''passphrase_salt'' (ac_PassphraseSalt (am_Access m)) @ omit_str ''kdf'' (ac_KDF (am_Access m)))),
       (''payment'', JsObj ((if py_Amount (am_Payment m) = 0 then []
            else [(''amount'', JsInt (uint (py_Amount (am_Payment m))))]) @
          omit_str ''address'' (py_Address (am_Payment m)) @
          (if py_TxidRequired (am_Payment m) then [(''txid_required'', JsBool True)] else []))),
       (''one_time'', JsBool (am_OneTime m))] @
      (case am_Signature m of None \<Rightarrow> []
       | Some sg \<Rightarrow> [(''signature'', JsObj [(''by'', JsStr (sg_By sg)), (''pub'', JsStr (sg_Pub sg)), (''sig'', JsStr (sg_Sig sg))])]) @
      [(''chunk_size'', JsInt (am_ChunkSize m))])"

definition am_CanonicalBytes :: "app_manifest \<Rightarrow> bytes" where
  "am_CanonicalBytes m = bytes_of (json_print (am_json (m\<lparr>am_Signature := None\<rparr>)))"

definition am_Sign :: "prims \<Rightarrow> bytes \<Rightarrow> app_manifest \<Rightarrow> am_err option \<times> app_manifest" where
  "am_Sign P priv m =
     (case app_Sign P priv (am_CanonicalBytes m) of
        Inl e \<Rightarrow> (Some (AmCrypto e), m)
      | Inr sig \<Rightarrow>
          (let pub = drop (length priv - 32) priv
           in (None, m\<lparr>am_Signature := Some \<lparr>sg_By = am_SenderIdentity m, sg_Pub = hex_encode pub,
                 sg_Sig = hex_encode sig\<rparr>\<rparr>)))"

definition am_Verify :: "prims \<Rightarrow> app_manifest \<Rightarrow> bool" where
  "am_Verify P m =
     (case am_Signature m of
        None \<Rightarrow> False
      | Some sg \<Rightarrow>
          (case hex_decode (sg_Pub sg) of
             None \<Rightarrow> False
           | Some pub \<Rightarrow>
               (case hex_decode (sg_Sig sg) of
                  None \<Rightarrow> False
                | Some sig \<Rightarrow> app_Verify P pub (am_CanonicalBytes m) sig)))"

section \<open>File names\<close>

text \<open>Entries are appended one by one; a missing size or hash is a panic.\<close>

fun am_encrypt_loop ::
  "prims \<Rightarrow> (nat \<Rightarrow> bytes option) \<Rightarrow> bytes \<Rightarrow> nat \<Rightarrow> string list \<Rightarrow> int list \<Rightarrow> string list \<Rightarrow> file_entry list \<Rightarrow>
    (am_err option \<times> file_entry list) option" where
  "am_encrypt_loop P rnd key i [] sizes hashes fs = Some (None, fs)"
| "am_encrypt_loop P rnd key i (n # ns) sizes hashes fs =
     (case app_SealBytes P (rnd i) (bytes_of n) key of
        Inl e \<Rightarrow> Some (Some (AmCrypto e), fs)
      | Inr (nonce, sealed) \<Rightarrow>
          (if length sizes \<le> i \<or> length hashes \<le> i then None
           else am_encrypt_loop P rnd key (i + 1) ns sizes hashes
                  (fs @ [\<lparr>fe_NameEnc = b64_encode sealed, fe_Nonce = b64_encode nonce, fe_Size = sizes ! i,
                          fe_Hash = hashes ! i\<rparr>])))"

definition am_EncryptFilenames ::
  "prims \<Rightarrow> (nat \<Rightarrow> bytes option) \<Rightarrow> bytes \<Rightarrow> string list \<Rightarrow> int list \<Rightarrow> string list \<Rightarrow> app_manifest \<Rightarrow>
    (am_err option \<times> app_manifest) option" where
  "am_EncryptFilenames P rnd key names sizes hashes m =
     (case am_encrypt_loop P rnd key 0 names sizes hashes (am_files m) of
        None \<Rightarrow> None
      | Some (e, fs) \<Rightarrow>
          (let ofs = (if fs = [] then am_Files m else Some fs)
           in case e of
                Some x \<Rightarrow> Some (Some x, m\<lparr>am_Files := ofs\<rparr>)
              | None \<Rightarrow> Some (None, m\<lparr>am_Files := ofs, am_FileCount := int (length fs)\<rparr>)))"

definition am_DecryptFilename :: "prims \<Rightarrow> bytes \<Rightarrow> int \<Rightarrow> app_manifest \<Rightarrow> (am_err + string) option" where
  "am_DecryptFilename P key i m =
     (if i < 0 \<or> int (length (am_files m)) \<le> i then Some (Inl AmIndex)
      else case b64_decode (fe_NameEnc (am_files m ! nat i)) of
             None \<Rightarrow> Some (Inl AmBadBase64)
           | Some sealed \<Rightarrow>
               (case b64_decode (fe_Nonce (am_files m ! nat i)) of
                  None \<Rightarrow> Some (Inl AmBadBase64)
                | Some nonce \<Rightarrow>
                    (case app_OpenBytes P nonce sealed key of
                       None \<Rightarrow> None
                     | Some (Inl e) \<Rightarrow> Some (Inl (AmCrypto e))
                     | Some (Inr plain) \<Rightarrow> Some (Inr (string_of plain)))))"

definition am_Metadata :: "app_manifest \<Rightarrow> (string \<times> json) list" where
  "am_Metadata m =
     [(''drop_id'', JsStr (am_DropID m)), (''version'', JsInt (am_Version m)),
      (''created_at'', JsStr (am_CreatedAt m)), (''expires_at'', JsStr (am_ExpiresAt m)),
      (''mode'', JsStr (am_Mode m)), (''sender_identity'', JsStr (am_SenderIdentity m)),
      (''payload_size'', JsInt (am_PayloadSize m)), (''file_count'', JsInt (am_FileCount m)),
      (''storage'', JsStr (sr_Backend (am_Storage m))), (''one_time'', JsBool (am_OneTime m)),
      (''chunk_size'', JsInt (am_ChunkSize m))]"

section \<open>Properties\<close>

lemma am_sign_verify:
  assumes "sig_ok P" "length seed = 32"
  shows "\<exists>m'. am_Sign P (seed @ p_seed_pub P seed) m = (None, m') \<and> am_Verify P m' \<and>
    m'\<lparr>am_Signature := am_Signature m\<rparr> = m"
proof -
  let ?priv = "seed @ p_seed_pub P seed"
  have len: "length (p_seed_pub P seed) = 32" using sig_lengths [OF assms(1)] assms(2) by simp
  have c: "am_CanonicalBytes (m\<lparr>am_Signature := sg\<rparr>) = am_CanonicalBytes m" for sg
    by (simp add: am_CanonicalBytes_def)
  show ?thesis
    using len assms(2) sig_verify [OF assms, of "am_CanonicalBytes m"]
    by (simp add: am_Sign_def app_Sign_def am_Verify_def app_Verify_def c)
qed

text \<open>The two packages do not read each other's manifests: a fresh manifest of the first is refused
  by the second, whatever is filled in but the cipher.\<close>

lemma packages_disagree_on_cipher:
  "am_Cipher m = mf_CipherSuite \<Longrightarrow> am_Validate m \<noteq> None"
  by (auto simp: am_Validate_def mf_CipherSuite_def split: option.splits)

lemma encrypt_loop_ok:
  assumes "length key = 32" "\<And>i. \<exists>b. rnd i = Some b \<and> length b = app_NonceSize"
    and "i + length names \<le> length sizes" "i + length names \<le> length hashes"
  shows "\<exists>es. am_encrypt_loop P rnd key i names sizes hashes fs = Some (None, fs @ es) \<and> length es = length names \<and>
    (\<forall>j < length names. \<exists>nonce. length nonce = app_NonceSize \<and> fe_Nonce (es ! j) = b64_encode nonce \<and>
       fe_NameEnc (es ! j) = b64_encode (p_seal P key nonce (bytes_of (names ! j))))"
  using assms(3,4)
proof (induction names arbitrary: i fs)
  case (Cons n ns)
  obtain b where b: "rnd i = Some b" "length b = app_NonceSize" using assms(2) by blast
  define e where "e = \<lparr>fe_NameEnc = b64_encode (p_seal P key b (bytes_of n)), fe_Nonce = b64_encode b,
    fe_Size = sizes ! i, fe_Hash = hashes ! i\<rparr>"
  obtain es where es: "am_encrypt_loop P rnd key (i + 1) ns sizes hashes (fs @ [e]) = Some (None, fs @ [e] @ es)"
    "length es = length ns"
    "\<forall>j < length ns. \<exists>nonce. length nonce = app_NonceSize \<and> fe_Nonce (es ! j) = b64_encode nonce \<and>
       fe_NameEnc (es ! j) = b64_encode (p_seal P key nonce (bytes_of (ns ! j)))"
    using Cons.IH [of "i + 1" "fs @ [e]"] Cons.prems by auto
  show ?case
    using es b Cons.prems assms(1)
    by (intro exI [of _ "e # es"]) (auto simp: app_SealBytes_def e_def nth_Cons split: nat.splits)
qed simp

text \<open>
  File names of the application's manifest. With randomness and one size and one hash for
  every name, encryption succeeds, counts the entries, and each opens to its name under the same
  key. But decryption of a manifest from elsewhere may panic: whenever an entry's nonce is
  base64 of any other length than 24 bytes, which validation does not look at, opening it
  crashes instead of failing.
\<close>

theorem app_manifest_names:
  assumes "aead_ok P" "length key = 32" "\<forall>i. \<exists>b. rnd i = Some b \<and> length b = app_NonceSize"
    and "length sizes = length names" "length hashes = length names"
    and "list_all (\<lambda>n. length n \<le> aead_max) names" "am_Files m = None"
  shows "\<exists>m'. am_EncryptFilenames P rnd key names sizes hashes m = Some (None, m') \<and>
    am_FileCount m' = int (length names) \<and>
    (\<forall>j < length names. am_DecryptFilename P key (int j) m' = Some (Inr (names ! j))) \<and>
    (\<forall>n k sealed nonce. 0 \<le> k \<and> k < int (length (am_files n)) \<and> fe_NameEnc (am_files n ! nat k) = b64_encode sealed \<and>
       fe_Nonce (am_files n ! nat k) = b64_encode nonce \<and> length nonce \<noteq> app_NonceSize \<longrightarrow>
       am_DecryptFilename P key k n = None)"
proof -
  obtain es where es: "am_encrypt_loop P rnd key 0 names sizes hashes [] = Some (None, es)"
    "length es = length names"
    "\<forall>j < length names. \<exists>nonce. length nonce = app_NonceSize \<and> fe_Nonce (es ! j) = b64_encode nonce \<and>
       fe_NameEnc (es ! j) = b64_encode (p_seal P key nonce (bytes_of (names ! j)))"
    using encrypt_loop_ok [OF assms(2), of rnd 0 names sizes hashes P "[]"] assms(3-5) by auto
  let ?m = "m\<lparr>am_Files := if es = [] then None else Some es, am_FileCount := int (length es)\<rparr>"
  have files: "am_files ?m = es" by simp
  have "am_DecryptFilename P key (int j) ?m = Some (Inr (names ! j))" if j: "j < length names" for j
  proof -
    obtain nonce where n: "length nonce = app_NonceSize" "fe_Nonce (es ! j) = b64_encode nonce"
      "fe_NameEnc (es ! j) = b64_encode (p_seal P key nonce (bytes_of (names ! j)))"
      using es(3) j by blast
    have "p_open P key nonce (p_seal P key nonce (bytes_of (names ! j))) = Some (bytes_of (names ! j))"
      using assms(6) j by (intro aead_open_seal [OF assms(1)]) (simp add: list_all_length)
    then show ?thesis
      unfolding am_DecryptFilename_def files using n j es(2) assms(2) by (simp add: app_OpenBytes_def)
  qed
  then show ?thesis
    using es(1,2) assms(2,7)
    by (intro exI [of _ ?m]) (auto simp: am_EncryptFilenames_def am_DecryptFilename_def app_OpenBytes_def Let_def)
qed

theorem app_manifest_names_witness:
  "\<exists>m'. am_EncryptFilenames sample_prims (\<lambda>i. Some (replicate 24 0)) (replicate 32 0) [''a'', ''b''] [1, 2] [[], []]
      (am_NewManifest 0 [] [] 1) = Some (None, m') \<and>
    am_DecryptFilename sample_prims (replicate 32 0) (int 1) m' = Some (Inr ''b'')"
proof -
  let ?names = "[''a'', ''b'']"
  have "list_all (\<lambda>n. length n \<le> aead_max) ?names" by (simp add: aead_max_def)
  then obtain m' where "am_EncryptFilenames sample_prims (\<lambda>i. Some (replicate 24 0)) (replicate 32 0) ?names [1, 2] [[], []]
      (am_NewManifest 0 [] [] 1) = Some (None, m')"
    "\<forall>j < length ?names. am_DecryptFilename sample_prims (replicate 32 0) (int j) m' = Some (Inr (?names ! j))"
    using app_manifest_names [OF sample_aead_ok, of "replicate 32 0" "\<lambda>i. Some (replicate 24 0)" "[1, 2]" ?names "[[], []]"
        "am_NewManifest 0 [] [] 1"]
    by (auto simp: app_NonceSize_def am_NewManifest_def)
  then show ?thesis by (metis One_nat_def length_Cons lessI list.size(3) nth_Cons_0 nth_Cons_Suc)
qed

end
