(* ===== verification/AppStore.thy ===== *)
theory AppStore
  imports StorageApi GoTime Json
begin

text \<open>
  \<^verbatim>\<open>internal/app/store.go\<close>: the file store of the application. A payload \<open>id.bin\<close> has its expiry
  in \<open>id.exp\<close>, as text; puts go through \<open>id.bin.tmp\<close>. Identifiers are plain file names, and
  faults of the device are not modelled.
\<close>

section \<open>The store\<close>

type_synonym fs_dir = "bytes dir"

definition fs_dataPath :: "string \<Rightarrow> string" where
  "fs_dataPath did = did @ ''.bin''"

definition fs_expPath :: "string \<Rightarrow> string" where
  "fs_expPath did = did @ ''.exp''"

text \<open>The declared size is not looked at.\<close>

definition fs_Put :: "ctx \<Rightarrow> time \<Rightarrow> string \<Rightarrow> reader \<Rightarrow> int \<Rightarrow> time \<Rightarrow> fs_dir \<Rightarrow> st_err option \<times> fs_dir" where
  "fs_Put ctx now did r sz expiry d =
     (let dst = fs_dataPath did; tmp = dst @ ''.tmp''; d1 = dput tmp (rd_data r) d
      in if rd_fails r then (Some ReadFailed, ddel tmp d1)
         else (None, dput (fs_expPath did) (bytes_of (format_rfc3339 expiry)) (drename tmp dst d1)))"

definition fs_Stat :: "ctx \<Rightarrow> time \<Rightarrow> string \<Rightarrow> fs_dir \<Rightarrow> (st_err + int \<times> time) \<times> fs_dir" where
  "fs_Stat ctx now did d =
     (case dget d (fs_dataPath did) of
        None \<Rightarrow> Inl NotFound
      | Some b \<Rightarrow>
          (case dget d (fs_expPath did) of
             None \<Rightarrow> Inl NotFound
           | Some raw \<Rightarrow>
               (case parse_rfc3339 (string_of raw) of
                  None \<Rightarrow> Inl NotFound
                | Some ex \<Rightarrow> if ex < now then Inl Expired else Inr (int (length b), ex))), d)"

definition fs_Get :: "ctx \<Rightarrow> time \<Rightarrow> string \<Rightarrow> int \<Rightarrow> fs_dir \<Rightarrow> (st_err + bytes) \<times> fs_dir" where
  "fs_Get ctx now did off d =
     (case fst (fs_Stat ctx now did d) of
        Inl e \<Rightarrow> (Inl e, d)
      | Inr _ \<Rightarrow>
          (case dget d (fs_dataPath did) of
             None \<Rightarrow> (Inl NotFound, d)
           | Some b \<Rightarrow> (Inr (if off > 0 then drop (nat off) b else b), d)))"

definition fs_Delete :: "ctx \<Rightarrow> time \<Rightarrow> string \<Rightarrow> fs_dir \<Rightarrow> st_err option \<times> fs_dir" where
  "fs_Delete ctx now did d =
     (if dget d (fs_dataPath did) = None then (Some NotFound, d)
      else (None, ddel (fs_dataPath did) (ddel (fs_expPath did) d)))"

definition fs_Exists :: "ctx \<Rightarrow> time \<Rightarrow> string \<Rightarrow> fs_dir \<Rightarrow> (st_err + bool) \<times> fs_dir" where
  "fs_Exists ctx now did d =
     (case fst (fs_Stat ctx now did d) of
        Inl e \<Rightarrow> if e = NotFound \<or> e = Expired then (Inr False, d) else (Inl e, d)
      | Inr _ \<Rightarrow> (Inr True, d))"

definition fs_Health :: "ctx \<Rightarrow> time \<Rightarrow> fs_dir \<Rightarrow> st_err option \<times> fs_dir" where
  "fs_Health ctx now d = (None, d)"

definition fs_Backend :: string where
  "fs_Backend = ''local''"

definition fs_provider :: "fs_dir provider" where
  "fs_provider = \<lparr>pv_put = fs_Put, pv_get = fs_Get, pv_delete = fs_Delete, pv_exists = fs_Exists,
     pv_stat = fs_Stat, pv_health = fs_Health, pv_backend = fs_Backend\<rparr>"

section \<open>It is a store\<close>

text \<open>A payload is live until its expiry, cut to whole seconds.\<close>

fun fs_entry_live :: "bytes option \<Rightarrow> bytes option \<Rightarrow> time \<Rightarrow> bytes option" where
  "fs_entry_live (Some b) (Some raw) t =
     (case parse_rfc3339 (string_of raw) of Some ex \<Rightarrow> if ex < t then None else Some b | None \<Rightarrow> None)"
| "fs_entry_live _ _ t = None"

definition fs_live :: "fs_dir \<Rightarrow> time \<Rightarrow> string \<Rightarrow> bytes option" where
  "fs_live d t did = fs_entry_live (dget d (fs_dataPath did)) (dget d (fs_expPath did)) t"

definition fs_keeps :: "time \<Rightarrow> time \<Rightarrow> bool" where
  "fs_keeps e t \<longleftrightarrow> t \<le> e div second_ns * second_ns"

lemma fs_paths [simp]:
  "fs_dataPath a = fs_dataPath b \<longleftrightarrow> a = b" "fs_expPath a = fs_expPath b \<longleftrightarrow> a = b"
  "fs_dataPath a \<noteq> fs_expPath b" "fs_expPath b \<noteq> fs_dataPath a"
  "fs_dataPath a @ ''.tmp'' \<noteq> fs_dataPath b" "fs_dataPath b \<noteq> fs_dataPath a @ ''.tmp''"
  "fs_dataPath a @ ''.tmp'' \<noteq> fs_expPath b" "fs_expPath b \<noteq> fs_dataPath a @ ''.tmp''"
  by (auto simp: fs_dataPath_def fs_expPath_def dest: arg_cong [of _ _ rev])

lemma fs_Stat_live:
  "fs_Stat ctx now did d = (res, d') \<Longrightarrow>
    d' = d \<and> (case fs_live d now did of Some b \<Rightarrow> (\<exists>e. res = Inr (int (length b), e)) \<and> dget d (fs_dataPath did) = Some b
       | None \<Rightarrow> res \<in> {Inl NotFound, Inl Expired})"
  by (auto simp: fs_Stat_def fs_live_def split: option.splits if_splits)

lemma fs_Put_live:
  assumes "json_year e" "fs_Put ctx now did r sz e d = (x, d')"
  shows "fs_live d' t k = (if k = did \<and> x = None then (if fs_keeps e t then Some (rd_data r) else None) else fs_live d t k)"
  using assms parse_format_rfc3339 [of e]
  by (auto simp: fs_Put_def fs_live_def fs_keeps_def json_year_def drename_def Let_def split: if_splits)

interpretation fs_store: plain_store fs_provider "\<lambda>d. True" fs_live fs_keeps "\<lambda>did. True" json_year
proof
  fix d did e now b x d'
  assume "json_year e" "pv_put fs_provider live_ctx now did (reader_of b) (int (length b)) e d = (x, d')"
  then show "True \<and> (\<forall>t k. True \<longrightarrow> fs_live d' t k =
      (if k = did \<and> x = None then (if fs_keeps e t then Some b else None) else fs_live d t k))"
    using fs_Put_live [of e live_ctx now did "reader_of b" "int (length b)" d x d']
    by (simp add: fs_provider_def reader_of_def)
next
  fix d did now off res d'
  assume g: "pv_get fs_provider live_ctx now did off d = (res, d')"
  obtain st where st: "fs_Stat live_ctx now did d = (st, d)"
    using fs_Stat_live [of live_ctx now did d] by (cases "fs_Stat live_ctx now did d") auto
  show "True \<and> (\<forall>t k. now \<le> t \<longrightarrow> True \<longrightarrow> fs_live d' t k = fs_live d t k) \<and>
      (case fs_live d now did of Some b \<Rightarrow> 0 \<le> off \<and> off \<le> int (length b) \<longrightarrow> res = Inr (drop (nat off) b)
       | None \<Rightarrow> res \<in> {Inl NotFound, Inl Expired})"
    using fs_Stat_live [OF st] g
    by (auto simp: fs_provider_def fs_Get_def st split: option.splits sum.splits)
next
  fix d did now dres d'
  assume "pv_delete fs_provider live_ctx now did d = (dres, d')"
  then show "True \<and> (\<forall>t k. True \<longrightarrow> fs_live d' t k = (if k = did then None else fs_live d t k))"
    by (auto simp: fs_provider_def fs_Delete_def fs_live_def split: if_splits)
next
  fix d did now xres d'
  assume x: "pv_exists fs_provider live_ctx now did d = (xres, d')"
  obtain st where st: "fs_Stat live_ctx now did d = (st, d)"
    using fs_Stat_live [of live_ctx now did d] by (cases "fs_Stat live_ctx now did d") auto
  show "True \<and> xres = Inr (fs_live d now did \<noteq> None) \<and> (\<forall>t k. now \<le> t \<longrightarrow> True \<longrightarrow> fs_live d' t k = fs_live d t k)"
    using fs_Stat_live [OF st] x
    by (auto simp: fs_provider_def fs_Exists_def st split: option.splits sum.splits)
qed



end
