(* ===== verification/Paths.thy ===== *)
theory Paths
  imports GoStrings
begin

text \<open>
  Paths as Go's \<^verbatim>\<open>path/filepath\<close> treats them on Unix: cleaning, joining, the base name. The main
  fact: joining a clean directory with a name that cleans to a path without \<open>..\<close> gives a path
  below that directory.
\<close>

section \<open>Splitting and joining\<close>

fun split_path :: "string \<Rightarrow> string list" where
  "split_path [] = [[]]"
| "split_path (x # xs) =
     (if x = CHR ''/'' then [] # split_path xs
      else (case split_path xs of y # ys \<Rightarrow> (x # y) # ys | [] \<Rightarrow> [[x]]))"

fun join_path :: "string list \<Rightarrow> string" where
  "join_path [] = []"
| "join_path [p] = p"
| "join_path (p # q # ps) = p @ CHR ''/'' # join_path (q # ps)"

definition rooted :: "string \<Rightarrow> bool" where
  "rooted p \<longleftrightarrow> (case p of c # _ \<Rightarrow> c = CHR ''/'' | [] \<Rightarrow> False)"

lemma split_path_not_Nil [simp]: "split_path p \<noteq> []"
  by (induction p) (auto split: list.splits)

lemma split_path_append: "split_path (p @ CHR ''/'' # q) = split_path p @ split_path q"
proof (induction p)
  case (Cons x p)
  obtain y ys where "split_path p = y # ys" using split_path_not_Nil by (cases "split_path p") auto
  with Cons show ?case by simp
qed simp

lemma split_path_no_slash: "c \<in> set (split_path p) \<Longrightarrow> CHR ''/'' \<notin> set c"
proof (induction p arbitrary: c)
  case (Cons x p)
  obtain y ys where "split_path p = y # ys" using split_path_not_Nil by (cases "split_path p") auto
  with Cons show ?case by (auto split: if_splits)
qed simp

lemma split_path_plain: "CHR ''/'' \<notin> set p \<Longrightarrow> split_path p = [p]"
  by (induction p) auto

lemma split_join: "ps \<noteq> [] \<Longrightarrow> \<forall>p \<in> set ps. CHR ''/'' \<notin> set p \<Longrightarrow> split_path (join_path ps) = ps"
  by (induction ps rule: join_path.induct) (simp_all add: split_path_append split_path_plain)

lemma join_split: "join_path (split_path p) = p"
proof (induction p)
  case (Cons x p)
  obtain y ys where y: "split_path p = y # ys" using split_path_not_Nil by (cases "split_path p") auto
  then show ?case using Cons by (cases ys) auto
qed simp

lemma join_append: "ps \<noteq> [] \<Longrightarrow> qs \<noteq> [] \<Longrightarrow> join_path (ps @ qs) = join_path ps @ CHR ''/'' # join_path qs"
proof (induction ps rule: join_path.induct)
  case (2 p)
  then show ?case by (cases qs) simp_all
qed simp_all

section \<open>Clean\<close>

text \<open>One component, on the stack of those kept so far; then all of them.\<close>

definition clean_step :: "bool \<Rightarrow> string list \<Rightarrow> string \<Rightarrow> string list" where
  "clean_step r st c =
     (if c = [] \<or> c = ''.'' then st
      else if c = ''..''
      then (if st = [] then (if r then [] else [''..''])
            else if hd st = ''..'' then ''..'' # st else tl st)
      else c # st)"

fun clean_parts :: "bool \<Rightarrow> string list \<Rightarrow> string list \<Rightarrow> string list" where
  "clean_parts r st [] = rev st"
| "clean_parts r st (c # cs) = clean_parts r (clean_step r st c) cs"

definition filepath_Clean :: "string \<Rightarrow> string" where
  "filepath_Clean p =
     (let parts = clean_parts (rooted p) [] (split_path p)
      in if rooted p then CHR ''/'' # join_path parts
         else if parts = [] then ''.'' else join_path parts)"

definition filepath_Join :: "string \<Rightarrow> string \<Rightarrow> string" where
  "filepath_Join a b =
     (if a = [] then (if b = [] then [] else filepath_Clean b)
      else if b = [] then filepath_Clean a
      else filepath_Clean (a @ CHR ''/'' # b))"

definition filepath_Base :: "string \<Rightarrow> string" where
  "filepath_Base p =
     (if p = [] then ''.''
      else let q = rev (dropWhile (\<lambda>c. c = CHR ''/'') (rev p))
           in if q = [] then ''/'' else last (split_path q))"

definition plain_part :: "string \<Rightarrow> bool" where
  "plain_part c \<longleftrightarrow> c \<noteq> [] \<and> c \<noteq> ''.'' \<and> c \<noteq> ''..''"

lemma clean_step_dots: "''..'' \<in> set st \<Longrightarrow> ''..'' \<in> set (clean_step False st c)"
  by (cases st) (auto simp: clean_step_def)

lemma clean_step_plain:
  "\<forall>c \<in> set st. plain_part c \<Longrightarrow> (\<forall>c \<in> set (clean_step False st c). plain_part c) \<or> clean_step False st c = [''..'']"
  by (cases st) (auto simp: clean_step_def plain_part_def)

lemma clean_step_stack:
  "\<forall>c \<in> set st. plain_part c \<Longrightarrow> clean_step False st c \<noteq> [''..''] \<Longrightarrow>
    clean_step r (st @ base) c = clean_step False st c @ base"
  by (cases st) (auto simp: clean_step_def plain_part_def)

lemma clean_parts_dots: "''..'' \<in> set st \<Longrightarrow> ''..'' \<in> set (clean_parts False st cs)"
  by (induction cs arbitrary: st) (simp_all add: clean_step_dots)

lemma clean_parts_keep:
  assumes "''..'' \<notin> set (clean_parts False st (c # cs))" shows "clean_step False st c \<noteq> [''..'']"
  using assms clean_parts_dots [of "[''..'']" cs] by auto

lemma clean_parts_plain:
  assumes "''..'' \<notin> set (clean_parts False st cs)" "\<forall>c \<in> set st. plain_part c"
  shows "\<forall>c \<in> set (clean_parts False st cs). plain_part c"
  using assms
proof (induction cs arbitrary: st)
  case (Cons c cs)
  then show ?case using clean_parts_keep [OF Cons.prems(1)] clean_step_plain [OF Cons.prems(2), of c] by simp
qed simp

lemma clean_parts_stack:
  assumes "''..'' \<notin> set (clean_parts False st cs)" "\<forall>c \<in> set st. plain_part c"
  shows "clean_parts r (st @ base) cs = rev base @ clean_parts False st cs"
  using assms
proof (induction cs arbitrary: st)
  case (Cons c cs)
  have keep: "clean_step False st c \<noteq> [''..'']" by (rule clean_parts_keep [OF Cons.prems(1)])
  then show ?case
    using Cons.IH [of "clean_step False st c"] Cons.prems clean_step_plain [OF Cons.prems(2), of c]
      clean_step_stack [OF Cons.prems(2) keep, of r base]
    by simp
qed simp

lemma clean_parts_append: "clean_parts r st (cs @ ds) = clean_parts r (rev (clean_parts r st cs)) ds"
  by (induction cs arbitrary: st) simp_all

text \<open>The parts a name adds below a directory.\<close>

definition name_parts :: "string \<Rightarrow> string list" where
  "name_parts name = clean_parts False [] (split_path name)"

lemma rooted_append: "a \<noteq> [] \<Longrightarrow> rooted (a @ b) = rooted a"
  by (cases a) (simp_all add: rooted_def)

lemma Join_parts:
  assumes "dir \<noteq> []" "name \<noteq> []" "filepath_Clean dir = dir" "dir \<noteq> ''.''" "dir \<noteq> ''/''"
    and "''..'' \<notin> set (name_parts name)"
  shows "filepath_Join dir name =
    (if name_parts name = [] then dir else dir @ CHR ''/'' # join_path (name_parts name))"
proof -
  define D where "D = clean_parts (rooted dir) [] (split_path dir)"
  have D: "D \<noteq> []" using assms(3-5) by (auto simp: filepath_Clean_def D_def [symmetric] Let_def split: if_splits)
  have parts: "clean_parts (rooted dir) [] (split_path (dir @ CHR ''/'' # name)) = D @ name_parts name"
    using clean_parts_stack [of "[]" "split_path name" "rooted dir" "rev D"] assms(6)
    by (simp add: split_path_append clean_parts_append D_def [symmetric] name_parts_def)
  have "dir = (if rooted dir then CHR ''/'' # join_path D else join_path D)"
    using assms(3) D by (simp add: filepath_Clean_def D_def [symmetric] Let_def split: if_splits)
  then show ?thesis
    using assms(1,2) D
    by (simp add: filepath_Join_def filepath_Clean_def rooted_append parts join_append Let_def split: if_splits)
qed

lemma Join_below:
  assumes "dir \<noteq> []" "name \<noteq> []" "filepath_Clean dir = dir" "dir \<noteq> ''.''" "dir \<noteq> ''/''"
    and "''..'' \<notin> set (name_parts name)" "name_parts name \<noteq> []"
  shows "filepath_Join dir name = dir @ CHR ''/'' # join_path (name_parts name)"
  using Join_parts [OF assms(1-6)] assms(7) by simp

text \<open>A name without \<open>..\<close> has plain parts only.\<close>

lemma clean_parts_all:
  assumes "list_all P st" "''..'' \<notin> set cs" "list_all (\<lambda>x. x = [] \<or> x = ''.'' \<or> P x) cs"
  shows "list_all P (clean_parts r st cs)"
  using assms
proof (induction cs arbitrary: st)
  case (Cons c cs)
  have c: "c \<noteq> ''..''" "''..'' \<notin> set cs" using Cons.prems(2) by (metis list.set_intros)+
  then have "clean_step r st c = (if c = [] \<or> c = ''.'' then st else c # st)" unfolding clean_step_def by (simp only: if_False)
  then have "list_all P (clean_step r st c)" using Cons.prems(1,3) by (cases "c = [] \<or> c = ''.''") (simp_all only: list.pred_inject(2) if_True if_False, blast)
  then have "list_all P (clean_parts r (clean_step r st c) cs)"
    by (rule Cons.IH [OF _ c(2)]) (use Cons.prems(3) in \<open>simp only: list.pred_inject(2)\<close>)
  then show ?case by (simp only: clean_parts.simps)
qed simp

lemma name_parts_plain:
  assumes "''..'' \<notin> set (split_path name)" "c \<in> set (name_parts name)"
  shows "plain_part c" "CHR ''/'' \<notin> set c"
proof -
  have "list_all (\<lambda>x. x = [] \<or> x = ''.'' \<or> plain_part x \<and> CHR ''/'' \<notin> set x) (split_path name)"
    unfolding list_all_iff plain_part_def using assms(1) split_path_no_slash [of _ name] by blast
  from clean_parts_all [OF _ assms(1) this, of "[]" False] have "list_all (\<lambda>x. plain_part x \<and> CHR ''/'' \<notin> set x) (name_parts name)"
    by (simp add: name_parts_def)
  then show "plain_part c" "CHR ''/'' \<notin> set c" using assms(2) by (auto simp: list_all_iff)
qed

end
