(* ===== verification/Archive.thy ===== *)
theory Archive
  imports Paths Crypto Json
begin

text \<open>
  \<^verbatim>\<open>internal/app/zip.go\<close>: packing sources into an archive and unpacking one below a directory.
  The byte format of archives belongs to \<^verbatim>\<open>archive/zip\<close>: an archive is the list of its entries,
  and \<open>zipw\<close> is the function from entries to bytes. Paths are Unix paths; that a path is taken
  by a directory is not modelled.
\<close>

section \<open>Packing\<close>

text \<open>A source is a file, a directory with the files below it in the order of the walk (their paths
  relative to it), or missing.\<close>

datatype zip_source =
    SFile string reader
  | SDir string "(string \<times> reader) list"
  | SMissing string

record zip_entry =
  ze_Name :: string
  ze_Size :: int
  ze_Hash :: string

datatype zip_err = ZStat | ZRead string | ZUnsafe string | ZSymlink string | ZOpen string

type_synonym zip_content = "(string \<times> bytes) list"

definition zip_addFile ::
  "prims \<Rightarrow> string \<Rightarrow> reader \<Rightarrow> zip_entry list \<times> zip_content \<Rightarrow> zip_err option \<times> zip_entry list \<times> zip_content" where
  "zip_addFile P arc r acc =
     (case acc of (entries, arch) \<Rightarrow>
        let arch' = arch @ [(arc, rd_data r)] in
        if rd_fails r then (Some (ZRead arc), entries, arch')
        else (None, entries @ [\<lparr>ze_Name = arc, ze_Size = int (length (rd_data r)),
                ze_Hash = hex_encode (p_sha256 P (rd_data r))\<rparr>], arch'))"

fun zip_walk ::
  "prims \<Rightarrow> string \<Rightarrow> (string \<times> reader) list \<Rightarrow> zip_entry list \<times> zip_content \<Rightarrow>
    zip_err option \<times> zip_entry list \<times> zip_content" where
  "zip_walk P base [] acc = (None, acc)"
| "zip_walk P base ((rel, r) # fs) acc =
     (case zip_addFile P (filepath_Join base rel) r acc of
        (Some e, acc') \<Rightarrow> (Some e, acc')
      | (None, acc') \<Rightarrow> zip_walk P base fs acc')"

fun zip_paths ::
  "prims \<Rightarrow> zip_source list \<Rightarrow> zip_entry list \<times> zip_content \<Rightarrow> zip_err option \<times> zip_entry list \<times> zip_content" where
  "zip_paths P [] acc = (None, acc)"
| "zip_paths P (SMissing p # ss) acc = (Some ZStat, acc)"
| "zip_paths P (SFile p r # ss) acc =
     (case zip_addFile P (filepath_Base p) r acc of
        (Some e, acc') \<Rightarrow> (Some e, acc')
      | (None, acc') \<Rightarrow> zip_paths P ss acc')"
| "zip_paths P (SDir p fs # ss) acc =
     (case zip_walk P (filepath_Base p) fs acc of
        (Some e, acc') \<Rightarrow> (Some e, acc')
      | (None, acc') \<Rightarrow> zip_paths P ss acc')"

text \<open>The archive is written to \<open>dst\<close>, on an error with the entries so far.\<close>

definition app_ZipSources ::
  "prims \<Rightarrow> (zip_content \<Rightarrow> bytes) \<Rightarrow> zip_source list \<Rightarrow> string \<Rightarrow> fs \<Rightarrow> (zip_err + zip_entry list \<times> string) \<times> fs" where
  "app_ZipSources P zipw srcs dst fs =
     (case zip_paths P srcs ([], []) of
        (err, entries, arch) \<Rightarrow>
          ((case err of Some e \<Rightarrow> Inl e | None \<Rightarrow> Inr (entries, hex_encode (p_sha256 P (zipw arch)))),
           fs(dst \<mapsto> zipw arch)))"

section \<open>Unpacking\<close>

definition safeZipPath :: "string \<Rightarrow> bool" where
  "safeZipPath name =
     (if name = '''' \<or> rooted name \<or> has_prefix [backslash, backslash] name then False
      else let clean = filepath_Clean name in
           if clean = ''.'' \<or> clean = ''..'' \<or> has_prefix ''../'' clean then False
           else list_all (\<lambda>part. part \<noteq> ''..'') (split_path clean))"

text \<open>An entry as \<^verbatim>\<open>zip.NewReader\<close> finds it; \<open>None\<close> where it cannot be opened.\<close>

record zip_item =
  zt_Name :: string
  zt_Symlink :: bool
  zt_Dir :: bool
  zt_Open :: "reader option"

fun unzip_items :: "string \<Rightarrow> zip_item list \<Rightarrow> string list \<Rightarrow> fs \<Rightarrow> (zip_err + string list) \<times> fs" where
  "unzip_items dir [] names fs = (Inr names, fs)"
| "unzip_items dir (f # fl) names fs =
     (if \<not> safeZipPath (zt_Name f) then (Inl (ZUnsafe (zt_Name f)), fs)
      else if zt_Symlink f then (Inl (ZSymlink (zt_Name f)), fs)
      else let dst = filepath_Join dir (zt_Name f) in
           if zt_Dir f then unzip_items dir fl names fs
           else case zt_Open f of
                  None \<Rightarrow> (Inl (ZOpen (zt_Name f)), fs)
                | Some r \<Rightarrow>
                    (let fs' = fs(dst \<mapsto> rd_data r) in
                     if rd_fails r then (Inl (ZRead (zt_Name f)), fs')
                     else unzip_items dir fl (names @ [dst]) fs'))"

definition app_UnzipSafe :: "zip_item list \<Rightarrow> string \<Rightarrow> fs \<Rightarrow> (zip_err + string list) \<times> fs" where
  "app_UnzipSafe items dir fs = unzip_items dir items [] fs"

definition app_IsZipStream :: "bytes \<Rightarrow> bool" where
  "app_IsZipStream content = (length content \<ge> 4 \<and> take 4 content = [0x50, 0x4B, 3, 4])"

section \<open>Nothing leaves the directory\<close>

lemma clean_parts_subset: "set (clean_parts r st cs) \<subseteq> set st \<union> set cs \<union> {''..''}"
proof (induction cs arbitrary: st)
  case (Cons c cs)
  have "set (clean_step r st c) \<subseteq> set st \<union> {c, ''..''}"
    by (auto simp: clean_step_def dest: list.set_sel(2))
  with Cons [of "clean_step r st c"] show ?case by auto
qed auto

lemma name_parts_no_slash: "c \<in> set (name_parts name) \<Longrightarrow> CHR ''/'' \<notin> set c"
  using clean_parts_subset [of False "[]" "split_path name"] split_path_no_slash
  by (auto simp: name_parts_def)

lemma safe_name_parts:
  assumes "safeZipPath name"
  shows "name \<noteq> []" "''..'' \<notin> set (name_parts name)" "name_parts name \<noteq> []" "\<forall>c \<in> set (name_parts name). plain_part c"
proof -
  have name: "name \<noteq> []" "\<not> rooted name" "filepath_Clean name \<noteq> ''.''"
    "list_all (\<lambda>part. part \<noteq> ''..'') (split_path (filepath_Clean name))"
    using assms by (auto simp: safeZipPath_def Let_def split: if_splits)
  have clean: "filepath_Clean name = (if name_parts name = [] then ''.'' else join_path (name_parts name))"
    using name(2) by (simp add: filepath_Clean_def name_parts_def)
  show "name \<noteq> []" by (rule name(1))
  show ne: "name_parts name \<noteq> []" using name(3) clean by auto
  have "split_path (filepath_Clean name) = name_parts name"
    unfolding clean using ne name_parts_no_slash by (simp add: split_join)
  then show dots: "''..'' \<notin> set (name_parts name)" using name(4) by (auto simp: list_all_iff)
  show "\<forall>c \<in> set (name_parts name). plain_part c"
    using dots clean_parts_plain [of "[]" "split_path name"] by (simp add: name_parts_def)
qed

text \<open>A directory that can be unpacked into: clean, and not the root or the working directory.\<close>

definition clean_dir :: "string \<Rightarrow> bool" where
  "clean_dir dir \<longleftrightarrow> dir \<noteq> [] \<and> filepath_Clean dir = dir \<and> dir \<noteq> ''.'' \<and> dir \<noteq> ''/''"

definition below :: "string \<Rightarrow> string \<Rightarrow> bool" where
  "below dir p \<longleftrightarrow> (\<exists>parts. parts \<noteq> [] \<and> (\<forall>c \<in> set parts. plain_part c \<and> CHR ''/'' \<notin> set c) \<and>
     p = dir @ CHR ''/'' # join_path parts)"

lemma safe_below:
  assumes "clean_dir dir" "safeZipPath name" shows "below dir (filepath_Join dir name)"
  unfolding below_def
  using Join_below [of dir name] assms(1) safe_name_parts [OF assms(2)] name_parts_no_slash
  by (intro exI [of _ "name_parts name"]) (simp add: clean_dir_def)

lemma unzip_items_confined:
  assumes "clean_dir dir" "unzip_items dir items names fs = (res, fs')" "fs' p \<noteq> fs p"
  shows "below dir p"
  using assms(2,3)
proof (induction items arbitrary: names fs)
  case (Cons f fl)
  show ?case
  proof (cases "safeZipPath (zt_Name f)")
    case True
    show ?thesis
    proof (cases "p = filepath_Join dir (zt_Name f)")
      case True
      then show ?thesis using safe_below [OF assms(1) \<open>safeZipPath (zt_Name f)\<close>] by simp
    next
      case False
      then have "(fs(filepath_Join dir (zt_Name f) \<mapsto> x)) p = fs p" for x by simp
      then show ?thesis
        using Cons.IH Cons.prems by (auto simp: Let_def split: if_splits option.splits)
    qed
  qed (use Cons.prems in simp)
qed simp

section \<open>Packing and unpacking\<close>

definition items_of :: "zip_content \<Rightarrow> zip_item list" where
  "items_of arch = map (\<lambda>(n, d). \<lparr>zt_Name = n, zt_Symlink = False, zt_Dir = False, zt_Open = Some (reader_of d)\<rparr>) arch"

lemma unzip_items_of:
  assumes "list_all safeZipPath (map fst arch)" "distinct (map (\<lambda>(n, d). filepath_Join dir n) arch)"
  shows "\<exists>fs'. unzip_items dir (items_of arch) names fs = (Inr (names @ map (\<lambda>(n, d). filepath_Join dir n) arch), fs') \<and>
    (\<forall>(n, d) \<in> set arch. fs' (filepath_Join dir n) = Some d) \<and>
    (\<forall>p. p \<notin> set (map (\<lambda>(n, d). filepath_Join dir n) arch) \<longrightarrow> fs' p = fs p)"
  using assms
proof (induction arch arbitrary: names fs)
  case (Cons e arch)
  obtain n d where e: "e = (n, d)" by (cases e)
  let ?fs = "fs(filepath_Join dir n \<mapsto> d)"
  have prems: "list_all safeZipPath (map fst arch)" "distinct (map (\<lambda>(n, d). filepath_Join dir n) arch)"
    using Cons.prems by simp_all
  obtain fs' where fs': "unzip_items dir (items_of arch) (names @ [filepath_Join dir n]) ?fs =
      (Inr ((names @ [filepath_Join dir n]) @ map (\<lambda>(n, d). filepath_Join dir n) arch), fs')"
    "\<forall>(n, d) \<in> set arch. fs' (filepath_Join dir n) = Some d"
    "\<forall>p. p \<notin> set (map (\<lambda>(n, d). filepath_Join dir n) arch) \<longrightarrow> fs' p = ?fs p"
    using Cons.IH [OF prems, of "names @ [filepath_Join dir n]" ?fs] by blast
  have "fs' (filepath_Join dir n) = Some d" using fs'(3) Cons.prems(2) by (auto simp: e)
  moreover have "unzip_items dir (items_of (e # arch)) names fs =
      (Inr (names @ map (\<lambda>(n, d). filepath_Join dir n) (e # arch)), fs')"
    using Cons.prems(1) fs'(1) by (simp add: items_of_def e)
  ultimately show ?case using fs'(2,3) Cons.prems(2) by (auto simp: e)
qed (simp add: items_of_def)

lemma addFile_entries:
  assumes "zip_addFile P arc r (entries, arch) = (None, entries', arch')"
    and "map (\<lambda>e. (ze_Name e, ze_Hash e)) entries = map (\<lambda>(n, d). (n, hex_encode (p_sha256 P d))) arch"
  shows "map (\<lambda>e. (ze_Name e, ze_Hash e)) entries' = map (\<lambda>(n, d). (n, hex_encode (p_sha256 P d))) arch'"
  using assms by (auto simp: zip_addFile_def Let_def split: if_splits)

lemma walk_entries:
  assumes "zip_walk P base fs (entries, arch) = (None, entries', arch')"
    and "map (\<lambda>e. (ze_Name e, ze_Hash e)) entries = map (\<lambda>(n, d). (n, hex_encode (p_sha256 P d))) arch"
  shows "map (\<lambda>e. (ze_Name e, ze_Hash e)) entries' = map (\<lambda>(n, d). (n, hex_encode (p_sha256 P d))) arch'"
  using assms
proof (induction fs arbitrary: entries arch)
  case (Cons f fs)
  then show ?case
    by (cases f) (auto split: prod.splits option.splits dest: addFile_entries)
qed simp

lemma paths_entries:
  assumes "zip_paths P srcs (entries, arch) = (None, entries', arch')"
    and "map (\<lambda>e. (ze_Name e, ze_Hash e)) entries = map (\<lambda>(n, d). (n, hex_encode (p_sha256 P d))) arch"
  shows "map (\<lambda>e. (ze_Name e, ze_Hash e)) entries' = map (\<lambda>(n, d). (n, hex_encode (p_sha256 P d))) arch'"
  using assms
proof (induction srcs arbitrary: entries arch)
  case (Cons s srcs)
  then show ?case
    by (cases s) (auto split: prod.splits option.splits dest: addFile_entries walk_entries)
qed simp



end
