(* ===== verification/Database.thy ===== *)
theory Database
  imports Json "HOL-Library.List_Lexorder" "HOL-Library.Char_ord"
begin

text \<open>
  \<^verbatim>\<open>internal/database/database.go\<close>: the records of drops, their history and the contacts. The
  tables are lists of rows in the order of insertion; each statement is written out with its
  meaning in SQL: the primary keys, \<open>ON CONFLICT\<close> as an update in place, text compared byte by
  byte. Rows that an \<open>ORDER BY\<close> leaves tied stay in the order of insertion. Failures of the
  engine, opening and migrating are not modelled.
\<close>

section \<open>Tables\<close>

record drop_row =
  dr_id :: string
  dr_mode :: string
  dr_recipient :: string
  dr_created :: string
  dr_expires :: string
  dr_status :: string
  dr_hash :: string
  dr_size :: int
  dr_ref :: string
  dr_verified :: int

record event_row =
  er_id :: int
  er_drop :: string
  er_event :: string
  er_at :: string
  er_detail :: string

record contact_row =
  cr_name :: string
  cr_address :: string
  cr_trust :: string
  cr_last :: string

record db =
  db_drops :: "drop_row list"
  db_history :: "event_row list"
  db_seq :: int
  db_contacts :: "contact_row list"

definition db_empty :: db where
  "db_empty = \<lparr>db_drops = [], db_history = [], db_seq = 0, db_contacts = []\<rparr>"

datatype db_err = DbNotFound | DbBadTime | DbBadTrust string

section \<open>Drops\<close>

record db_drop =
  dd_ID :: string
  dd_Mode :: string
  dd_Recipient :: string
  dd_CreatedAt :: time
  dd_ExpiresAt :: time
  dd_Status :: string
  dd_PayloadHash :: string
  dd_Size :: int
  dd_StorageRef :: string
  dd_Verified :: bool

definition boolInt :: "bool \<Rightarrow> int" where
  "boolInt b = (if b then 1 else 0)"

definition drop_to_row :: "db_drop \<Rightarrow> drop_row" where
  "drop_to_row d =
     \<lparr>dr_id = dd_ID d, dr_mode = dd_Mode d, dr_recipient = dd_Recipient d,
      dr_created = format_rfc3339 (dd_CreatedAt d), dr_expires = format_rfc3339 (dd_ExpiresAt d),
      dr_status = dd_Status d, dr_hash = dd_PayloadHash d, dr_size = dd_Size d, dr_ref = dd_StorageRef d,
      dr_verified = boolInt (dd_Verified d)\<rparr>"

text \<open>\<open>INSERT ... ON CONFLICT(key) DO UPDATE\<close>.\<close>

fun upsert :: "('r \<Rightarrow> string) \<Rightarrow> 'r \<Rightarrow> 'r list \<Rightarrow> 'r list" where
  "upsert key row [] = [row]"
| "upsert key row (r # rs) = (if key r = key row then row # rs else r # upsert key row rs)"

definition db_UpsertDrop :: "db_drop \<Rightarrow> db \<Rightarrow> db" where
  "db_UpsertDrop d s = s\<lparr>db_drops := upsert dr_id (drop_to_row d) (db_drops s)\<rparr>"

definition scanDrop :: "drop_row \<Rightarrow> db_err + db_drop" where
  "scanDrop r =
     (case parse_rfc3339 (dr_created r) of
        None \<Rightarrow> Inl DbBadTime
      | Some created \<Rightarrow>
          (case parse_rfc3339 (dr_expires r) of
             None \<Rightarrow> Inl DbBadTime
           | Some expires \<Rightarrow>
               Inr \<lparr>dd_ID = dr_id r, dd_Mode = dr_mode r, dd_Recipient = dr_recipient r, dd_CreatedAt = created,
                    dd_ExpiresAt = expires, dd_Status = dr_status r, dd_PayloadHash = dr_hash r,
                    dd_Size = dr_size r, dd_StorageRef = dr_ref r, dd_Verified = (dr_verified r \<noteq> 0)\<rparr>))"

definition db_GetDrop :: "string \<Rightarrow> db \<Rightarrow> db_err + db_drop" where
  "db_GetDrop did s = (case find (\<lambda>r. dr_id r = did) (db_drops s) of None \<Rightarrow> Inl DbNotFound | Some r \<Rightarrow> scanDrop r)"

fun scan_all :: "('r \<Rightarrow> db_err + 'd) \<Rightarrow> 'r list \<Rightarrow> db_err + 'd list" where
  "scan_all f [] = Inr []"
| "scan_all f (r # rs) =
     (case f r of
        Inl e \<Rightarrow> Inl e
      | Inr d \<Rightarrow> (case scan_all f rs of Inl e \<Rightarrow> Inl e | Inr ds \<Rightarrow> Inr (d # ds)))"

definition db_ListDrops :: "db \<Rightarrow> db_err + db_drop list" where
  "db_ListDrops s = scan_all scanDrop (rev (sort_key dr_created (rev (db_drops s))))"

text \<open>\<open>UPDATE ... WHERE id=?\<close>, which reports a missing row.\<close>

definition update_drop :: "(drop_row \<Rightarrow> drop_row) \<Rightarrow> string \<Rightarrow> db \<Rightarrow> db_err option \<times> db" where
  "update_drop f did s =
     (if \<exists>r \<in> set (db_drops s). dr_id r = did
      then (None, s\<lparr>db_drops := map (\<lambda>r. if dr_id r = did then f r else r) (db_drops s)\<rparr>)
      else (Some DbNotFound, s))"

definition db_UpdateStatus :: "string \<Rightarrow> string \<Rightarrow> db \<Rightarrow> db_err option \<times> db" where
  "db_UpdateStatus did status s = update_drop (\<lambda>r. r\<lparr>dr_status := status\<rparr>) did s"

definition db_SetVerified :: "string \<Rightarrow> bool \<Rightarrow> db \<Rightarrow> db_err option \<times> db" where
  "db_SetVerified did v s = update_drop (\<lambda>r. r\<lparr>dr_verified := boolInt v\<rparr>) did s"

definition db_DeleteDrop :: "string \<Rightarrow> db \<Rightarrow> db_err option \<times> db" where
  "db_DeleteDrop did s =
     (let s1 = s\<lparr>db_history := filter (\<lambda>e. er_drop e \<noteq> did) (db_history s)\<rparr>
      in if \<exists>r \<in> set (db_drops s1). dr_id r = did
         then (None, s1\<lparr>db_drops := filter (\<lambda>r. dr_id r \<noteq> did) (db_drops s1)\<rparr>)
         else (Some DbNotFound, s1))"

section \<open>History\<close>

record db_event =
  de_ID :: int
  de_DropID :: string
  de_Event :: string
  de_At :: time
  de_Detail :: string

text \<open>\<open>AUTOINCREMENT\<close>: numbers are never used again.\<close>

definition db_AddEvent :: "time \<Rightarrow> string \<Rightarrow> string \<Rightarrow> string \<Rightarrow> db \<Rightarrow> db" where
  "db_AddEvent now did event detail s =
     s\<lparr>db_history := db_history s @ [\<lparr>er_id = db_seq s + 1, er_drop = did, er_event = event,
         er_at = format_rfc3339 now, er_detail = detail\<rparr>], db_seq := db_seq s + 1\<rparr>"

definition scanEvent :: "event_row \<Rightarrow> db_err + db_event" where
  "scanEvent r =
     (case parse_rfc3339 (er_at r) of
        None \<Rightarrow> Inl DbBadTime
      | Some t \<Rightarrow> Inr \<lparr>de_ID = er_id r, de_DropID = er_drop r, de_Event = er_event r, de_At = t, de_Detail = er_detail r\<rparr>)"

definition db_ListEvents :: "string \<Rightarrow> db \<Rightarrow> db_err + db_event list" where
  "db_ListEvents did s = scan_all scanEvent (sort_key er_id (filter (\<lambda>e. er_drop e = did) (db_history s)))"

section \<open>Contacts\<close>

record db_contact =
  dc_Name :: string
  dc_Address :: string
  dc_Trust :: string
  dc_LastSeen :: time

definition validTrust :: "string \<Rightarrow> bool" where
  "validTrust t \<longleftrightarrow> t \<in> {''UNKNOWN'', ''KNOWN'', ''TRUSTED'', ''BLOCKED''}"

definition db_PutContact :: "db_contact \<Rightarrow> db \<Rightarrow> db_err option \<times> db" where
  "db_PutContact c s =
     (if \<not> validTrust (dc_Trust c) then (Some (DbBadTrust (dc_Trust c)), s)
      else (let last = (if dc_LastSeen c = 0 then '''' else format_rfc3339 (dc_LastSeen c))
            in (None, s\<lparr>db_contacts := upsert cr_name \<lparr>cr_name = dc_Name c, cr_address = dc_Address c,
                  cr_trust = dc_Trust c, cr_last = last\<rparr> (db_contacts s)\<rparr>)))"

definition scanContact :: "contact_row \<Rightarrow> db_err + db_contact" where
  "scanContact r =
     (let mk = (\<lambda>t. \<lparr>dc_Name = cr_name r, dc_Address = cr_address r, dc_Trust = cr_trust r, dc_LastSeen = t\<rparr>)
      in if cr_last r \<noteq> '''' then (case parse_rfc3339 (cr_last r) of None \<Rightarrow> Inl DbBadTime | Some t \<Rightarrow> Inr (mk t))
         else Inr (mk 0))"

definition db_GetContact :: "string \<Rightarrow> db \<Rightarrow> db_err + db_contact" where
  "db_GetContact name s =
     (case find (\<lambda>r. cr_name r = name) (db_contacts s) of None \<Rightarrow> Inl DbNotFound | Some r \<Rightarrow> scanContact r)"

definition db_ListContacts :: "db \<Rightarrow> db_err + db_contact list" where
  "db_ListContacts s = scan_all scanContact (sort_key cr_name (db_contacts s))"

definition db_DeleteContact :: "string \<Rightarrow> db \<Rightarrow> db_err option \<times> db" where
  "db_DeleteContact name s =
     (if \<exists>r \<in> set (db_contacts s). cr_name r = name
      then (None, s\<lparr>db_contacts := filter (\<lambda>r. cr_name r \<noteq> name) (db_contacts s)\<rparr>)
      else (Some DbNotFound, s))"

section \<open>Keys stay unique\<close>

definition db_inv :: "db \<Rightarrow> bool" where
  "db_inv s \<longleftrightarrow> distinct (map dr_id (db_drops s)) \<and> distinct (map cr_name (db_contacts s)) \<and>
     sorted (map er_id (db_history s)) \<and> (\<forall>e \<in> set (db_history s). er_id e \<le> db_seq s)"

lemma upsert_keys: "set (map key (upsert key row rs)) = insert (key row) (set (map key rs))"
  by (induction rs) auto

lemma distinct_upsert: "distinct (map key rs) \<Longrightarrow> distinct (map key (upsert key row rs))"
proof (induction rs)
  case (Cons r rs)
  then show ?case using upsert_keys [of key row rs] by auto
qed simp

lemma find_upsert: "find (\<lambda>r. key r = k) (upsert key row rs) = (if k = key row then Some row else find (\<lambda>r. key r = k) rs)"
  by (induction rs) auto

lemma db_inv_empty: "db_inv db_empty"
  by (simp add: db_inv_def db_empty_def)

lemma map_update_id [simp]: "(\<And>r. key (f r) = key r) \<Longrightarrow> map (key \<circ> (\<lambda>r. if P r then f r else r)) rs = map key rs"
  by (induction rs) auto

lemma db_inv_steps [step_preserves]:
  assumes "db_inv s"
  shows "db_inv (db_UpsertDrop d s)" "db_inv (snd (db_UpdateStatus did st s))" "db_inv (snd (db_SetVerified did v s))"
    "db_inv (snd (db_DeleteDrop did s))" "db_inv (db_AddEvent now did ev detail s)"
    "db_inv (snd (db_PutContact c s))" "db_inv (snd (db_DeleteContact name s))"
proof -
  show "db_inv (db_UpsertDrop d s)"
    using assms by (simp add: db_inv_def db_UpsertDrop_def distinct_upsert)
  show "db_inv (snd (db_UpdateStatus did st s))" "db_inv (snd (db_SetVerified did v s))"
    using assms by (simp_all add: db_inv_def db_UpdateStatus_def db_SetVerified_def update_drop_def)
  show "db_inv (snd (db_DeleteDrop did s))" "db_inv (snd (db_DeleteContact name s))"
    using assms by (auto simp: db_inv_def db_DeleteDrop_def db_DeleteContact_def distinct_map_filter sorted_filter Let_def)
  show "db_inv (db_AddEvent now did ev detail s)"
    using assms by (force simp: db_inv_def db_AddEvent_def sorted_append)
  show "db_inv (snd (db_PutContact c s))"
    using assms by (simp add: db_inv_def db_PutContact_def distinct_upsert Let_def)
qed

section \<open>Reading what was written\<close>

lemma scan_to_row:
  assumes "json_year (dd_CreatedAt d)" "json_year (dd_ExpiresAt d)"
  shows "scanDrop (drop_to_row d) = Inr (d\<lparr>dd_CreatedAt := dd_CreatedAt d div second_ns * second_ns,
    dd_ExpiresAt := dd_ExpiresAt d div second_ns * second_ns\<rparr>)"
  using assms parse_format_rfc3339 [of "dd_CreatedAt d"] parse_format_rfc3339 [of "dd_ExpiresAt d"]
  by (simp add: scanDrop_def drop_to_row_def json_year_def boolInt_def)

lemma scan_all_bad: "r \<in> set rs \<Longrightarrow> f r = Inl e \<Longrightarrow> \<exists>e. scan_all f rs = Inl e"
  by (induction rs) (auto split: sum.splits)

text \<open>Go prints a year beyond 9999 with five digits or more, which no parser of the layout takes.\<close>

lemma format_nat_long: "10 ^ k \<le> n \<Longrightarrow> k < length (format_nat n)"
proof (induction k arbitrary: n)
  case (Suc k)
  then have "10 ^ k \<le> n div 10" "\<not> n < 10"
    using order_trans [of 10 "10 ^ Suc k" n] by (simp_all add: div_le_mono less_eq_div_iff_mult_less_eq)
  with Suc.IH [of "n div 10"] show ?case by (simp add: format_nat.simps [of n])
qed simp

lemma parse_big_year:
  assumes "9999 < fst (civil t)" shows "parse_rfc3339 (format_rfc3339 t) = None"
proof -
  obtain y m d h mi s where c: "civil t = (y, m, d, h, mi, s)" by (cases "civil t") auto
  have y: "\<not> y < 0" "\<not> nat y < 10000" using assms by (simp_all add: c)
  obtain rest where f: "format_rfc3339 t = format_nat (nat y) @ rest"
    using y by (simp add: format_rfc3339_def c pad4_def)
  have len: "4 < length (format_nat (nat y))" using y by (intro format_nat_long) simp
  then obtain x xs where x: "drop 4 (format_nat (nat y)) = x # xs" by (cases "drop 4 (format_nat (nat y))") auto
  have "x \<in> set (format_nat (nat y))" using x by (metis in_set_dropD list.set_intros(1))
  then have "is_digit x" by (rule format_nat_digits)
  then have "skip CHR ''-'' (drop 4 (format_nat (nat y)) @ rest) = None"
    by (auto simp: x skip_def is_digit_def)
  moreover have "getyear (format_rfc3339 t) = None \<or> (\<exists>n. getyear (format_rfc3339 t) = Some (n, drop 4 (format_nat (nat y)) @ rest))"
    using len by (auto simp: getyear_def f split: option.splits)
  ultimately show ?thesis by (auto simp: parse_rfc3339_def)
qed

text \<open>
  Records are read back. After a drop is stored, looking it up gives it with its times cut to
  whole seconds, when both lie in the years 0 to 9999, and every other drop is as before;
  identifiers and contact names stay unique. But one record with a later expiry spoils the
  list: its own lookup and every listing of all drops fail from then on.
\<close>

theorem database_records:
  assumes "db_inv s" "json_year (dd_CreatedAt d)"
  shows "db_inv (db_UpsertDrop d s) \<and>
    (json_year (dd_ExpiresAt d) \<longrightarrow> db_GetDrop (dd_ID d) (db_UpsertDrop d s) =
       Inr (d\<lparr>dd_CreatedAt := dd_CreatedAt d div second_ns * second_ns,
              dd_ExpiresAt := dd_ExpiresAt d div second_ns * second_ns\<rparr>)) \<and>
    (\<forall>k. k \<noteq> dd_ID d \<longrightarrow> db_GetDrop k (db_UpsertDrop d s) = db_GetDrop k s) \<and>
    (9999 < fst (civil (dd_ExpiresAt d)) \<longrightarrow>
       db_GetDrop (dd_ID d) (db_UpsertDrop d s) = Inl DbBadTime \<and> (\<exists>e. db_ListDrops (db_UpsertDrop d s) = Inl e))"
proof (intro conjI impI allI)
  show "db_inv (db_UpsertDrop d s)" using assms(1) by (rule db_inv_steps)
  have find: "find (\<lambda>r. dr_id r = k) (db_drops (db_UpsertDrop d s)) =
      (if k = dd_ID d then Some (drop_to_row d) else find (\<lambda>r. dr_id r = k) (db_drops s))" for k
    using find_upsert [of dr_id k "drop_to_row d" "db_drops s"] by (simp add: db_UpsertDrop_def drop_to_row_def)
  show "db_GetDrop (dd_ID d) (db_UpsertDrop d s) = Inr (d\<lparr>dd_CreatedAt := dd_CreatedAt d div second_ns * second_ns,
      dd_ExpiresAt := dd_ExpiresAt d div second_ns * second_ns\<rparr>)" if "json_year (dd_ExpiresAt d)"
    unfolding db_GetDrop_def find using scan_to_row [OF assms(2) that] by simp
  show "db_GetDrop k (db_UpsertDrop d s) = db_GetDrop k s" if "k \<noteq> dd_ID d" for k
    using that by (simp add: db_GetDrop_def find)
  assume "9999 < fst (civil (dd_ExpiresAt d))"
  then have bad: "scanDrop (drop_to_row d) = Inl DbBadTime"
    using parse_big_year [of "dd_ExpiresAt d"] by (simp add: scanDrop_def drop_to_row_def split: option.splits)
  then show "db_GetDrop (dd_ID d) (db_UpsertDrop d s) = Inl DbBadTime" by (simp add: db_GetDrop_def find)
  have "drop_to_row d \<in> set (db_drops (db_UpsertDrop d s))"
    using find [of "dd_ID d"] by (auto simp: find_Some_iff)
  then show "\<exists>e. db_ListDrops (db_UpsertDrop d s) = Inl e"
    unfolding db_ListDrops_def using scan_all_bad [where f = scanDrop, OF _ bad] by simp
qed

theorem database_records_witness:
  "db_GetDrop ''a'' (db_UpsertDrop \<lparr>dd_ID = ''a'', dd_Mode = [], dd_Recipient = [], dd_CreatedAt = 0, dd_ExpiresAt = 0,
      dd_Status = ''READY'', dd_PayloadHash = [], dd_Size = 5, dd_StorageRef = [], dd_Verified = True\<rparr> db_empty) =
    Inr \<lparr>dd_ID = ''a'', dd_Mode = [], dd_Recipient = [], dd_CreatedAt = 0, dd_ExpiresAt = 0,
      dd_Status = ''READY'', dd_PayloadHash = [], dd_Size = 5, dd_StorageRef = [], dd_Verified = True\<rparr>"
proof -
  have "json_year 0" by code_simp
  then show ?thesis
    using database_records [OF db_inv_empty, of "\<lparr>dd_ID = ''a'', dd_Mode = [], dd_Recipient = [], dd_CreatedAt = 0,
      dd_ExpiresAt = 0, dd_Status = ''READY'', dd_PayloadHash = [], dd_Size = 5, dd_StorageRef = [], dd_Verified = True\<rparr>"]
    by simp
qed

end
