(* ===== verification/Drops.thy ===== *)
theory Drops
  imports Manifest Database Paths StorageApi
begin

text \<open>
  \<^verbatim>\<open>internal/drops/manager.go\<close>: the life of a drop. The manager is written against the storage
  interface: \<open>pv\<close> is any provider, and its properties use only the contract of
  \<open>StorageApi\<close>. Its state is the store, the database (if any), the directory of saved manifests
  (if any), and the two caches. Temporary files have a name \<open>tmp\<close> that no other file has;
  random draws and the clock reading of an operation are arguments; manifests are values, so a
  caller that alters the one it was given is not modelled.
\<close>

section \<open>State and options\<close>

abbreviation StatusPreparing :: string where "StatusPreparing \<equiv> ''PREPARING''"
abbreviation StatusEncrypting :: string where "StatusEncrypting \<equiv> ''ENCRYPTING''"
abbreviation StatusUploading :: string where "StatusUploading \<equiv> ''UPLOADING''"
abbreviation StatusReady :: string where "StatusReady \<equiv> ''READY''"
abbreviation StatusDelivered :: string where "StatusDelivered \<equiv> ''DELIVERED''"
abbreviation StatusRetrieved :: string where "StatusRetrieved \<equiv> ''RETRIEVED''"
abbreviation StatusVerified :: string where "StatusVerified \<equiv> ''VERIFIED''"
abbreviation StatusExpired :: string where "StatusExpired \<equiv> ''EXPIRED''"
abbreviation StatusRevoked :: string where "StatusRevoked \<equiv> ''REVOKED''"
abbreviation StatusFailed :: string where "StatusFailed \<equiv> ''FAILED''"

record create_opts =
  co_ID :: string
  co_Mode :: string
  co_SenderIdentity :: string
  co_RecipientCommitment :: string
  co_Expiry :: time
  co_OneTime :: bool
  co_SignPriv :: bytes
  co_SignBy :: string
  co_RecipientPub :: "bytes option"
  co_Password :: string
  co_Amount :: u64
  co_PaidTo :: string
  co_TxidRequired :: bool

record retrieve_opts =
  ro_Key :: "bytes option"
  ro_RecipientPriv :: "bytes option"
  ro_Password :: string

record 's manager =
  mg_store :: 's
  mg_db :: "db option"
  mg_ghost :: bool
  mg_dir :: "manifest file_data dir option"
  mg_manifests :: "string \<rightharpoonup> manifest"
  mg_statuses :: "string \<rightharpoonup> string"

definition drops_NewManager :: "'s \<Rightarrow> db option \<Rightarrow> bool \<Rightarrow> manifest file_data dir option \<Rightarrow> 's manager" where
  "drops_NewManager store d ghost mdir =
     \<lparr>mg_store = store, mg_db = d, mg_ghost = ghost, mg_dir = mdir, mg_manifests = Map.empty,
      mg_statuses = Map.empty\<rparr>"

text \<open>The random draws of \<^verbatim>\<open>Create\<close>; \<open>None\<close> where the source fails.\<close>

record draws =
  rn_id :: "bytes option"
  rn_key :: "bytes option"
  rn_header :: "bytes option"
  rn_name :: "nat \<Rightarrow> bytes option"
  rn_ephem :: "bytes option"
  rn_wrap :: "bytes option"
  rn_salt :: "bytes option"
  rn_seal :: "bytes option"

datatype drop_err =
    DrPanic | DrStorage st_err | DrCrypto crypto_err | DrManifest mf_err | DrNoSource | DrCtx | DrExpired
  | DrNoRecipientLock | DrBadHex | DrBadEphem nat | DrNoPassLock | DrBadWrapped nat | DrBadUnwrapped nat
  | DrNoKey | DrHashMismatch

definition hour_ns :: int where
  "hour_ns = 3600 * second_ns"

section \<open>Status and manifests\<close>

text \<open>Writes to the database, unless there is none or the manager is in ghost mode.\<close>

definition mg_write :: "(db \<Rightarrow> db) \<Rightarrow> 's manager \<Rightarrow> 's manager" where
  "mg_write f m =
     (case mg_db m of None \<Rightarrow> m | Some d \<Rightarrow> if mg_ghost m then m else m\<lparr>mg_db := Some (f d)\<rparr>)"

definition mg_setStatus :: "string \<Rightarrow> string \<Rightarrow> 's manager \<Rightarrow> 's manager" where
  "mg_setStatus did st m =
     mg_write (\<lambda>d. snd (db_UpdateStatus did st d)) (m\<lparr>mg_statuses := (mg_statuses m)(did \<mapsto> st)\<rparr>)"

definition manifest_path :: "string \<Rightarrow> string" where
  "manifest_path did = did @ ''.json''"

definition mg_remember :: "string \<Rightarrow> manifest \<Rightarrow> string \<Rightarrow> 's manager \<Rightarrow> 's manager" where
  "mg_remember did man st m =
     (let m1 = m\<lparr>mg_manifests := (mg_manifests m)(did \<mapsto> man), mg_statuses := (mg_statuses m)(did \<mapsto> st)\<rparr>
      in case mg_dir m1 of
           None \<Rightarrow> m1
         | Some d \<Rightarrow> m1\<lparr>mg_dir := Some (snd (mf_Save man (manifest_path did) d))\<rparr>)"

definition drops_GetManifest :: "string \<Rightarrow> 's manager \<Rightarrow> (st_err + manifest) \<times> 's manager" where
  "drops_GetManifest did m =
     (case mg_manifests m did of
        Some man \<Rightarrow> (Inr man, m)
      | None \<Rightarrow>
          (case mg_dir m of
             None \<Rightarrow> (Inl NotFound, m)
           | Some d \<Rightarrow>
               (case mf_Load (manifest_path did) d of
                  Inl e \<Rightarrow> (Inl NotFound, m)
                | Inr man \<Rightarrow> (Inr man, m\<lparr>mg_manifests := (mg_manifests m)(did \<mapsto> man)\<rparr>))))"

section \<open>Creating a drop\<close>

text \<open>The locks of the file key; the one for a password is put in after the one for a recipient.\<close>

definition drops_lock_recipient ::
  "prims \<Rightarrow> draws \<Rightarrow> bytes \<Rightarrow> bytes option \<Rightarrow> manifest \<Rightarrow> crypto_err + manifest" where
  "drops_lock_recipient P rnd fileKey recipient man =
     (case recipient of
        None \<Rightarrow> Inr man
      | Some rpub \<Rightarrow>
          (case crypto_GenerateRecipientKeypair P (rn_ephem rnd) of
             Inl e \<Rightarrow> Inl e
           | Inr (ephemPub, ephemPriv) \<Rightarrow>
               (case crypto_WrapFileKey P (rn_wrap rnd) fileKey rpub ephemPriv of
                  Inl e \<Rightarrow> Inl e
                | Inr (wrapped, pub) \<Rightarrow>
                    Inr (man\<lparr>mf_Access := (mf_Access man)\<lparr>ac_WrappedKey := hex_encode wrapped,
                      ac_EphemPub := hex_encode pub, ac_KDF := ''x25519''\<rparr>\<rparr>))))"

definition drops_lock_password ::
  "prims \<Rightarrow> draws \<Rightarrow> bytes \<Rightarrow> string \<Rightarrow> manifest \<Rightarrow> crypto_err + manifest" where
  "drops_lock_password P rnd fileKey password man =
     (if password = '''' then Inr man
      else case crypto_NewSalt (rn_salt rnd) of
             Inl e \<Rightarrow> Inl e
           | Inr salt \<Rightarrow>
               (let dk = crypto_DeriveKeyFromPassphrase P password salt in
                case crypto_SealBytes P (rn_seal rnd) fileKey dk of
                  Inl e \<Rightarrow> Inl e
                | Inr (nonce, cipher) \<Rightarrow>
                    Inr (man\<lparr>mf_Access := (mf_Access man)\<lparr>ac_WrappedKey := hex_encode (nonce @ cipher),
                      ac_PassphraseSalt := hex_encode salt, ac_KDF := ''argon2id''\<rparr>\<rparr>)))"

definition drops_manifest ::
  "time \<Rightarrow> string \<Rightarrow> string \<Rightarrow> time \<Rightarrow> create_opts \<Rightarrow> string \<Rightarrow> string \<Rightarrow> int \<Rightarrow> string \<Rightarrow> manifest" where
  "drops_manifest now did mode expiry opts cipherHash plainHash encSize backend =
     (mf_New now did mode expiry)\<lparr>mf_SenderIdentity := co_SenderIdentity opts,
       mf_RecipientCommitment := co_RecipientCommitment opts, mf_PayloadHash := cipherHash,
       mf_PayloadSize := encSize, mf_PlaintextHash := plainHash, mf_OneTime := co_OneTime opts,
       mf_Storage := \<lparr>sr_Backend = backend, sr_Ref = did\<rparr>,
       mf_Payment := \<lparr>py_Amount = co_Amount opts, py_Address = co_PaidTo opts, py_TxidRequired = co_TxidRequired opts\<rparr>\<rparr>"

text \<open>From the sealed file on: names, locks, signature, validation.\<close>

definition drops_build ::
  "prims \<Rightarrow> draws \<Rightarrow> bytes \<Rightarrow> create_opts \<Rightarrow> string \<Rightarrow> int \<Rightarrow> string \<Rightarrow> manifest \<Rightarrow> drop_err + manifest" where
  "drops_build P rnd fileKey opts srcPath srcSize plainHash man =
     (case mf_EncryptFilenames P (rn_name rnd) [filepath_Base srcPath] fileKey man of
        (Some e, _) \<Rightarrow> Inl (DrManifest e)
      | (None, man1) \<Rightarrow>
          (case drops_lock_recipient P rnd fileKey (co_RecipientPub opts) (mf_SetFileInfo 0 srcSize plainHash man1) of
             Inl e \<Rightarrow> Inl (DrCrypto e)
           | Inr man2 \<Rightarrow>
               (case drops_lock_password P rnd fileKey (co_Password opts) man2 of
                  Inl e \<Rightarrow> Inl (DrCrypto e)
                | Inr man3 \<Rightarrow>
                    (case (if co_SignPriv opts \<noteq> [] then mf_Sign P (co_SignPriv opts) (co_SignBy opts) man3
                           else (None, man3)) of
                       (Some e, _) \<Rightarrow> Inl (DrManifest e)
                     | (None, man4) \<Rightarrow>
                         (case mf_Validate (Some man4) of
                            Some e \<Rightarrow> Inl (DrManifest e)
                          | None \<Rightarrow> Inr man4)))))"

text \<open>\<^verbatim>\<open>Create\<close> once its arguments are settled. The deferred removal of the temporary file is the
  last thing that happens to the files.\<close>

definition drops_create_body ::
  "prims \<Rightarrow> 's provider \<Rightarrow> time \<Rightarrow> ctx \<Rightarrow> draws \<Rightarrow> string \<Rightarrow> string \<Rightarrow> string \<Rightarrow> string \<Rightarrow> time \<Rightarrow> create_opts \<Rightarrow>
    's manager \<Rightarrow> fs \<Rightarrow> (drop_err + manifest \<times> bytes) \<times> 's manager \<times> fs" where
  "drops_create_body P pv now ctx rnd tmp did mode srcPath expiry opts m0 fs =
     (let m = mg_setStatus did StatusPreparing m0;
          failed = (\<lambda>e m fs. (Inl e, mg_setStatus did StatusFailed m, fs))
      in case fs srcPath of
           None \<Rightarrow> failed DrNoSource m fs
         | Some src \<Rightarrow>
             (if ctx 0 then failed DrCtx m fs
              else case crypto_GenerateFileKey (rn_key rnd) of
                     Inl e \<Rightarrow> failed (DrCrypto e) m fs
                   | Inr fileKey \<Rightarrow>
                       (let m1 = mg_setStatus did StatusEncrypting m in
                        case crypto_SealFile P (rn_header rnd) (fs(tmp \<mapsto> [])) srcPath tmp fileKey of
                          (Inl e, fs1) \<Rightarrow> failed (DrCrypto e) m1 (fs1(tmp := None))
                        | (Inr (cipherHash, plainHash, _), fs1) \<Rightarrow>
                            (let enc = the (fs1 tmp);
                                 man0 = drops_manifest now did mode expiry opts cipherHash plainHash
                                   (int (length enc)) (pv_backend pv);
                                 fs2 = fs1(tmp := None)
                             in case drops_build P rnd fileKey opts srcPath (int (length src)) plainHash man0 of
                                  Inl e \<Rightarrow> failed e m1 fs2
                                | Inr man \<Rightarrow>
                                    (let m2 = mg_setStatus did StatusUploading m1 in
                                     case pv_put pv (\<lambda>n. ctx (n + 1)) now did (reader_of enc) (int (length enc)) expiry
                                         (mg_store m2) of
                                       (Some e, st) \<Rightarrow> failed (DrStorage e) (m2\<lparr>mg_store := st\<rparr>) fs2
                                     | (None, st) \<Rightarrow>
                                         (let m3 = mg_remember did man StatusReady (m2\<lparr>mg_store := st\<rparr>);
                                              row = \<lparr>dd_ID = did, dd_Mode = mode,
                                                dd_Recipient = co_RecipientCommitment opts,
                                                dd_CreatedAt = mf_CreatedAt man, dd_ExpiresAt = expiry,
                                                dd_Status = StatusReady, dd_PayloadHash = cipherHash,
                                                dd_Size = int (length enc),
                                                dd_StorageRef = pv_backend pv @ ''/'' @ did, dd_Verified = False\<rparr>
                                          in (Inr (man, fileKey),
                                              mg_write (\<lambda>d. db_AddEvent now did ''created'' (''mode='' @ mode)
                                                (db_UpsertDrop row d)) m3, fs2)))))))"

definition drops_Create ::
  "prims \<Rightarrow> 's provider \<Rightarrow> time \<Rightarrow> ctx \<Rightarrow> draws \<Rightarrow> string \<Rightarrow> string \<Rightarrow> create_opts \<Rightarrow> 's manager \<Rightarrow> fs \<Rightarrow>
    (drop_err + manifest \<times> bytes) \<times> 's manager \<times> fs" where
  "drops_Create P pv now ctx rnd tmp srcPath opts m fs =
     (case (if co_ID opts = '''' then crypto_GenerateDropID (rn_id rnd) else Some (co_ID opts)) of
        None \<Rightarrow> (Inl DrPanic, m, fs)
      | Some did \<Rightarrow>
          (case storage_ValidateID did of
             Some e \<Rightarrow> (Inl (DrStorage e), m, fs)
           | None \<Rightarrow>
               (let mode = (if co_Mode opts = '''' then ''anonymous'' else co_Mode opts);
                    expiry = (if co_Expiry opts = 0 then now + 72 * hour_ns else co_Expiry opts)
                in drops_create_body P pv now ctx rnd tmp did mode srcPath expiry opts m fs)))"

section \<open>Retrieving a drop\<close>

definition drops_resolveKey :: "prims \<Rightarrow> manifest \<Rightarrow> retrieve_opts \<Rightarrow> drop_err + bytes" where
  "drops_resolveKey P man opts =
     (case ro_Key opts of
        Some k \<Rightarrow> Inr k
      | None \<Rightarrow>
          (case ro_RecipientPriv opts of
             Some priv \<Rightarrow>
               (if ac_WrappedKey (mf_Access man) = '''' \<or> ac_EphemPub (mf_Access man) = '''' then Inl DrNoRecipientLock
                else case hex_decode (ac_WrappedKey (mf_Access man)) of
                       None \<Rightarrow> Inl DrBadHex
                     | Some wrapped \<Rightarrow>
                         (case hex_decode (ac_EphemPub (mf_Access man)) of
                            None \<Rightarrow> Inl DrBadHex
                          | Some ephem \<Rightarrow>
                              (if length ephem \<noteq> 32 then Inl (DrBadEphem (length ephem))
                               else case crypto_UnwrapFileKey P wrapped ephem priv of
                                      Inl e \<Rightarrow> Inl (DrCrypto e) | Inr k \<Rightarrow> Inr k)))
           | None \<Rightarrow>
               (if ro_Password opts \<noteq> '''' then
                  (if ac_WrappedKey (mf_Access man) = '''' \<or> ac_PassphraseSalt (mf_Access man) = '''' then Inl DrNoPassLock
                   else case hex_decode (ac_WrappedKey (mf_Access man)) of
                          None \<Rightarrow> Inl DrBadHex
                        | Some raw \<Rightarrow>
                            (case hex_decode (ac_PassphraseSalt (mf_Access man)) of
                               None \<Rightarrow> Inl DrBadHex
                             | Some salt \<Rightarrow>
                                 (if length raw < 24 + 32 then Inl (DrBadWrapped (length raw))
                                  else (let dk = crypto_DeriveKeyFromPassphrase P (ro_Password opts) salt in
                                        case crypto_OpenBytes P (take 24 raw) (drop 24 raw) dk of
                                          Inl e \<Rightarrow> Inl (DrCrypto e)
                                        | Inr plain \<Rightarrow>
                                            if length plain \<noteq> 32 then Inl (DrBadUnwrapped (length plain))
                                            else Inr plain))))
                else Inl DrNoKey)))"

text \<open>From the download on.\<close>

definition drops_retrieve_body ::
  "prims \<Rightarrow> 's provider \<Rightarrow> time \<Rightarrow> ctx \<Rightarrow> string \<Rightarrow> string \<Rightarrow> string \<Rightarrow> manifest \<Rightarrow> bytes \<Rightarrow> 's manager \<Rightarrow> fs \<Rightarrow>
    drop_err option \<times> 's manager \<times> fs" where
  "drops_retrieve_body P pv now ctx tmp did dstPath man key m0 fs =
     (let m = mg_setStatus did StatusDelivered m0 in
      case pv_get pv (\<lambda>n. ctx (n + 1)) now did 0 (mg_store m) of
        (Inl e, st) \<Rightarrow> (Some (DrStorage e), m\<lparr>mg_store := st\<rparr>, fs)
      | (Inr enc, st) \<Rightarrow>
          (let m1 = m\<lparr>mg_store := st\<rparr> in
           case crypto_OpenFile P (fs(tmp \<mapsto> enc)) tmp dstPath key of
             (Some e, fs1) \<Rightarrow> (Some (DrCrypto e), mg_setStatus did StatusFailed m1, fs1(tmp := None))
           | (None, fs1) \<Rightarrow>
               (let m2 = mg_setStatus did StatusRetrieved m1; fs2 = fs1(tmp := None) in
                case crypto_Sha256HexFile P fs1 dstPath of
                  Inl e \<Rightarrow> (Some (DrCrypto e), m2, fs2)
                | Inr (got, _) \<Rightarrow>
                    (if mf_PlaintextHash man \<noteq> '''' \<and> got \<noteq> mf_PlaintextHash man
                     then (Some DrHashMismatch, mg_setStatus did StatusFailed m2, fs2)
                     else (let m3 = mg_write (\<lambda>d. db_AddEvent now did ''retrieved'' ''hash=ok''
                                  (snd (db_UpdateStatus did StatusVerified (snd (db_SetVerified did True d)))))
                                (mg_setStatus did StatusVerified m2)
                           in (None,
                               (if mf_OneTime man
                                then m3\<lparr>mg_store := snd (pv_delete pv (\<lambda>n. ctx (n + 2)) now did (mg_store m3))\<rparr>
                                else m3), fs2))))))"

definition drops_Retrieve ::
  "prims \<Rightarrow> 's provider \<Rightarrow> time \<Rightarrow> ctx \<Rightarrow> string \<Rightarrow> string \<Rightarrow> string \<Rightarrow> retrieve_opts \<Rightarrow> 's manager \<Rightarrow> fs \<Rightarrow>
    drop_err option \<times> 's manager \<times> fs" where
  "drops_Retrieve P pv now ctx tmp did dstPath opts m fs =
     (case drops_GetManifest did m of
        (Inl e, m1) \<Rightarrow> (Some (DrStorage e), m1, fs)
      | (Inr man, m1) \<Rightarrow>
          (if mf_ExpiresAt man < now then (Some DrExpired, mg_setStatus did StatusExpired m1, fs)
           else case drops_resolveKey P man opts of
                  Inl e \<Rightarrow> (Some e, m1, fs)
                | Inr key \<Rightarrow>
                    (if ctx 0 then (Some DrCtx, m1, fs)
                     else drops_retrieve_body P pv now ctx tmp did dstPath man key m1 fs)))"

section \<open>Revoking, status, resuming\<close>

definition drops_Revoke ::
  "'s provider \<Rightarrow> time \<Rightarrow> ctx \<Rightarrow> string \<Rightarrow> 's manager \<Rightarrow> drop_err option \<times> 's manager" where
  "drops_Revoke pv now ctx did m =
     (case pv_delete pv ctx now did (mg_store m) of
        (Some e, st) \<Rightarrow> (Some (DrStorage e), m\<lparr>mg_store := st\<rparr>)
      | (None, st) \<Rightarrow>
          (None, mg_write (\<lambda>d. db_AddEvent now did ''revoked'' '''' (snd (db_UpdateStatus did StatusRevoked d)))
                   (mg_setStatus did StatusRevoked (m\<lparr>mg_store := st\<rparr>))))"

text \<open>The status comes with an error where it is \<^verbatim>\<open>FAILED\<close> for want of any record.\<close>

definition drops_Status ::
  "'s provider \<Rightarrow> time \<Rightarrow> ctx \<Rightarrow> string \<Rightarrow> 's manager \<Rightarrow> (string \<times> drop_err option) \<times> 's manager" where
  "drops_Status pv now ctx did m =
     (let (man, m1) = drops_GetManifest did m;
          expired = (case man of Inr x \<Rightarrow> mf_ExpiresAt x < now | Inl _ \<Rightarrow> False)
      in if expired then ((StatusExpired, None), mg_setStatus did StatusExpired m1)
         else case mg_statuses m1 did of
                Some st \<Rightarrow> ((st, None), m1)
              | None \<Rightarrow>
                  (case (case mg_db m1 of Some d \<Rightarrow> if mg_ghost m1 then Inl DbNotFound else db_GetDrop did d
                         | None \<Rightarrow> Inl DbNotFound) of
                     Inr d \<Rightarrow> ((dd_Status d, None), m1)
                   | Inl _ \<Rightarrow>
                       (case pv_health pv ctx now (mg_store m1) of
                          (Some e, st) \<Rightarrow> ((StatusFailed, Some (DrStorage e)), m1\<lparr>mg_store := st\<rparr>)
                        | (None, st) \<Rightarrow> ((StatusFailed, Some (DrStorage NotFound)), m1\<lparr>mg_store := st\<rparr>))))"

definition drops_ResumeOffset ::
  "'s provider \<Rightarrow> time \<Rightarrow> ctx \<Rightarrow> string \<Rightarrow> 's manager \<Rightarrow> (drop_err + int) \<times> 's manager" where
  "drops_ResumeOffset pv now ctx did m =
     (case pv_stat pv ctx now did (mg_store m) of
        (Inl e, st) \<Rightarrow> (Inl (DrStorage e), m\<lparr>mg_store := st\<rparr>)
      | (Inr (sz, _), st) \<Rightarrow> (Inr sz, m\<lparr>mg_store := st\<rparr>))"

end
