(* ===== verification/DropsProps.thy ===== *)
theory DropsProps
  imports Drops MemoryStore
begin

text \<open>
  What the manager of drops promises: a drop that was created is retrieved with its content,
  by whoever holds a key, from any store that meets the contract \<open>plain_store\<close>; what each way of
  failing leaves behind; ghost mode.
\<close>

section \<open>The manifest a drop is created with\<close>

text \<open>Random values have the length asked for.\<close>

definition draws_ok :: "draws \<Rightarrow> bool" where
  "draws_ok rnd \<longleftrightarrow>
     (\<forall>k. rn_key rnd = Some k \<longrightarrow> length k = KeySize) \<and> (\<forall>h. rn_header rnd = Some h \<longrightarrow> length h = NonceSize) \<and>
     (\<forall>i n. rn_name rnd i = Some n \<longrightarrow> length n = NonceSize) \<and> (\<forall>n. rn_wrap rnd = Some n \<longrightarrow> length n = NonceSize) \<and>
     (\<forall>n. rn_seal rnd = Some n \<longrightarrow> length n = NonceSize) \<and> (\<forall>s. rn_salt rnd = Some s \<longrightarrow> length s = SaltSize) \<and>
     (\<forall>b. rn_id rnd = Some b \<longrightarrow> length b = 6)"

lemma lock_recipient_cases:
  assumes "drops_lock_recipient P rnd key rp man = Inr man'"
  obtains (open_key) "rp = None" "man' = man"
  | (locked) rpub priv epub wrapped pub where "rp = Some rpub"
      "crypto_GenerateRecipientKeypair P (rn_ephem rnd) = Inr (epub, priv)"
      "crypto_WrapFileKey P (rn_wrap rnd) key rpub priv = Inr (wrapped, pub)"
      "man' = man\<lparr>mf_Access := (mf_Access man)\<lparr>ac_WrappedKey := hex_encode wrapped,
         ac_EphemPub := hex_encode pub, ac_KDF := ''x25519''\<rparr>\<rparr>"
  using assms by (auto simp: drops_lock_recipient_def split: option.splits sum.splits prod.splits)

lemma lock_password_cases:
  assumes "drops_lock_password P rnd key pw man = Inr man'"
  obtains (open_key) "pw = []" "man' = man"
  | (locked) salt nonce cipher where "pw \<noteq> []" "rn_salt rnd = Some salt"
      "crypto_SealBytes P (rn_seal rnd) key (crypto_DeriveKeyFromPassphrase P pw salt) = Inr (nonce, cipher)"
      "man' = man\<lparr>mf_Access := (mf_Access man)\<lparr>ac_WrappedKey := hex_encode (nonce @ cipher),
         ac_PassphraseSalt := hex_encode salt, ac_KDF := ''argon2id''\<rparr>\<rparr>"
  using assms
  by (auto simp: drops_lock_password_def crypto_NewSalt_def Let_def split: if_splits option.splits sum.splits prod.splits)

lemma drops_build_cases:
  assumes "drops_build P rnd key opts src sz ph man0 = Inr man"
  obtains man1 man2 man3 sg where
    "drops_lock_recipient P rnd key (co_RecipientPub opts) man1 = Inr man2"
    "drops_lock_password P rnd key (co_Password opts) man2 = Inr man3"
    "man = man3\<lparr>mf_Signature := sg\<rparr>" "mf_Validate (Some man) = None"
    "mf_Access man1 = mf_Access man0" "mf_PlaintextHash man1 = mf_PlaintextHash man0"
    "mf_ExpiresAt man1 = mf_ExpiresAt man0" "mf_OneTime man1 = mf_OneTime man0"
proof -
  obtain man1 man2 man3 sg where h: "mf_EncryptFilenames P (rn_name rnd) [filepath_Base src] key man0 = (None, man1)"
    "drops_lock_recipient P rnd key (co_RecipientPub opts) (mf_SetFileInfo 0 sz ph man1) = Inr man2"
    "drops_lock_password P rnd key (co_Password opts) man2 = Inr man3"
    "man = man3\<lparr>mf_Signature := sg\<rparr>" "mf_Validate (Some man) = None"
    using assms
    by (auto simp: drops_build_def mf_Sign_def split: prod.splits option.splits sum.splits if_splits)
       (metis manifest.surjective manifest.update_convs(18))+
  then show thesis
    by (intro that [OF h(2-5)])
       (auto simp: mf_EncryptFilenames_def mf_SetFileInfo_def split: sum.splits)
qed

lemma drops_build_keeps:
  assumes "drops_build P rnd key opts src sz ph man0 = Inr man"
  shows "mf_PlaintextHash man = mf_PlaintextHash man0" "mf_ExpiresAt man = mf_ExpiresAt man0"
    "mf_OneTime man = mf_OneTime man0"
  using assms
  by (cases rule: drops_build_cases; auto elim!: lock_recipient_cases lock_password_cases)+

text \<open>The file key comes back from the manifest for the recipient, if there is no password, and for
  whoever knows the password.\<close>

lemma resolve_recipient:
  assumes P: "aead_ok P" "dh_ok P" and rnd: "draws_ok rnd" "length key = KeySize"
    and b: "drops_build P rnd key opts src sz ph man0 = Inr man"
    and kp: "crypto_GenerateRecipientKeypair P (Some seed) = Inr (pub, priv)"
    and opts: "co_RecipientPub opts = Some pub" "co_Password opts = []"
  shows "drops_resolveKey P man \<lparr>ro_Key = None, ro_RecipientPriv = Some priv, ro_Password = pw\<rparr> = Inr key"
  using b
proof (cases rule: drops_build_cases)
  case (1 man1 man2 man3 sg)
  have m3: "man3 = man2" using 1(2) opts(2) by (cases rule: lock_password_cases) auto
  from 1(1) obtain ep ekey wrapped epub where w: "crypto_WrapFileKey P (rn_wrap rnd) key pub ep = Inr (wrapped, epub)"
    and acc: "ac_WrappedKey (mf_Access man2) = hex_encode wrapped" "ac_EphemPub (mf_Access man2) = hex_encode epub"
    using opts(1) by (cases rule: lock_recipient_cases) auto
  from w obtain nonce where n: "rn_wrap rnd = Some nonce" "length nonce = 24"
    using rnd(1) by (auto simp: crypto_WrapFileKey_def draws_ok_def NonceSize_def Let_def split: option.splits)
  have "length key = 32" using rnd(2) by (simp add: KeySize_def)
  from unwrap_wrapped [OF P this n(2) kp, of ep wrapped epub] w n(1)
  have u: "crypto_UnwrapFileKey P wrapped epub priv = Inr key" "length wrapped = 72" by simp_all
  have "length epub = 32" using w by (auto simp: crypto_WrapFileKey_def Let_def split: option.splits)
  moreover have "wrapped \<noteq> []" "epub \<noteq> []" using u(2) \<open>length epub = 32\<close> by auto
  ultimately show ?thesis
    using u acc by (simp add: drops_resolveKey_def 1(3) m3)
qed

lemma resolve_password:
  assumes P: "aead_ok P" and rnd: "draws_ok rnd" "length key = KeySize"
    and b: "drops_build P rnd key opts src sz ph man0 = Inr man"
    and opts: "co_Password opts \<noteq> []"
  shows "drops_resolveKey P man \<lparr>ro_Key = None, ro_RecipientPriv = None, ro_Password = co_Password opts\<rparr> = Inr key"
  using b
proof (cases rule: drops_build_cases)
  case (1 man1 man2 man3 sg)
  obtain salt nonce cipher where l: "rn_salt rnd = Some salt"
    "crypto_SealBytes P (rn_seal rnd) key (crypto_DeriveKeyFromPassphrase P (co_Password opts) salt) = Inr (nonce, cipher)"
    and acc: "ac_WrappedKey (mf_Access man3) = hex_encode (nonce @ cipher)"
      "ac_PassphraseSalt (mf_Access man3) = hex_encode salt"
    using 1(2) opts by (cases rule: lock_password_cases) auto
  have key: "length key = 32" "length key \<le> aead_max" using rnd(2) by (simp_all add: KeySize_def aead_max_def)
  have n: "length nonce = 24" "rn_seal rnd = Some nonce" "cipher = p_seal P (crypto_DeriveKeyFromPassphrase P (co_Password opts) salt) nonce key"
    using l(2) rnd(1) by (auto simp: crypto_SealBytes_def draws_ok_def NonceSize_def split: option.splits if_splits)
  have "length cipher = 48" using aead_seal_length [OF P key(2)] key(1) by (simp add: n(3))
  moreover have "salt \<noteq> []" using l(1) rnd(1) by (auto simp: draws_ok_def SaltSize_def)
  moreover have "crypto_OpenBytes P nonce cipher (crypto_DeriveKeyFromPassphrase P (co_Password opts) salt) = Inr key"
    using crypto_SealBytes_OpenBytes [OF P key(2) n(1)] l(2) n(2) by simp
  ultimately show ?thesis
    using opts acc n(1) key(1) by (auto simp: drops_resolveKey_def 1(3))
qed

section \<open>What the operations do to the state\<close>

lemma mg_write_sel [simp]:
  "mg_store (mg_write f m) = mg_store m" "mg_manifests (mg_write f m) = mg_manifests m"
  "mg_statuses (mg_write f m) = mg_statuses m" "mg_ghost (mg_write f m) = mg_ghost m"
  "mg_dir (mg_write f m) = mg_dir m" "mg_ghost m \<Longrightarrow> mg_db (mg_write f m) = mg_db m"
  by (simp_all add: mg_write_def split: option.splits)

lemma mg_setStatus_sel [simp]:
  "mg_store (mg_setStatus did st m) = mg_store m" "mg_manifests (mg_setStatus did st m) = mg_manifests m"
  "mg_statuses (mg_setStatus did st m) = (mg_statuses m)(did \<mapsto> st)"
  "mg_ghost (mg_setStatus did st m) = mg_ghost m" "mg_ghost m \<Longrightarrow> mg_db (mg_setStatus did st m) = mg_db m"
  by (simp_all add: mg_setStatus_def)

lemma mg_remember_sel [simp]:
  "mg_store (mg_remember did man st m) = mg_store m"
  "mg_manifests (mg_remember did man st m) = (mg_manifests m)(did \<mapsto> man)"
  "mg_statuses (mg_remember did man st m) = (mg_statuses m)(did \<mapsto> st)"
  "mg_ghost (mg_remember did man st m) = mg_ghost m" "mg_db (mg_remember did man st m) = mg_db m"
  by (simp_all add: mg_remember_def Let_def split: option.splits)

lemma GetManifest_sel:
  assumes "drops_GetManifest did m = (r, m')"
  shows "mg_store m' = mg_store m" "mg_ghost m' = mg_ghost m" "mg_db m' = mg_db m"
    "mg_statuses m' = mg_statuses m" "mg_dir m' = mg_dir m"
  using assms by (auto simp: drops_GetManifest_def split: option.splits sum.splits)

definition drop_id :: "draws \<Rightarrow> create_opts \<Rightarrow> string option" where
  "drop_id rnd opts = (if co_ID opts = '''' then crypto_GenerateDropID (rn_id rnd) else Some (co_ID opts))"

definition drop_expiry :: "time \<Rightarrow> create_opts \<Rightarrow> time" where
  "drop_expiry now opts = (if co_Expiry opts = 0 then now + 72 * hour_ns else co_Expiry opts)"

lemma drops_Create_success:
  assumes "drops_Create P pv now ctx rnd tmp src opts m fs = (Inr (man, key), m1, fs1)"
    and tmp: "tmp \<noteq> src" "fs tmp = None"
  obtains did mode plain h ch where
    "drop_id rnd opts = Some did" "valid_id did" "fs src = Some plain" "rn_key rnd = Some key" "rn_header rnd = Some h"
    "drops_build P rnd key opts src (int (length plain)) (hex_encode (p_sha256 P plain))
       (drops_manifest now did mode (drop_expiry now opts) opts ch (hex_encode (p_sha256 P plain))
         (int (length (gd01_file P h key plain))) (pv_backend pv)) = Inr man"
    "pv_put pv (\<lambda>n. ctx (n + 1)) now did (reader_of (gd01_file P h key plain)) (int (length (gd01_file P h key plain)))
       (drop_expiry now opts) (mg_store m) = (None, mg_store m1)"
    "mg_manifests m1 = (mg_manifests m)(did \<mapsto> man)" "mg_statuses m1 did = Some StatusReady" "fs1 = fs"
proof -
  obtain did where did: "drop_id rnd opts = Some did" "valid_id did"
    using assms(1) by (auto simp: drops_Create_def drop_id_def split: option.splits)
  define mode where "mode = (if co_Mode opts = '''' then ''anonymous'' else co_Mode opts)"
  have body: "drops_create_body P pv now ctx rnd tmp did mode src (drop_expiry now opts) opts m fs = (Inr (man, key), m1, fs1)"
    using assms(1) did by (simp add: drops_Create_def drop_id_def drop_expiry_def mode_def Let_def)
  obtain plain where pl: "fs src = Some plain" using body by (cases "fs src") (auto simp: drops_create_body_def Let_def)
  obtain k where k: "rn_key rnd = Some k"
    using body pl by (cases "rn_key rnd") (auto simp: drops_create_body_def crypto_GenerateFileKey_def Let_def split: if_splits)
  obtain h where h: "rn_header rnd = Some h"
    using body pl k tmp by (cases "rn_header rnd")
      (auto simp: drops_create_body_def crypto_GenerateFileKey_def crypto_SealFile_def Let_def split: if_splits)
  have src: "(fs(tmp \<mapsto> [])) src = Some plain" using pl tmp by simp
  have "fs(tmp := None) = fs" using tmp by auto
  with body pl k h show thesis
    unfolding drops_create_body_def
    by (intro that [of did plain h mode, OF did pl])
       (auto simp: SealFile_gd01 [where fs = "fs(tmp \<mapsto> [])", OF src tmp(1) [symmetric]] crypto_GenerateFileKey_def Let_def
         split: if_splits sum.splits prod.splits option.splits)
qed

section \<open>When creating succeeds\<close>

lemma mf_Validate_ok_iff:
  "mf_Validate (Some m) = None \<longleftrightarrow>
     (has_prefix ''GD-'' (mf_DropID m) \<and> length (mf_DropID m) = 15 \<and> hex_decode (drop 3 (mf_DropID m)) \<noteq> None \<and>
      mf_Version m = mf_Version_current \<and> mf_Mode m \<noteq> [] \<and> mf_Mode m \<in> set knownModes \<and> mf_CreatedAt m \<noteq> 0 \<and>
      mf_CreatedAt m < mf_ExpiresAt m \<and> mf_ChunkSize m = mf_ChunkSize_current \<and> mf_Cipher m \<noteq> []) \<and>
     mf_FileCount m = int (length (mf_files m)) \<and> 0 \<le> mf_PayloadSize m \<and> mf_validate_files 0 (mf_files m) = None"
  by (auto simp: mf_Validate_def)

text \<open>The state of the environment in which nothing but the store stands in the way.\<close>

definition create_ready :: "prims \<Rightarrow> draws \<Rightarrow> time \<Rightarrow> string \<Rightarrow> create_opts \<Rightarrow> bool" where
  "create_ready P rnd now src opts \<longleftrightarrow>
     co_ID opts = [] \<and> rn_id rnd \<noteq> None \<and> rn_key rnd \<noteq> None \<and> rn_header rnd \<noteq> None \<and> (\<forall>i. rn_name rnd i \<noteq> None) \<and>
     (co_Password opts \<noteq> [] \<longrightarrow> rn_salt rnd \<noteq> None \<and> rn_seal rnd \<noteq> None) \<and>
     (\<forall>rpub. co_RecipientPub opts = Some rpub \<longrightarrow> rn_wrap rnd \<noteq> None \<and>
        (\<exists>ep. rn_ephem rnd = Some ep \<and> p_x25519 P ep basepoint \<noteq> None \<and> p_x25519 P ep rpub \<noteq> None)) \<and>
     (co_SignPriv opts = [] \<or> length (co_SignPriv opts) = 64) \<and>
     (co_Mode opts = [] \<or> co_Mode opts \<in> set knownModes) \<and> 0 < now \<and> now < drop_expiry now opts \<and>
     length (filepath_Base src) \<le> aead_max"

lemma validate_files_info:
  "mf_validate_files i [e] = None \<Longrightarrow> 0 \<le> sz \<Longrightarrow> mf_validate_files i [e\<lparr>fe_Size := sz, fe_Hash := ph\<rparr>] = None"
  by (simp split: if_splits)

lemma lock_recipient_ready:
  assumes "\<And>rpub. rp = Some rpub \<Longrightarrow> rn_wrap rnd \<noteq> None \<and>
      (\<exists>ep. rn_ephem rnd = Some ep \<and> p_x25519 P ep basepoint \<noteq> None \<and> p_x25519 P ep rpub \<noteq> None)"
  shows "\<exists>acc. drops_lock_recipient P rnd key rp man = Inr (man\<lparr>mf_Access := acc\<rparr>)"
proof (cases rp)
  case None
  then show ?thesis by (intro exI [of _ "mf_Access man"]) (simp add: drops_lock_recipient_def)
next
  case (Some rpub)
  from assms [OF Some] obtain nonce ep pub shared where
    "rn_wrap rnd = Some nonce" "rn_ephem rnd = Some ep" "p_x25519 P ep basepoint = Some pub"
    "p_x25519 P ep rpub = Some shared" by blast
  then show ?thesis
    by (simp add: Some drops_lock_recipient_def crypto_GenerateRecipientKeypair_def crypto_WrapFileKey_def Let_def)
       blast
qed

lemma lock_password_ready:
  assumes "pw \<noteq> [] \<Longrightarrow> rn_salt rnd \<noteq> None \<and> rn_seal rnd \<noteq> None"
  shows "\<exists>acc. drops_lock_password P rnd key pw man = Inr (man\<lparr>mf_Access := acc\<rparr>)"
proof (cases "pw = []")
  case True
  then show ?thesis by (intro exI [of _ "mf_Access man"]) (simp add: drops_lock_password_def)
next
  case False
  from assms [OF this] obtain salt nonce where "rn_salt rnd = Some salt" "rn_seal rnd = Some nonce" by blast
  moreover have "length (crypto_DeriveKeyFromPassphrase P pw salt) = KeySize"
    by (simp add: crypto_DeriveKeyFromPassphrase_def KeySize_def)
  ultimately show ?thesis
    using False by (simp add: drops_lock_password_def crypto_NewSalt_def crypto_SealBytes_def Let_def) blast
qed

lemma sign_ready:
  assumes "priv = [] \<or> length priv = 64"
  shows "\<exists>sg. (if priv \<noteq> [] then mf_Sign P priv who man else (None, man)) = (None, man\<lparr>mf_Signature := sg\<rparr>)"
proof (cases "priv = []")
  case True
  then show ?thesis by (intro exI [of _ "mf_Signature man"]) simp
next
  case False
  then have "length priv = 64" using assms by simp
  then show ?thesis using False by (simp add: mf_Sign_def crypto_Sign_def mf_pubFromPriv_def) blast
qed

lemma drops_build_ready:
  assumes P: "aead_ok P" and rnd: "draws_ok rnd" "length key = KeySize" and ready: "create_ready P rnd now src opts"
    and man0: "mf_Validate (Some man0) = None" and sz: "0 \<le> sz"
  shows "\<exists>man. drops_build P rnd key opts src sz ph man0 = Inr man"
proof -
  have names: "\<exists>es. mf_seal_names P (rn_name rnd) 0 key [filepath_Base src] = Inr es \<and> length es = 1 \<and>
      mf_open_names P 0 key es = Inr [filepath_Base src] \<and> mf_validate_files 0 es = None"
    using open_seal_names [OF P rnd(2), of "rn_name rnd" "[filepath_Base src]" 0 0] rnd(1) ready
    by (auto simp: draws_ok_def create_ready_def)
  then obtain e where e: "mf_seal_names P (rn_name rnd) 0 key [filepath_Base src] = Inr [e]"
    "mf_validate_files 0 [e] = None" by (auto simp: length_Suc_conv)
  define man1 where "man1 = man0\<lparr>mf_Files := Some [e\<lparr>fe_Size := sz, fe_Hash := ph\<rparr>], mf_FileCount := 1\<rparr>"
  have m1: "mf_EncryptFilenames P (rn_name rnd) [filepath_Base src] key man0 =
      (None, man0\<lparr>mf_Files := Some [e], mf_FileCount := 1\<rparr>)"
    "mf_SetFileInfo 0 sz ph (man0\<lparr>mf_Files := Some [e], mf_FileCount := 1\<rparr>) = man1"
    using e by (simp_all add: mf_EncryptFilenames_def mf_SetFileInfo_def man1_def)
  have v: "mf_Validate (Some man1) = None"
    using man0 validate_files_info [OF e(2) sz]
    unfolding mf_Validate_ok_iff by (simp add: man1_def del: mf_validate_files.simps)
  obtain acc where l1: "drops_lock_recipient P rnd key (co_RecipientPub opts) man1 = Inr (man1\<lparr>mf_Access := acc\<rparr>)"
    using lock_recipient_ready [of "co_RecipientPub opts" rnd P key man1] ready unfolding create_ready_def by blast
  obtain acc' where l2: "drops_lock_password P rnd key (co_Password opts) (man1\<lparr>mf_Access := acc\<rparr>) =
      Inr (man1\<lparr>mf_Access := acc'\<rparr>)"
    using lock_password_ready [of "co_Password opts" rnd P key "man1\<lparr>mf_Access := acc\<rparr>"] ready
    unfolding create_ready_def by auto
  obtain sg where l3: "(if co_SignPriv opts \<noteq> [] then mf_Sign P (co_SignPriv opts) (co_SignBy opts) (man1\<lparr>mf_Access := acc'\<rparr>)
      else (None, man1\<lparr>mf_Access := acc'\<rparr>)) = (None, man1\<lparr>mf_Access := acc', mf_Signature := sg\<rparr>)"
    using sign_ready [of "co_SignPriv opts" P "co_SignBy opts" "man1\<lparr>mf_Access := acc'\<rparr>"] ready
    unfolding create_ready_def by blast
  have "mf_Validate (Some (man1\<lparr>mf_Access := acc', mf_Signature := sg\<rparr>)) = None"
    using v unfolding mf_Validate_ok_iff by simp
  then show ?thesis by (simp add: drops_build_def m1 l1 l2 l3)
qed

section \<open>Drops over any store\<close>

context plain_store begin

lemma retrieve_ok:
  assumes P: "aead_ok P" and s: "inv (mg_store m)" "ok_id did"
    and live: "live (mg_store m) now did = Some (gd01_file P h key plain)" "length h = NonceSize"
    and man: "mg_manifests m did = Some man" "now \<le> mf_ExpiresAt man"
      "mf_PlaintextHash man = hex_encode (p_sha256 P plain)"
    and key: "drops_resolveKey P man ro = Inr key"
    and tmp: "tmp \<noteq> dst" "fs tmp = None"
  shows "\<exists>m'. drops_Retrieve P pv now live_ctx tmp did dst ro m fs = (None, m', fs(dst \<mapsto> plain)) \<and>
    mg_statuses m' did = Some StatusVerified \<and> inv (mg_store m') \<and>
    (\<forall>t. now \<le> t \<longrightarrow> live (mg_store m') t did = (if mf_OneTime man then None else live (mg_store m) t did))"
proof -
  obtain res st where get: "pv_get pv live_ctx now did 0 (mg_store m) = (res, st)" by fastforce
  from plain_get [OF s get] live(1) have g: "inv st" "res = Inr (gd01_file P h key plain)"
    "\<And>t. now \<le> t \<Longrightarrow> live st t did = live (mg_store m) t did"
    using s(2) by auto
  have o: "crypto_OpenFile P (fs(tmp \<mapsto> gd01_file P h key plain)) tmp dst key =
      (None, fs(tmp \<mapsto> gd01_file P h key plain, dst \<mapsto> plain))"
    by (rule OpenFile_gd01 [OF P _ live(2)]) simp
  have f: "fs(tmp \<mapsto> x, dst \<mapsto> plain, tmp := None) = fs(dst \<mapsto> plain)" for x
    using tmp by (auto simp: fun_eq_iff)
  obtain dr st2 where del: "pv_delete pv live_ctx now did st = (dr, st2)" by fastforce
  have d: "inv st2" "live st2 t did = None" for t using plain_delete [OF g(1) s(2) del] s(2) by auto
  define m1 where "m1 = mg_setStatus did StatusRetrieved ((mg_setStatus did StatusDelivered m)\<lparr>mg_store := st\<rparr>)"
  define m3 where "m3 = mg_write (\<lambda>d. db_AddEvent now did ''retrieved'' ''hash=ok''
      (snd (db_UpdateStatus did StatusVerified (snd (db_SetVerified did True d)))))
    (mg_setStatus did StatusVerified m1)"
  have m3: "mg_store m3 = st" "mg_statuses m3 did = Some StatusVerified" by (simp_all add: m3_def m1_def)
  have "drops_retrieve_body P pv now live_ctx tmp did dst man key m fs =
      (None, if mf_OneTime man then m3\<lparr>mg_store := st2\<rparr> else m3, fs(dst \<mapsto> plain))"
    using get del g(2) o f man(3) m3(1) tmp(1)
    by (simp add: drops_retrieve_body_def crypto_Sha256HexFile_def Let_def m1_def [symmetric] m3_def [symmetric])
  then have "drops_Retrieve P pv now live_ctx tmp did dst ro m fs =
      (None, if mf_OneTime man then m3\<lparr>mg_store := st2\<rparr> else m3, fs(dst \<mapsto> plain))"
    using man key by (simp add: drops_Retrieve_def drops_GetManifest_def)
  then show ?thesis using m3 g d by auto
qed

lemma create_then_retrieve:
  assumes P: "aead_ok P" and rnd: "draws_ok rnd" and s: "inv (mg_store m)"
    and create: "drops_Create P pv now live_ctx rnd tmp src opts m fs = (Inr (man, key), m1, fs1)"
    and did: "drop_id rnd opts = Some did" "ok_id did" "ok_exp (drop_expiry now opts)"
    and later: "t \<le> drop_expiry now opts" "keeps (drop_expiry now opts) t"
    and route: "drops_resolveKey P man ro = Inr key"
    and tmp: "tmp \<noteq> src" "tmp \<noteq> dst" "fs tmp = None"
  shows "\<exists>plain m'. fs src = Some plain \<and> fs1 = fs \<and>
    drops_Retrieve P pv t live_ctx tmp did dst ro m1 fs1 = (None, m', fs(dst \<mapsto> plain)) \<and>
    mg_statuses m1 did = Some StatusReady \<and> mg_statuses m' did = Some StatusVerified \<and>
    (live (mg_store m') t did = None \<longleftrightarrow> co_OneTime opts)"
  using create tmp(1,3)
proof (cases rule: drops_Create_success)
  case (1 did' mode plain h ch)
  have [simp]: "did' = did" using 1(1) did(1) by simp
  have h: "length h = NonceSize" using rnd 1(5) by (simp add: draws_ok_def)
  note keeps_fields = drops_build_keeps [OF 1(6)]
  have put: "pv_put pv live_ctx now did (reader_of (gd01_file P h key plain)) (int (length (gd01_file P h key plain)))
      (drop_expiry now opts) (mg_store m) = (None, mg_store m1)" using 1(7) by simp
  from plain_put [OF s did(2,3) put] have inv1: "inv (mg_store m1)"
    and l: "live (mg_store m1) t did = Some (gd01_file P h key plain)"
    using later(2) did(2) by auto
  have "t \<le> mf_ExpiresAt man" "mf_OneTime man = co_OneTime opts"
    "mf_PlaintextHash man = hex_encode (p_sha256 P plain)" "mg_manifests m1 did = Some man"
    using keeps_fields later(1) 1(8) by (simp_all add: drops_manifest_def mf_New_def)
  with retrieve_ok [where fs = fs, OF P inv1 did(2) l h _ _ _ route tmp(2,3)]
  show ?thesis using 1(3,9,10) l by fastforce
qed

lemma create_progress:
  assumes P: "aead_ok P" and rnd: "draws_ok rnd" and s: "inv (mg_store m)"
    and ready: "create_ready P rnd now src opts" "fs src = Some plain"
    and did: "drop_id rnd opts = Some did" "valid_id did" "ok_id did" "ok_exp (drop_expiry now opts)"
    and tmp: "tmp \<noteq> src" "fs tmp = None"
  shows "case drops_Create P pv now live_ctx rnd tmp src opts m fs of
    (Inl e, m1, fs1) \<Rightarrow> (\<exists>x k h. e = DrStorage x \<and> rn_key rnd = Some k \<and> rn_header rnd = Some h \<and>
        fst (pv_put pv live_ctx now did (reader_of (gd01_file P h k plain)) (int (length (gd01_file P h k plain)))
          (drop_expiry now opts) (mg_store m)) = Some x) \<and>
      fs1 = fs \<and> mg_statuses m1 did = Some StatusFailed \<and>
      mg_manifests m1 = mg_manifests m \<and> (\<forall>t k. ok_id k \<longrightarrow> live (mg_store m1) t k = live (mg_store m) t k)
  | (Inr (man, key), m1, fs1) \<Rightarrow> fs1 = fs \<and> mg_statuses m1 did = Some StatusReady \<and> mg_manifests m1 did = Some man"
proof -
  obtain b k h where dr: "rn_id rnd = Some b" "rn_key rnd = Some k" "rn_header rnd = Some h"
    using ready(1) unfolding create_ready_def by blast
  then have len: "length b = 6" "length k = KeySize" using rnd by (simp_all add: draws_ok_def)
  have gen: "co_ID opts = []" "crypto_GenerateDropID (Some b) = Some did"
    using did(1) dr(1) ready(1) by (auto simp: drop_id_def create_ready_def split: if_splits)
  define mode where "mode = (if co_Mode opts = '''' then ''anonymous'' else co_Mode opts)"
  have mode: "mode \<in> set knownModes" using ready(1) by (auto simp: mode_def create_ready_def knownModes_def)
  define enc where "enc = gd01_file P h k plain"
  define man0 where "man0 = drops_manifest now did mode (drop_expiry now opts) opts (hex_encode (p_sha256 P enc))
    (hex_encode (p_sha256 P plain)) (int (length enc)) (pv_backend pv)"
  have "mf_Validate (Some (mf_New now did mode (drop_expiry now opts))) = None"
    using mf_New_valid [OF gen(2) len(1) mode] ready(1) by (simp add: create_ready_def)
  then have v: "mf_Validate (Some man0) = None"
    unfolding mf_Validate_ok_iff man0_def drops_manifest_def by simp
  obtain man where man: "drops_build P rnd k opts src (int (length plain)) (hex_encode (p_sha256 P plain)) man0 = Inr man"
    using drops_build_ready [OF P rnd len(2) ready(1) v, of "int (length plain)"] by auto
  obtain x st where put: "pv_put pv live_ctx now did (reader_of enc) (int (length enc)) (drop_expiry now opts) (mg_store m) = (x, st)"
    by fastforce
  have l: "\<forall>t k. ok_id k \<longrightarrow> live st t k = live (mg_store m) t k" if "x \<noteq> None"
    using plain_put [OF s did(3,4) put] that by simp
  have src: "(fs(tmp \<mapsto> [])) src = Some plain" using ready(2) tmp by simp
  have fs: "fs(tmp := None) = fs" using tmp by auto
  have create: "drops_Create P pv now live_ctx rnd tmp src opts m fs =
      drops_create_body P pv now live_ctx rnd tmp did mode src (drop_expiry now opts) opts m fs"
    using gen did(2) dr(1) by (simp add: drops_Create_def drop_expiry_def mode_def Let_def)
  show ?thesis
    unfolding create drops_create_body_def
    using ready(2) put man l
    by (auto simp: crypto_GenerateFileKey_def dr SealFile_gd01 [where fs = "fs(tmp \<mapsto> [])", OF src tmp(1) [symmetric]]
        enc_def [symmetric] man0_def [symmetric] Let_def fs split: option.splits)
qed

end

section \<open>Properties\<close>

text \<open>
  C6 A drop is retrieved with the content it was created from. Over any store that meets the
  contract, once \<^verbatim>\<open>Create\<close> has returned, a \<^verbatim>\<open>Retrieve\<close> up to the expiry succeeds and writes exactly
  the source file, whether it is given the file key, the private key of the recipient the drop is
  locked for (when no password was set as well), or the password. The status goes from \<^verbatim>\<open>READY\<close> to
  \<^verbatim>\<open>VERIFIED\<close>; the payload of a one-time drop is gone from the store afterwards, any other payload is
  still there; and \<^verbatim>\<open>Create\<close> leaves the file system as it was.
\<close>

theorem drops_create_retrieve:
  assumes "plain_store pv ok_store live keeps ok_id ok_exp" "ok_store (mg_store m)"
    and "aead_ok P" "dh_ok P" "draws_ok rnd"
    and create: "drops_Create P pv now live_ctx rnd tmp src opts m fs = (Inr (man, key), m1, fs1)"
    and "drop_id rnd opts = Some did" "ok_id did" "ok_exp (drop_expiry now opts)"
    and "t \<le> drop_expiry now opts" "keeps (drop_expiry now opts) t"
    and who: "ro_Key ro = Some key \<or>
      ro = \<lparr>ro_Key = None, ro_RecipientPriv = None, ro_Password = co_Password opts\<rparr> \<and> co_Password opts \<noteq> [] \<or>
      ro = \<lparr>ro_Key = None, ro_RecipientPriv = Some priv, ro_Password = pw\<rparr> \<and> co_Password opts = [] \<and>
        crypto_GenerateRecipientKeypair P (Some seed) = Inr (pub, priv) \<and> co_RecipientPub opts = Some pub"
    and tmp: "tmp \<noteq> src" "tmp \<noteq> dst" "fs tmp = None"
  shows "\<exists>plain m'. fs src = Some plain \<and> fs1 = fs \<and>
    drops_Retrieve P pv t live_ctx tmp did dst ro m1 fs1 = (None, m', fs(dst \<mapsto> plain)) \<and>
    mg_statuses m1 did = Some StatusReady \<and> mg_statuses m' did = Some StatusVerified \<and>
    (live (mg_store m') t did = None \<longleftrightarrow> co_OneTime opts)"
proof (rule plain_store.create_then_retrieve [OF assms(1,3,5,2) create assms(7-11) _ tmp])
  from create tmp(1,3) show "drops_resolveKey P man ro = Inr key"
  proof (cases rule: drops_Create_success)
    case (1 did' mode plain h ch)
    have k: "length key = KeySize" using assms(5) 1(4) by (simp add: draws_ok_def)
    from who show ?thesis
    proof (elim disjE conjE)
      assume "ro_Key ro = Some key"
      then show ?thesis by (simp add: drops_resolveKey_def)
    next
      assume "ro = \<lparr>ro_Key = None, ro_RecipientPriv = None, ro_Password = co_Password opts\<rparr>" "co_Password opts \<noteq> []"
      then show ?thesis using resolve_password [OF assms(3,5) k 1(6)] by simp
    next
      assume "ro = \<lparr>ro_Key = None, ro_RecipientPriv = Some priv, ro_Password = pw\<rparr>" "co_Password opts = []"
        "crypto_GenerateRecipientKeypair P (Some seed) = Inr (pub, priv)" "co_RecipientPub opts = Some pub"
      then show ?thesis using resolve_recipient [OF assms(3-5) k 1(6)] by simp
    qed
  qed
qed

definition drop_demo_draws :: draws where
  "drop_demo_draws = \<lparr>rn_id = Some (replicate 6 0), rn_key = Some (replicate 32 1), rn_header = Some (replicate 24 2),
     rn_name = (\<lambda>i. Some (replicate 24 3)), rn_ephem = None, rn_wrap = None, rn_salt = Some (replicate 16 4),
     rn_seal = Some (replicate 24 5)\<rparr>"

definition drop_demo_opts :: create_opts where
  "drop_demo_opts = \<lparr>co_ID = [], co_Mode = ''password'', co_SenderIdentity = [], co_RecipientCommitment = [],
     co_Expiry = 9, co_OneTime = True, co_SignPriv = [], co_SignBy = [], co_RecipientPub = None, co_Password = ''pw'',
     co_Amount = 0, co_PaidTo = [], co_TxidRequired = False\<rparr>"

definition drop_demo_fs :: fs where
  "drop_demo_fs = [''in'' \<mapsto> [1, 2, 3]]"

definition drop_demo_manager :: "mem manager" where
  "drop_demo_manager = drops_NewManager (storage_NewMemoryProvider 0) None False None"

definition drop_demo :: "(drop_err + manifest \<times> bytes) \<times> mem manager \<times> fs" where
  "drop_demo = drops_Create sample_prims memory_provider 1 live_ctx drop_demo_draws ''tmp'' ''in'' drop_demo_opts
     drop_demo_manager drop_demo_fs"

lemma drop_demo_id: "drop_id drop_demo_draws drop_demo_opts = Some ''GD-000000000000''"
  by code_simp

lemma drop_demo_draws_ok: "draws_ok drop_demo_draws"
  by (simp add: draws_ok_def drop_demo_draws_def KeySize_def NonceSize_def SaltSize_def)

lemma drop_demo_ready: "create_ready sample_prims drop_demo_draws 1 ''in'' drop_demo_opts"
  by (simp add: create_ready_def drop_demo_draws_def drop_demo_opts_def drop_expiry_def knownModes_def filepath_Base_def
      aead_max_def; code_simp)

lemma drop_demo_valid: "valid_id ''GD-000000000000''"
  by code_simp

text \<open>
  C31 Creating makes progress: with the random values there, a readable source, a known mode, a
  future expiry, a signing key of 64 bytes (if any) and a recipient key that X25519 accepts (if
  any), \<^verbatim>\<open>Create\<close> returns, and it fails only where the store refuses the payload. Then the status is
  \<^verbatim>\<open>FAILED\<close>, no manifest is remembered and everything the store held it still holds; otherwise the
  status is \<^verbatim>\<open>READY\<close> and the manifest is there. In both cases the temporary file is gone.
\<close>

theorem drops_create_progress:
  assumes "plain_store pv ok_store live keeps ok_id ok_exp" "ok_store (mg_store m)"
    and "aead_ok P" "draws_ok rnd" "create_ready P rnd now src opts" "fs src = Some plain"
    and "drop_id rnd opts = Some did" "valid_id did" "ok_id did" "ok_exp (drop_expiry now opts)"
    and "tmp \<noteq> src" "fs tmp = None"
  shows "case drops_Create P pv now live_ctx rnd tmp src opts m fs of
    (Inl e, m1, fs1) \<Rightarrow> (\<exists>x k h. e = DrStorage x \<and> rn_key rnd = Some k \<and> rn_header rnd = Some h \<and>
        fst (pv_put pv live_ctx now did (reader_of (gd01_file P h k plain)) (int (length (gd01_file P h k plain)))
          (drop_expiry now opts) (mg_store m)) = Some x) \<and>
      fs1 = fs \<and> mg_statuses m1 did = Some StatusFailed \<and>
      mg_manifests m1 = mg_manifests m \<and> (\<forall>t k. ok_id k \<longrightarrow> live (mg_store m1) t k = live (mg_store m) t k)
  | (Inr (man, key), m1, fs1) \<Rightarrow> fs1 = fs \<and> mg_statuses m1 did = Some StatusReady \<and> mg_manifests m1 did = Some man"
  by (rule plain_store.create_progress [OF assms(1,3,4,2,5-12)])

lemma drop_demo_put:
  "fst (pv_put memory_provider live_ctx 1 ''GD-000000000000'' (reader_of (gd01_file sample_prims (replicate 24 2) (replicate 32 1) [1, 2, 3]))
     (int (length (gd01_file sample_prims (replicate 24 2) (replicate 32 1) [1, 2, 3]))) 9 (mg_store drop_demo_manager)) = None"
proof -
  define enc where "enc = gd01_file sample_prims (replicate 24 2) (replicate 32 1) [1, 2, 3]"
  have "take ChunkSize [1, 2, 3] = [1, 2, 3 :: byte]" "drop ChunkSize [1, 2, 3] = ([] :: bytes)"
    by (simp_all add: ChunkSize_def)
  then have "chunks ChunkSize [1, 2, 3 :: byte] = [[1, 2, 3]]" by (simp add: chunks.simps [of _ "[1, 2, 3]"])
  then have "length enc = 51"
    using aead_seal_length [OF sample_aead_ok, of "[1, 2, 3]"]
    by (simp add: enc_def gd01_file_def frame_def aead_max_def)
  then show ?thesis
    unfolding enc_def [symmetric]
    using drop_demo_valid
    by (simp add: memory_provider_def mem_Put_def drop_demo_manager_def drops_NewManager_def storage_NewMemoryProvider_def
        DefaultQuotaBytes_def limit_read_all_def reader_of_def wrap64_def Let_def)
qed

lemma drop_demo_manager_ok: "mem_inv (mg_store drop_demo_manager)"
  by (simp add: drop_demo_manager_def drops_NewManager_def mem_inv_new)

lemma drop_demo_created:
  "\<not> isl (fst drop_demo) \<and> mg_statuses (fst (snd drop_demo)) ''GD-000000000000'' = Some StatusReady"
proof -
  have plain: "drop_demo_fs ''in'' = Some [1, 2, 3]" and tmp: "''tmp'' \<noteq> ''in''" "drop_demo_fs ''tmp'' = None"
    by (simp_all add: drop_demo_fs_def)
  have e: "drop_expiry 1 drop_demo_opts = 9" by (simp add: drop_expiry_def drop_demo_opts_def)
  have k: "rn_key drop_demo_draws = Some (replicate 32 1)" "rn_header drop_demo_draws = Some (replicate 24 2)"
    by (simp_all add: drop_demo_draws_def)
  note DEMO = plain_store.create_progress [where fs = drop_demo_fs, OF mem_store.is_plain_store sample_aead_ok drop_demo_draws_ok
          drop_demo_manager_ok drop_demo_ready plain drop_demo_id drop_demo_valid drop_demo_valid _ tmp]
  show ?thesis
  proof (cases drop_demo)
    case (fields x m1 fs1)
    from DEMO [OF _] have "case x of Inl er \<Rightarrow> False | Inr mk \<Rightarrow> mg_statuses m1 ''GD-000000000000'' = Some StatusReady"
      unfolding drop_demo_def [symmetric] fields using drop_demo_put by (auto simp: k e split: sum.splits prod.splits)
    then show ?thesis by (cases x) (simp_all add: fields)
  qed
qed

theorem drops_create_progress_witness:
  "\<not> isl (fst drop_demo) \<and> mg_statuses (fst (snd drop_demo)) ''GD-000000000000'' = Some StatusReady"
proof -
  have plain: "drop_demo_fs ''in'' = Some [1, 2, 3]" and tmp: "''tmp'' \<noteq> ''in''" "drop_demo_fs ''tmp'' = None"
    by (simp_all add: drop_demo_fs_def)
  have e: "drop_expiry 1 drop_demo_opts = 9" by (simp add: drop_expiry_def drop_demo_opts_def)
  have k: "rn_key drop_demo_draws = Some (replicate 32 1)" "rn_header drop_demo_draws = Some (replicate 24 2)"
    by (simp_all add: drop_demo_draws_def)
  note DEMO = drops_create_progress [where fs = drop_demo_fs, OF mem_store.is_plain_store drop_demo_manager_ok
          sample_aead_ok drop_demo_draws_ok drop_demo_ready plain drop_demo_id drop_demo_valid drop_demo_valid _ tmp]
  show ?thesis
  proof (cases drop_demo)
    case (fields x m1 fs1)
    from DEMO [OF _] have "case x of Inl er \<Rightarrow> False | Inr mk \<Rightarrow> mg_statuses m1 ''GD-000000000000'' = Some StatusReady"
      unfolding drop_demo_def [symmetric] fields using drop_demo_put by (auto simp: k e split: sum.splits prod.splits)
    then show ?thesis by (cases x) (simp_all add: fields)
  qed
qed

theorem drops_create_retrieve_witness:
  "\<exists>man key m1 m'. drop_demo = (Inr (man, key), m1, drop_demo_fs) \<and>
     drops_Retrieve sample_prims memory_provider 5 live_ctx ''tmp'' ''GD-000000000000'' ''out''
       \<lparr>ro_Key = None, ro_RecipientPriv = None, ro_Password = ''pw''\<rparr> m1 drop_demo_fs =
       (None, m', drop_demo_fs(''out'' \<mapsto> [1, 2, 3])) \<and>
     mem_live (mg_store m') 5 ''GD-000000000000'' = None"
proof -
  obtain man key m1 fs1 where d: "drop_demo = (Inr (man, key), m1, fs1)"
    using drop_demo_created by (metis isl_def prod.collapse sum.exhaust_sel)
  have o: "drop_expiry 1 drop_demo_opts = 9" "co_Password drop_demo_opts = ''pw''" "co_OneTime drop_demo_opts"
    by (simp_all add: drop_expiry_def drop_demo_opts_def)
  show ?thesis
    using drops_create_retrieve [where fs = drop_demo_fs and t = 5 and dst = "''out''"
        and ro = "\<lparr>ro_Key = None, ro_RecipientPriv = None, ro_Password = ''pw''\<rparr>",
        OF mem_store.is_plain_store drop_demo_manager_ok sample_aead_ok sample_dh_ok drop_demo_draws_ok
          d [unfolded drop_demo_def] drop_demo_id drop_demo_valid]
    by (auto simp: o d drop_demo_fs_def keeps_until_def)
qed

lemma OpenFile_shape:
  assumes "crypto_OpenFile P fs src dst key = (e, fs')"
  shows "case e of None \<Rightarrow> \<exists>w. fs' = fs(dst \<mapsto> w) | Some _ \<Rightarrow> fs' = fs \<or> fs' = fs(dst := None)"
  using assms by (cases rule: crypto_OpenFile_cases) (auto split: option.splits)

lemma retrieve_body_outcomes:
  assumes run: "drops_retrieve_body P pv now ctx tmp did dst man key m fs = (res, m', fs')" and tmp: "tmp \<noteq> dst" "fs tmp = None"
  shows "case res of
      None \<Rightarrow> \<exists>p. fs' = fs(dst \<mapsto> p) \<and>
        (mf_PlaintextHash man = [] \<or> hex_encode (p_sha256 P p) = mf_PlaintextHash man) \<and>
        mg_statuses m' did = Some StatusVerified
    | Some e \<Rightarrow> if e = DrHashMismatch
        then \<exists>p. fs' = fs(dst \<mapsto> p) \<and> hex_encode (p_sha256 P p) \<noteq> mf_PlaintextHash man \<and>
          mg_statuses m' did = Some StatusFailed
        else fs' = fs \<or> fs' = fs(dst := None)"
proof -
  have clean: "fs(tmp \<mapsto> x, dst := y, tmp := None) = fs(dst := y)" "fs(tmp \<mapsto> x, tmp := None) = fs" for x y
    using tmp by (auto simp: fun_eq_iff)
  obtain got st where get: "pv_get pv (\<lambda>n. ctx (n + 1)) now did 0 (mg_store m) = (got, st)" by fastforce
  show ?thesis
  proof (cases got)
    case (Inl e)
    then show ?thesis using run get by (auto simp: drops_retrieve_body_def Let_def)
  next
    case (Inr enc)
    obtain oe fs1 where o: "crypto_OpenFile P (fs(tmp \<mapsto> enc)) tmp dst key = (oe, fs1)" by fastforce
    show ?thesis
    proof (cases oe)
      case (Some e)
      then show ?thesis
        using run get Inr o OpenFile_shape [OF o] clean by (auto simp: drops_retrieve_body_def Let_def)
    next
      case None
      then obtain w where w: "fs1 = fs(tmp \<mapsto> enc, dst \<mapsto> w)" using OpenFile_shape [OF o] by auto
      show ?thesis
        using run get Inr o None w clean
        by (auto simp: drops_retrieve_body_def crypto_Sha256HexFile_def Let_def split: if_splits)
    qed
  qed
qed

text \<open>
  What a \<^verbatim>\<open>Retrieve\<close> leaves behind, over any store. Success means that the drop had not expired,
  that the destination holds a content with the hash of the manifest and no other file has changed,
  and that the status is \<^verbatim>\<open>VERIFIED\<close>. After a hash mismatch the status is \<^verbatim>\<open>FAILED\<close>, but the content
  that failed the check stays at the destination. After any other failure the destination is
  as it was or absent.
\<close>

theorem drops_retrieve_outcomes:
  assumes "drops_Retrieve P pv now ctx tmp did dst ro m fs = (res, m', fs')" "tmp \<noteq> dst" "fs tmp = None"
  shows "case res of
      None \<Rightarrow> \<exists>man p. fst (drops_GetManifest did m) = Inr man \<and> now \<le> mf_ExpiresAt man \<and> fs' = fs(dst \<mapsto> p) \<and>
        (mf_PlaintextHash man = [] \<or> hex_encode (p_sha256 P p) = mf_PlaintextHash man) \<and>
        mg_statuses m' did = Some StatusVerified
    | Some e \<Rightarrow> if e = DrHashMismatch
        then \<exists>man p. fst (drops_GetManifest did m) = Inr man \<and> fs' = fs(dst \<mapsto> p) \<and>
          hex_encode (p_sha256 P p) \<noteq> mf_PlaintextHash man \<and> mg_statuses m' did = Some StatusFailed
        else fs' = fs \<or> fs' = fs(dst := None)"
proof -
  obtain g m1 where g: "drops_GetManifest did m = (g, m1)" by fastforce
  show ?thesis
  proof (cases "\<exists>man key. g = Inr man \<and> now \<le> mf_ExpiresAt man \<and> drops_resolveKey P man ro = Inr key \<and> \<not> ctx 0")
    case True
    then obtain man key where k: "g = Inr man" "now \<le> mf_ExpiresAt man" "drops_resolveKey P man ro = Inr key" "\<not> ctx 0"
      by blast
    then have "drops_retrieve_body P pv now ctx tmp did dst man key m1 fs = (res, m', fs')"
      using assms(1) g by (simp add: drops_Retrieve_def)
    from retrieve_body_outcomes [OF this assms(2,3)] k g show ?thesis by (auto split: option.splits if_splits)
  next
    case False
    have "e \<noteq> DrHashMismatch" if "drops_resolveKey P man ro = Inl e" for man e
      using that by (auto simp: drops_resolveKey_def Let_def split: option.splits sum.splits if_splits)
    then show ?thesis
      using assms(1) g False
      by (auto simp: drops_Retrieve_def split: sum.splits if_splits)
  qed
qed

text \<open>
  Ghost mode writes no database: whatever operation is called and however it ends, the database
  of a manager in ghost mode is what it was, and the manager stays in ghost mode.
\<close>

theorem drops_ghost:
  assumes "mg_ghost m"
  shows "mg_db (fst (snd (drops_Create P pv now ctx rnd tmp src opts m fs))) = mg_db m \<and>
    mg_db (fst (snd (drops_Retrieve P pv now ctx tmp did dst ro m fs))) = mg_db m \<and>
    mg_db (snd (drops_Revoke pv now ctx did m)) = mg_db m \<and>
    mg_db (snd (drops_Status pv now ctx did m)) = mg_db m \<and>
    mg_db (snd (drops_ResumeOffset pv now ctx did m)) = mg_db m \<and>
    mg_ghost (fst (snd (drops_Create P pv now ctx rnd tmp src opts m fs))) \<and>
    mg_ghost (fst (snd (drops_Retrieve P pv now ctx tmp did dst ro m fs)))"
proof -
  have body: "mg_db (fst (snd (drops_create_body P pv now ctx rnd tmp d mode src expiry opts m fs))) = mg_db m \<and>
      mg_ghost (fst (snd (drops_create_body P pv now ctx rnd tmp d mode src expiry opts m fs)))" for d mode expiry
    using assms by (simp add: drops_create_body_def Let_def split: option.split sum.split prod.split)
  have rbody: "mg_db (fst (snd (drops_retrieve_body P pv now ctx tmp did dst man key m1 fs))) = mg_db m1 \<and>
      mg_ghost (fst (snd (drops_retrieve_body P pv now ctx tmp did dst man key m1 fs)))" if "mg_ghost m1" for man key m1
    using that by (simp add: drops_retrieve_body_def Let_def split: option.split sum.split prod.split)
  obtain g m1 where g: "drops_GetManifest did m = (g, m1)" by fastforce
  note sel = GetManifest_sel [OF g]
  have create: "mg_db (fst (snd (drops_Create P pv now ctx rnd tmp src opts m fs))) = mg_db m \<and>
      mg_ghost (fst (snd (drops_Create P pv now ctx rnd tmp src opts m fs)))"
    using assms body by (simp add: drops_Create_def Let_def split: option.split)
  have retrieve: "mg_db (fst (snd (drops_Retrieve P pv now ctx tmp did dst ro m fs))) = mg_db m \<and>
      mg_ghost (fst (snd (drops_Retrieve P pv now ctx tmp did dst ro m fs)))"
    using assms rbody [of m1] sel by (simp add: drops_Retrieve_def g split: sum.split)
  have status: "mg_db (snd (drops_Status pv now ctx did m)) = mg_db m"
    using assms sel by (simp add: drops_Status_def g Let_def split: sum.split option.split prod.split)
  have rest: "mg_db (snd (drops_Revoke pv now ctx did m)) = mg_db m"
      "mg_db (snd (drops_ResumeOffset pv now ctx did m)) = mg_db m"
    using assms by (simp_all add: drops_Revoke_def drops_ResumeOffset_def split: sum.split option.split prod.split)
  show ?thesis using create retrieve status rest by blast
qed

theorem drops_ghost_witness:
  "mg_db (fst (snd (drops_Create sample_prims memory_provider 1 live_ctx drop_demo_draws ''tmp'' ''in'' drop_demo_opts
     (drops_NewManager (storage_NewMemoryProvider 0) (Some db_empty) True None) drop_demo_fs))) = Some db_empty"
proof -
  have "mg_ghost (drops_NewManager (storage_NewMemoryProvider 0) (Some db_empty) True None)"
    "mg_db (drops_NewManager (storage_NewMemoryProvider 0) (Some db_empty) True None) = Some db_empty"
    by (simp_all add: drops_NewManager_def)
  then show ?thesis
    using drops_ghost [of "drops_NewManager (storage_NewMemoryProvider 0) (Some db_empty) True None" sample_prims
        memory_provider 1 live_ctx drop_demo_draws "''tmp''" "''in''" drop_demo_opts drop_demo_fs] by simp
qed

theorem drops_retrieve_outcomes_witness:
  "drops_Retrieve sample_prims memory_provider 1 live_ctx ''tmp'' ''x'' ''out'' \<lparr>ro_Key = None, ro_RecipientPriv = None, ro_Password = []\<rparr>
     (drops_NewManager (storage_NewMemoryProvider 0) None False None) drop_demo_fs =
   (Some (DrStorage NotFound), drops_NewManager (storage_NewMemoryProvider 0) None False None, drop_demo_fs) \<and>
   (drop_demo_fs = drop_demo_fs \<or> drop_demo_fs = drop_demo_fs(''out'' := None))"
proof -
  have r: "drops_Retrieve sample_prims memory_provider 1 live_ctx ''tmp'' ''x'' ''out'' \<lparr>ro_Key = None, ro_RecipientPriv = None, ro_Password = []\<rparr>
     (drops_NewManager (storage_NewMemoryProvider 0) None False None) drop_demo_fs =
   (Some (DrStorage NotFound), drops_NewManager (storage_NewMemoryProvider 0) None False None, drop_demo_fs)"
    by (simp add: drops_Retrieve_def drops_GetManifest_def drops_NewManager_def)
  from drops_retrieve_outcomes [OF r] show ?thesis using r by (simp add: drop_demo_fs_def)
qed

end
