(* ===== verification/P2p.thy ===== *)
theory P2p
  imports Crypto
begin

text \<open>
  \<^verbatim>\<open>internal/p2p/p2p.go\<close>: the direct transfer between two peers. Each side is a function of the
  bytes it receives: it returns its error, if any, and the bytes it has written to the connection.
  A side reads what the other has written; where it asks for more than there is, the read fails, as
  it does when the peer has gone. \<open>cap\<close> is the number of bytes the connection still takes (\<open>None\<close>:
  any number), \<open>ctx n\<close> whether the context is done when it is asked for the \<open>n\<close>-th time; a
  connection error is \<open>P2Conn\<close>, also where \<^verbatim>\<open>ctxOr\<close> reports the context's error for it. The
  progress callbacks have no effect on the transfer and are left out. The third implementation of
  the chunk nonce meets the contract of the other two.
\<close>

section \<open>Constants and keys\<close>

definition p2p_Magic :: bytes where
  "p2p_Magic = bytes_of ''GDP1''"

definition p2p_Version :: byte where
  "p2p_Version = 1"

definition p2p_ChunkSize :: int where
  "p2p_ChunkSize = 2 ^ 20"

definition p2p_MaxChunkSize :: int where
  "p2p_MaxChunkSize = 8 * 2 ^ 20"

definition p2p_MinChunkSize :: int where
  "p2p_MinChunkSize = 2 ^ 10"

definition p2p_chunkSizeOf :: "int \<Rightarrow> int" where
  "p2p_chunkSizeOf n =
     (if n \<le> 0 then p2p_ChunkSize
      else if n < p2p_MinChunkSize then p2p_MinChunkSize
      else if n > p2p_MaxChunkSize then p2p_MaxChunkSize
      else n)"

definition hsLen :: nat where
  "hsLen = 4 + 1 + 32 + 32 + 24 + 8 + 8 + 32 + 4 + 64"

definition rspLen :: nat where
  "rspLen = 4 + 1 + 32 + 32 + 8 + 64"

datatype p2p_err =
    P2BadIdentity nat | P2NoSource | P2Rand | P2Ecdh | P2Ctx | P2Conn | P2HashMismatch
  | P2BadMagic | P2BadSignature | P2BadOffset | P2UnalignedOffset | P2ChunkRejected
  | P2AckMismatch int int | P2BadChunkSize int | P2BadFileSize | P2Oversize u32
  | P2Undecryptable u64 | P2Overlong

definition p2p_generateEphemeral :: "prims \<Rightarrow> bytes option \<Rightarrow> p2p_err + bytes \<times> bytes" where
  "p2p_generateEphemeral P rnd =
     (case rnd of
        None \<Rightarrow> Inl P2Rand
      | Some priv \<Rightarrow> (case p_x25519 P priv basepoint of None \<Rightarrow> Inl P2Ecdh | Some pub \<Rightarrow> Inr (priv, pub)))"

definition p2p_ecdhShared :: "prims \<Rightarrow> bytes \<Rightarrow> bytes \<Rightarrow> p2p_err + bytes" where
  "p2p_ecdhShared P priv pub =
     (if length priv \<noteq> 32 \<or> length pub \<noteq> 32 then Inl P2Ecdh
      else case p_x25519 P priv pub of None \<Rightarrow> Inl P2Ecdh | Some s \<Rightarrow> Inr s)"

definition p2p_sessionKey :: "prims \<Rightarrow> bytes \<Rightarrow> bytes \<Rightarrow> bytes \<Rightarrow> bytes" where
  "p2p_sessionKey P shared senderEphem receiverEphem =
     copy32 (p_sha256 P (shared @ senderEphem @ receiverEphem))"

definition p2p_chunkNonce :: "bytes \<Rightarrow> u64 \<Rightarrow> bytes" where
  "p2p_chunkNonce base idx = (let b = be64 idx in take 16 base @ xor_bytes (drop 16 base) b)"

interpretation p2p_nonce: nonce_scheme p2p_chunkNonce
  by unfold_locales (simp add: p2p_chunkNonce_def Let_def)

section \<open>The connection\<close>

definition can_write :: "nat option \<Rightarrow> bytes \<Rightarrow> bool" where
  "can_write cap b = (case cap of None \<Rightarrow> True | Some n \<Rightarrow> length b \<le> n)"

definition after_write :: "nat option \<Rightarrow> bytes \<Rightarrow> nat option" where
  "after_write cap b = map_option (\<lambda>n. n - length b) cap"

text \<open>A write whose error is ignored.\<close>

definition try_write :: "nat option \<Rightarrow> bytes \<Rightarrow> bytes" where
  "try_write cap b = (if can_write cap b then b else [])"

lemma unlimited [simp]: "can_write None b" "after_write None b = None" "try_write None b = b"
  by (simp_all add: can_write_def after_write_def try_write_def)

section \<open>The handshakes\<close>

text \<open>Sender: magic, version, identity, ephemeral key, base nonce, offset hint, file size, file hash,
  chunk size, signature. Receiver: magic, version, identity, ephemeral key, accepted offset,
  signature. The public half of an Ed25519 private key is its last 32 bytes.\<close>

definition p2p_hello :: "prims \<Rightarrow> bytes \<Rightarrow> bytes \<Rightarrow> bytes \<Rightarrow> int \<Rightarrow> int \<Rightarrow> bytes \<Rightarrow> int \<Rightarrow> bytes" where
  "p2p_hello P priv ephPub base hint fileSize fileHash cs =
     (let idPub = drop 32 priv;
          off = (if hint < 0 then 0 else hint);
          unsigned = p2p_Magic @ [p2p_Version] @ idPub @ ephPub @ base @ be64 (of_int off) @ be64 (of_int fileSize)
            @ fileHash @ be32 (of_int cs)
      in unsigned @ p_sign P priv unsigned)"

record hello =
  hl_id :: bytes
  hl_ephem :: bytes
  hl_base :: bytes
  hl_size :: int
  hl_hash :: bytes
  hl_chunk :: int

definition p2p_check_hello :: "prims \<Rightarrow> bytes \<Rightarrow> p2p_err + hello" where
  "p2p_check_hello P hs =
     (if take 4 hs \<noteq> p2p_Magic \<or> hs ! 4 \<noteq> p2p_Version then Inl P2BadMagic
      else let p = drop 5 hs;
               peerID = take 32 p;
               peerEphem = take 32 (drop 32 p);
               base = take 24 (drop 64 p);
               fileSize = sint (rd64 (take 8 (drop 96 p)));
               fileHash = take 32 (drop 104 p);
               cs = uint (rd32 (take 4 (drop 136 p)));
               peerSig = take 64 (drop 140 p)
           in if cs < p2p_MinChunkSize \<or> cs > p2p_MaxChunkSize then Inl (P2BadChunkSize cs)
              else if fileSize < 0 then Inl P2BadFileSize
              else if \<not> p_verify P peerID (take (hsLen - 64) hs) peerSig then Inl P2BadSignature
              else Inr \<lparr>hl_id = peerID, hl_ephem = peerEphem, hl_base = base, hl_size = fileSize,
                hl_hash = fileHash, hl_chunk = cs\<rparr>)"

definition p2p_response :: "prims \<Rightarrow> bytes \<Rightarrow> bytes \<Rightarrow> int \<Rightarrow> bytes" where
  "p2p_response P priv ephPub accepted =
     (let unsigned = p2p_Magic @ [p2p_Version] @ drop 32 priv @ ephPub @ be64 (of_int accepted)
      in unsigned @ p_sign P priv unsigned)"

definition p2p_check_response :: "prims \<Rightarrow> int \<Rightarrow> int \<Rightarrow> bytes \<Rightarrow> p2p_err + bytes \<times> int" where
  "p2p_check_response P fileSize cs rsp =
     (if take 4 rsp \<noteq> p2p_Magic \<or> rsp ! 4 \<noteq> p2p_Version then Inl P2BadMagic
      else let peerID = take 32 (drop 5 rsp);
               peerEphem = take 32 (drop 37 rsp);
               accepted = sint (rd64 (take 8 (drop 69 rsp)));
               peerSig = take 64 (drop 77 rsp)
           in if \<not> p_verify P peerID (take 77 rsp) peerSig then Inl P2BadSignature
              else if accepted < 0 \<or> accepted > fileSize then Inl P2BadOffset
              else if accepted mod cs \<noteq> 0 then Inl P2UnalignedOffset
              else Inr (peerEphem, accepted))"

section \<open>Sending\<close>

text \<open>The loop over chunks, stop and wait: error, bytes written, what is left to read, what the
  connection still takes. \<open>src\<close> is the rest of the file.\<close>

function p2p_send_loop ::
  "prims \<Rightarrow> ctx \<Rightarrow> bytes \<Rightarrow> bytes \<Rightarrow> nat \<Rightarrow> u64 \<Rightarrow> int \<Rightarrow> bytes \<Rightarrow> bytes \<Rightarrow> nat option \<Rightarrow>
    p2p_err option \<times> bytes \<times> bytes \<times> nat option" where
  "p2p_send_loop P ctx key base cs idx sent src inp cap =
     (if ctx 0 then (Some P2Ctx, [], inp, cap)
      else let plain = take cs src; n = length plain in
        if n = 0 then (None, [], inp, cap)
        else let sealed = p_seal P key (p2p_chunkNonce base idx) plain;
                 hdr = be32 (of_nat (length sealed)) in
          if \<not> can_write cap hdr then (Some P2Conn, [], inp, cap)
          else let cap1 = after_write cap hdr in
            if \<not> can_write cap1 sealed then (Some P2Conn, hdr, inp, cap1)
            else let cap2 = after_write cap1 sealed; out = hdr @ sealed in
              if length inp < 8 then (Some P2Conn, out, [], cap2)
              else let want = sent + int n; got = sint (rd64 inp); inp1 = drop 8 inp in
                if got = - 1 then (Some P2ChunkRejected, out, inp1, cap2)
                else if got \<noteq> want then (Some (P2AckMismatch want got), out, inp1, cap2)
                else if n < cs then (None, out, inp1, cap2)
                else (case p2p_send_loop P (\<lambda>k. ctx (k + 1)) key base cs (idx + 1) want (drop cs src) inp1 cap2 of
                        (e, out', inp', cap') \<Rightarrow> (e, out @ out', inp', cap')))"
  by pat_completeness auto
termination
  by (relation "measure (\<lambda>(P, ctx, key, base, cs, idx, sent, src, inp, cap). length src)") auto

declare p2p_send_loop.simps [simp del]

text \<open>The closing exchange.\<close>

definition p2p_send_fin :: "bytes \<Rightarrow> nat option \<Rightarrow> p2p_err option \<times> bytes" where
  "p2p_send_fin inp cap =
     (if \<not> can_write cap (be32 0) then (Some P2Conn, [])
      else if length inp < 9 then (Some P2Conn, be32 0)
      else if inp ! 0 \<noteq> 0 then (Some P2HashMismatch, be32 0)
      else (None, be32 0))"

definition p2p_Send ::
  "prims \<Rightarrow> ctx \<Rightarrow> bytes option \<Rightarrow> bytes option \<Rightarrow> fs \<Rightarrow> string \<Rightarrow> bytes \<Rightarrow> int \<Rightarrow> int \<Rightarrow> nat option \<Rightarrow> bytes \<Rightarrow>
    p2p_err option \<times> bytes" where
  "p2p_Send P ctx rndEph rndBase fs srcPath priv hint chunk cap inp =
     (if length priv \<noteq> 64 then (Some (P2BadIdentity (length priv)), [])
      else let cs = p2p_chunkSizeOf chunk in
        case fs srcPath of
          None \<Rightarrow> (Some P2NoSource, [])
        | Some src \<Rightarrow>
            (let fileSize = int (length src); fileHash = copy32 (p_sha256 P src) in
             case p2p_generateEphemeral P rndEph of
               Inl e \<Rightarrow> (Some e, [])
             | Inr (ephPriv, ephPub) \<Rightarrow>
                 (case rndBase of
                    None \<Rightarrow> (Some P2Rand, [])
                  | Some base \<Rightarrow>
                      (let hs = p2p_hello P priv ephPub base hint fileSize fileHash cs in
                       if \<not> can_write cap hs then (Some P2Conn, [])
                       else if length inp < rspLen then (Some P2Conn, hs)
                       else case p2p_check_response P fileSize cs (take rspLen inp) of
                              Inl e \<Rightarrow> (Some e, hs)
                            | Inr (peerEphem, accepted) \<Rightarrow>
                                (case p2p_ecdhShared P ephPriv peerEphem of
                                   Inl e \<Rightarrow> (Some e, hs)
                                 | Inr shared \<Rightarrow>
                                     (case p2p_send_loop P ctx (p2p_sessionKey P shared ephPub peerEphem) base (nat cs)
                                         (of_int (accepted div cs)) accepted (drop (nat accepted) src)
                                         (drop rspLen inp) (after_write cap hs) of
                                        (Some e, out, inp', cap') \<Rightarrow> (Some e, hs @ out)
                                      | (None, out, inp', cap') \<Rightarrow>
                                          (case p2p_send_fin inp' cap' of (e, fin) \<Rightarrow> (e, hs @ out @ fin))))))))"

section \<open>Receiving\<close>

text \<open>How much of a file that is there already is kept: whole chunks of it, unless it is longer than
  what is announced.\<close>

definition p2p_accepted :: "bytes option \<Rightarrow> int \<Rightarrow> int \<Rightarrow> int" where
  "p2p_accepted old fileSize cs =
     (case old of
        None \<Rightarrow> 0
      | Some b \<Rightarrow>
          (let accepted = (if int (length b) > fileSize then 0 else int (length b))
           in accepted - accepted mod cs))"

text \<open>The loop over frames: error, bytes written to the connection, the file, what was hashed, the
  count, what the connection still takes. It ends without an error at the empty frame.\<close>

function p2p_recv_loop ::
  "prims \<Rightarrow> ctx \<Rightarrow> bytes \<Rightarrow> bytes \<Rightarrow> int \<Rightarrow> int \<Rightarrow> u64 \<Rightarrow> int \<Rightarrow> bytes \<Rightarrow> bytes \<Rightarrow> bytes \<Rightarrow> nat option \<Rightarrow>
    p2p_err option \<times> bytes \<times> bytes \<times> bytes \<times> int \<times> nat option" where
  "p2p_recv_loop P ctx key base cs fileSize idx recv inp content hashed cap =
     (if ctx 0 then (Some P2Ctx, [], content, hashed, recv, cap)
      else if length inp < 4 then (Some P2Conn, [], content, hashed, recv, cap)
      else let n = rd32 inp; rest = drop 4 inp in
        if n = 0 then (None, [], content, hashed, recv, cap)
        else if n > of_int (cs + 16 + 16) then (Some (P2Oversize n), [], content, hashed, recv, cap)
        else if length rest < unat n then (Some P2Conn, [], content, hashed, recv, cap)
        else (case p_open P key (p2p_chunkNonce base idx) (take (unat n) rest) of
                None \<Rightarrow> (Some (P2Undecryptable idx), try_write cap (be64 (- 1)), content, hashed, recv, cap)
              | Some plain \<Rightarrow>
                  (let content' = write_at (nat recv) plain content;
                       hashed' = hashed @ plain;
                       recv' = recv + int (length plain)
                   in if recv' > fileSize
                      then (Some P2Overlong, try_write cap (1 # be64 (of_int recv')), content', hashed', recv', cap)
                      else let ack = be64 (of_int recv') in
                        if \<not> can_write cap ack then (Some P2Conn, [], content', hashed', recv', cap)
                        else (case p2p_recv_loop P (\<lambda>k. ctx (k + 1)) key base cs fileSize (idx + 1) recv'
                                  (drop (unat n) rest) content' hashed' (after_write cap ack) of
                                (e, out', r) \<Rightarrow> (e, ack @ out', r)))))"
  by pat_completeness auto
termination
  by (relation "measure (\<lambda>(P, ctx, key, base, cs, fileSize, idx, recv, inp, content, hashed, cap). length inp)") auto

declare p2p_recv_loop.simps [simp del]

definition p2p_recv_fin :: "prims \<Rightarrow> int \<Rightarrow> bytes \<Rightarrow> int \<Rightarrow> bytes \<Rightarrow> nat option \<Rightarrow> p2p_err option \<times> bytes" where
  "p2p_recv_fin P fileSize fileHash recv hashed cap =
     (let digest = copy32 (p_sha256 P hashed) in
      if recv \<noteq> fileSize \<or> digest \<noteq> fileHash
      then (Some P2HashMismatch, try_write cap (1 # be64 (of_int recv)))
      else if \<not> can_write cap (0 # be64 (of_int recv)) then (Some P2Conn, [])
      else (None, 0 # be64 (of_int recv)))"

definition p2p_Receive ::
  "prims \<Rightarrow> ctx \<Rightarrow> bytes option \<Rightarrow> fs \<Rightarrow> string \<Rightarrow> bytes \<Rightarrow> nat option \<Rightarrow> bytes \<Rightarrow> p2p_err option \<times> bytes \<times> fs" where
  "p2p_Receive P ctx rndEph fs dstPath priv cap inp =
     (if length priv \<noteq> 64 then (Some (P2BadIdentity (length priv)), [], fs)
      else if length inp < hsLen then (Some P2Conn, [], fs)
      else case p2p_check_hello P (take hsLen inp) of
             Inl e \<Rightarrow> (Some e, [], fs)
           | Inr hl \<Rightarrow>
               (let accepted = p2p_accepted (fs dstPath) (hl_size hl) (hl_chunk hl) in
                case p2p_generateEphemeral P rndEph of
                  Inl e \<Rightarrow> (Some e, [], fs)
                | Inr (ephPriv, ephPub) \<Rightarrow>
                    (let rsp = p2p_response P priv ephPub accepted in
                     if \<not> can_write cap rsp then (Some P2Conn, [], fs)
                     else case p2p_ecdhShared P ephPriv (hl_ephem hl) of
                            Inl e \<Rightarrow> (Some e, rsp, fs)
                          | Inr shared \<Rightarrow>
                              (let old = (case fs dstPath of None \<Rightarrow> [] | Some b \<Rightarrow> b);
                                   content = (if accepted > 0 then take (nat accepted) old else old);
                                   hashed = take (nat accepted) content
                               in case p2p_recv_loop P ctx (p2p_sessionKey P shared (hl_ephem hl) ephPub) (hl_base hl)
                                      (hl_chunk hl) (hl_size hl) (of_int (accepted div hl_chunk hl)) accepted
                                      (drop hsLen inp) content hashed (after_write cap rsp) of
                                    (Some e, out, content', _) \<Rightarrow> (Some e, rsp @ out, fs(dstPath \<mapsto> content'))
                                  | (None, out, content', hashed', recv, cap') \<Rightarrow>
                                      (case p2p_recv_fin P (hl_size hl) (hl_hash hl) recv hashed' cap' of
                                         (e, fin) \<Rightarrow> (e, rsp @ out @ fin, fs(dstPath \<mapsto> content')))))))"

end
