(* ===== verification/P2pProps.thy ===== *)
theory P2pProps
  imports P2p
begin

text \<open>
  The direct transfer, both sides together. A run of the two peers is a pair of byte streams, each
  what one side writes when it is given the other: \<open>Send\<close> on \<open>b\<close> writes \<open>a\<close> and \<open>Receive\<close> on \<open>a\<close>
  writes \<open>b\<close>. The lemmas follow the exchange message by message.
\<close>

section \<open>Numbers on the wire\<close>

lemma rd64_be64_append [simp]: "rd64 (be64 v @ rest) = v"
proof -
  have "rd64 (be64 v @ rest) = rd64 (be64 v)" by (simp add: rd64_def be64_def nth_append)
  then show ?thesis by simp
qed

lemma sint_u64 [simp]: "0 \<le> n \<Longrightarrow> n < 2 ^ 63 \<Longrightarrow> sint (of_int n :: u64) = n"
  by (simp add: sint_uint unsigned_of_int signed_take_bit_take_bit signed_take_bit_int_eq_self)

lemma uint_u32 [simp]: "0 \<le> n \<Longrightarrow> n < 2 ^ 32 \<Longrightarrow> uint (of_int n :: u32) = n"
  by (simp add: unsigned_of_int take_bit_int_eq_self)

lemma length_p2p_Magic [simp]: "length p2p_Magic = 4"
  by (simp add: p2p_Magic_def)

section \<open>The handshakes are read as they were written\<close>

lemma length_hello:
  assumes "sig_ok P" "length priv = 64" "length ephPub = 32" "length base = 24" "length fileHash = 32"
  shows "length (p2p_hello P priv ephPub base hint fileSize fileHash cs) = hsLen"
  using assms by (simp add: p2p_hello_def hsLen_def sig_lengths Let_def)

lemma check_hello:
  assumes "sig_ok P" "length seed = 32" and priv: "priv = seed @ p_seed_pub P seed"
    and len: "length ephPub = 32" "length base = 24" "length fileHash = 32"
    and size: "0 \<le> fileSize" "fileSize < 2 ^ 63" and cs: "p2p_MinChunkSize \<le> cs" "cs \<le> p2p_MaxChunkSize"
  shows "p2p_check_hello P (p2p_hello P priv ephPub base hint fileSize fileHash cs) =
    Inr \<lparr>hl_id = p_seed_pub P seed, hl_ephem = ephPub, hl_base = base, hl_size = fileSize, hl_hash = fileHash, hl_chunk = cs\<rparr>"
proof -
  have pub: "length (p_seed_pub P seed) = 32" by (rule sig_lengths(2) [OF assms(1,2)])
  define off :: u64 where "off = of_int (if hint < 0 then 0 else hint)"
  define body where "body = p2p_Magic @ [p2p_Version] @ p_seed_pub P seed @ ephPub @ base @ be64 off
    @ be64 (of_int fileSize) @ fileHash @ be32 (of_int cs)"
  define sg where "sg = p_sign P priv body"
  have hs: "p2p_hello P priv ephPub base hint fileSize fileHash cs = body @ sg"
    using assms(2) by (simp add: p2p_hello_def priv body_def sg_def off_def Let_def)
  have lb: "length body = 145" "length sg = 64"
    using pub len by (simp_all add: body_def sg_def sig_lengths(1) [OF assms(1)])
  have csr: "0 \<le> cs" "cs < 2 ^ 32" using cs by (simp_all add: p2p_MinChunkSize_def p2p_MaxChunkSize_def)
  have v: "p_verify P (p_seed_pub P seed) body sg"
    unfolding sg_def priv by (rule sig_verify [OF assms(1,2)])
  have t: "take (hsLen - 64) (body @ sg) = body" using lb by (simp add: hsLen_def)
  have fields: "take 4 (body @ sg) = p2p_Magic" "(body @ sg) ! 4 = p2p_Version"
    "take 32 (drop 5 (body @ sg)) = p_seed_pub P seed" "take 32 (drop 32 (drop 5 (body @ sg))) = ephPub"
    "take 24 (drop 64 (drop 5 (body @ sg))) = base" "take 8 (drop 96 (drop 5 (body @ sg))) = be64 (of_int fileSize)"
    "take 32 (drop 104 (drop 5 (body @ sg))) = fileHash" "take 4 (drop 136 (drop 5 (body @ sg))) = be32 (of_int cs)"
    "take 64 (drop 140 (drop 5 (body @ sg))) = sg"
    using pub len lb by (simp_all add: body_def nth_append)
  show ?thesis
    unfolding hs p2p_check_hello_def fields Let_def t
    using v size cs csr by simp
qed

lemma length_response:
  "sig_ok P \<Longrightarrow> length priv = 64 \<Longrightarrow> length ephPub = 32 \<Longrightarrow> length (p2p_response P priv ephPub accepted) = rspLen"
  by (simp add: p2p_response_def rspLen_def sig_lengths Let_def)

lemma check_response:
  assumes "sig_ok P" "length seed = 32" and priv: "priv = seed @ p_seed_pub P seed" and len: "length ephPub = 32"
    and acc: "0 \<le> accepted" "accepted \<le> fileSize" "fileSize < 2 ^ 63" "accepted mod cs = 0"
  shows "p2p_check_response P fileSize cs (p2p_response P priv ephPub accepted) = Inr (ephPub, accepted)"
proof -
  have pub: "length (p_seed_pub P seed) = 32" by (rule sig_lengths(2) [OF assms(1,2)])
  define body where "body = p2p_Magic @ [p2p_Version] @ p_seed_pub P seed @ ephPub @ be64 (of_int accepted)"
  define sg where "sg = p_sign P priv body"
  have rsp: "p2p_response P priv ephPub accepted = body @ sg"
    using assms(2) by (simp add: p2p_response_def priv body_def sg_def Let_def)
  have lb: "length body = 77" "length sg = 64"
    using pub len by (simp_all add: body_def sg_def sig_lengths(1) [OF assms(1)])
  have v: "p_verify P (p_seed_pub P seed) body sg"
    unfolding sg_def priv by (rule sig_verify [OF assms(1,2)])
  have fields: "take 4 (body @ sg) = p2p_Magic" "(body @ sg) ! 4 = p2p_Version"
    "take 32 (drop 5 (body @ sg)) = p_seed_pub P seed" "take 32 (drop 37 (body @ sg)) = ephPub"
    "take 8 (drop 69 (body @ sg)) = be64 (of_int accepted)" "take 64 (drop 77 (body @ sg)) = sg"
    "take 77 (body @ sg) = body"
    using pub len lb by (simp_all add: body_def nth_append)
  show ?thesis
    unfolding rsp p2p_check_response_def fields Let_def
    using v acc by simp
qed

section \<open>The two loops follow each other\<close>

text \<open>Each side from its loop to the end, on a connection that takes everything.\<close>

definition send_tail ::
  "prims \<Rightarrow> bytes \<Rightarrow> bytes \<Rightarrow> nat \<Rightarrow> u64 \<Rightarrow> int \<Rightarrow> bytes \<Rightarrow> bytes \<Rightarrow> p2p_err option \<times> bytes" where
  "send_tail P key base cs idx sent src inp =
     (case p2p_send_loop P live_ctx key base cs idx sent src inp None of
        (Some e, out, inp', cap') \<Rightarrow> (Some e, out)
      | (None, out, inp', cap') \<Rightarrow> (case p2p_send_fin inp' cap' of (e, fin) \<Rightarrow> (e, out @ fin)))"

definition recv_tail ::
  "prims \<Rightarrow> bytes \<Rightarrow> bytes \<Rightarrow> int \<Rightarrow> int \<Rightarrow> bytes \<Rightarrow> u64 \<Rightarrow> int \<Rightarrow> bytes \<Rightarrow> bytes \<Rightarrow> bytes \<Rightarrow>
    p2p_err option \<times> bytes \<times> bytes" where
  "recv_tail P key base cs fileSize fileHash idx recv inp content hashed =
     (case p2p_recv_loop P live_ctx key base cs fileSize idx recv inp content hashed None of
        (Some e, out, content', r) \<Rightarrow> (Some e, out, content')
      | (None, out, content', hashed', recv', cap') \<Rightarrow>
          (case p2p_recv_fin P fileSize fileHash recv' hashed' cap' of (e, fin) \<Rightarrow> (e, out @ fin, content')))"

lemma send_loop_cap: "p2p_send_loop P ctx key base cs idx sent src inp cap = (e, out, inp', cap') \<Longrightarrow> cap = None \<Longrightarrow> cap' = None"
proof (induction P ctx key base cs idx sent src inp cap arbitrary: out rule: p2p_send_loop.induct)
  case (1 P ctx key base cs idx sent src inp cap)
  from 1(2) show ?case
    unfolding p2p_send_loop.simps [of P ctx]
    using 1(1) 1(3) by (auto simp: Let_def split: if_splits prod.splits)
qed

lemma send_tail_Nil: "send_tail P key base cs idx sent [] inp = p2p_send_fin inp None"
  by (simp add: send_tail_def p2p_send_loop.simps split: prod.splits)

lemma send_tail_step:
  assumes "src \<noteq> []" "0 < cs"
  defines "plain \<equiv> take cs src"
  shows "send_tail P key base cs idx sent src inp =
    (if length inp < 8 then (Some P2Conn, frame P p2p_chunkNonce key base idx plain)
     else let want = sent + int (length plain); got = sint (rd64 inp) in
       if got = - 1 then (Some P2ChunkRejected, frame P p2p_chunkNonce key base idx plain)
       else if got \<noteq> want then (Some (P2AckMismatch want got), frame P p2p_chunkNonce key base idx plain)
       else (case send_tail P key base cs (idx + 1) want (drop cs src) (drop 8 inp) of
               (e, out) \<Rightarrow> (e, frame P p2p_chunkNonce key base idx plain @ out)))"
proof -
  have n: "length plain \<noteq> 0" using assms by simp
  have last: "drop cs src = []" if "length plain < cs" using that by (auto simp: plain_def)
  show ?thesis
    unfolding send_tail_def plain_def
    using n last assms(1,2)
    by (subst p2p_send_loop.simps)
       (auto simp: plain_def frame_def Let_def p2p_send_loop.simps [of P live_ctx _ _ _ _ _ "[]"] split: prod.splits option.splits)
qed

text \<open>A frame of the sender is what the receiver expects.\<close>

lemma frame_word:
  assumes "aead_ok P" "length p \<le> nat cs" "cs \<le> p2p_MaxChunkSize" "0 \<le> cs"
  shows "unat (of_nat (length (p_seal P key n p)) :: u32) = length p + 16"
    and "(of_nat (length (p_seal P key n p)) :: u32) \<noteq> 0"
    and "\<not> (of_nat (length (p_seal P key n p)) :: u32) > of_int (cs + 16 + 16)"
proof -
  have small: "length p \<le> 8 * 2 ^ 20" "nat cs \<le> 8 * 2 ^ 20" using assms(2-4) by (simp_all add: p2p_MaxChunkSize_def)
  then have "length p \<le> aead_max" by (simp add: aead_max_def)
  then have l: "length (p_seal P key n p) = length p + 16" by (rule aead_seal_length [OF assms(1)])
  have u32: "unat (of_nat n :: u32) = n" if "n < 2 ^ 32" for n
    using that by (simp add: unat_of_nat)
  show u: "unat (of_nat (length (p_seal P key n p)) :: u32) = length p + 16"
    unfolding l by (rule u32) (use small in simp)
  then show "(of_nat (length (p_seal P key n p)) :: u32) \<noteq> 0" by auto
  have "of_int (cs + 16 + 16) = (of_nat (nat cs + 32) :: u32)" using assms(4) by simp
  then have "unat (of_int (cs + 16 + 16) :: u32) = nat cs + 32"
    by (simp only: u32) (rule u32, use small in simp)
  then show "\<not> (of_nat (length (p_seal P key n p)) :: u32) > of_int (cs + 16 + 16)"
    using assms(2) u by (simp add: word_less_nat_alt)
qed

lemma recv_tail_frame:
  assumes "aead_ok P" "length p \<le> nat cs" "cs \<le> p2p_MaxChunkSize" "0 \<le> cs" and "recv + int (length p) \<le> fileSize"
  shows "recv_tail P key base cs fileSize fileHash idx recv (frame P p2p_chunkNonce key base idx p @ rest) content hashed =
    (case recv_tail P key base cs fileSize fileHash (idx + 1) (recv + int (length p)) rest
        (write_at (nat recv) p content) (hashed @ p) of
       (e, out, content') \<Rightarrow> (e, be64 (of_int (recv + int (length p))) @ out, content'))"
proof -
  let ?s = "p_seal P key (p2p_chunkNonce base idx) p"
  have pm: "length p \<le> aead_max" using assms(2-4) by (simp add: aead_max_def p2p_MaxChunkSize_def)
  have o: "p_open P key (p2p_chunkNonce base idx) ?s = Some p" by (rule aead_open_seal [OF assms(1) pm])
  have l: "length ?s = length p + 16" by (rule aead_seal_length [OF assms(1) pm])
  note w = frame_word [OF assms(1-4), of key "p2p_chunkNonce base idx"]
  show ?thesis
    unfolding recv_tail_def
    using w o l assms(5)
    by (subst p2p_recv_loop.simps) (auto simp: frame_def Let_def split: prod.splits option.splits)
qed

lemma recv_tail_fin:
  "recv_tail P key base cs fileSize fileHash idx recv (be32 0 @ rest) content hashed =
    (case p2p_recv_fin P fileSize fileHash recv hashed None of (e, fin) \<Rightarrow> (e, fin, content))"
  by (simp add: recv_tail_def p2p_recv_loop.simps split: prod.splits option.splits)

text \<open>The two tails, given each other's output, end without an error, and the file is complete.\<close>

lemma tails_agree:
  assumes P: "aead_ok P" and cs: "0 < cs" "cs \<le> p2p_MaxChunkSize"
    and S: "send_tail P key base (nat cs) idx sent src b = (e1, a)"
    and R: "recv_tail P key base cs fileSize (copy32 (p_sha256 P (hashed @ src))) idx sent a content hashed = (e2, b, content')"
    and size: "0 \<le> sent" "sent + int (length src) = fileSize" "fileSize < 2 ^ 63" "sent \<le> int (length content)"
  shows "e1 = None \<and> e2 = None \<and> content' = take (nat sent) content @ src @ drop (nat sent + length src) content"
  using S R size
proof (induction "length src" arbitrary: src idx sent a b hashed content e1 e2 rule: less_induct)
  case less
  show ?case
  proof (cases "src = []")
    case True
    have a: "p2p_send_fin b None = (e1, a)" using less.prems(1) by (simp add: True send_tail_Nil)
    then have "a = be32 0 @ []" by (auto simp: p2p_send_fin_def split: if_splits)
    with less.prems(2) have "b = 0 # be64 (of_int sent)" "e2 = None" "content' = content"
      using recv_tail_fin [of P key base cs fileSize _ idx sent "[]" content hashed] less.prems(4)
      by (auto simp: True p2p_recv_fin_def Let_def split: if_splits)
    with a show ?thesis by (auto simp: p2p_send_fin_def True split: if_splits)
  next
    case False
    define plain where "plain = take (nat cs) src"
    define rest where "rest = drop (nat cs) src"
    define sent' where "sent' = sent + int (length plain)"
    have src: "src = plain @ rest" by (simp add: plain_def rest_def)
    have pl: "length plain \<le> nat cs" "0 < length plain" using False cs(1) by (simp_all add: plain_def)
    have fit: "sent + int (length plain) \<le> fileSize" using less.prems(4) by (simp add: src)
    have "0 \<le> sent'" "sent' < 2 ^ 63" using less.prems(3,5) fit by (simp_all add: sent'_def)
    then have wire: "sint (of_int sent' :: u64) = sent'" "0 \<le> sent'" by simp_all
    note step = send_tail_step [OF False, of "nat cs" P key base idx sent b, folded plain_def rest_def sent'_def]
    note recv = recv_tail_frame [OF P pl(1) cs(2) _ fit, of key base _ idx _ content hashed, folded sent'_def]
    obtain oa where "a = frame P p2p_chunkNonce key base idx plain @ oa"
      using step less.prems(1) cs(1) by (auto simp: Let_def split: if_splits prod.splits)
    with less.prems(2) recv cs(1) obtain b2 where b: "b = be64 (of_int sent') @ b2"
      by (auto split: prod.splits)
    then have rd: "sint (rd64 b) = sent'" "\<not> length b < 8" "drop 8 b = b2" "sent' \<noteq> - 1" using wire by simp_all
    then obtain oa where S': "send_tail P key base (nat cs) (idx + 1) sent' rest b2 = (e1, oa)"
      and a: "a = frame P p2p_chunkNonce key base idx plain @ oa"
      using step less.prems(1) cs(1) by (auto simp: Let_def split: prod.splits)
    have R': "recv_tail P key base cs fileSize (copy32 (p_sha256 P ((hashed @ plain) @ rest))) (idx + 1) sent' oa
        (write_at (nat sent) plain content) (hashed @ plain) = (e2, b2, content')"
      using less.prems(2) recv cs(1) unfolding a b src by (auto split: prod.splits)
    have len: "sent' \<le> int (length (write_at (nat sent) plain content))"
      using less.prems(3,6) by (simp add: length_write_at sent'_def)
    have "length rest < length src" using pl(2) by (simp add: src)
    from less.hyps [OF this S' R' wire(2) _ less.prems(5) len] less.prems(4)
    have IH: "e1 = None" "e2 = None" "content' = take (nat sent') (write_at (nat sent) plain content) @ rest @
        drop (nat sent' + length rest) (write_at (nat sent) plain content)"
      by (simp_all add: src sent'_def)
    have n: "nat sent' = nat sent + length plain" using less.prems(3) by (simp add: sent'_def nat_add_distrib)
    have "nat sent \<le> length content" using less.prems(6) by simp
    then have "take (nat sent') (write_at (nat sent) plain content) = take (nat sent) content @ plain"
      "drop (nat sent' + length rest) (write_at (nat sent) plain content) = drop (nat sent + length src) content"
      unfolding n by (simp_all add: take_write_at) (simp add: write_at_def src add_ac)
    then show ?thesis using IH by (simp add: src)
  qed
qed

section \<open>The transfer\<close>

text \<open>What makes a pair of peers able to talk: their keys, draws and parameters.\<close>

record peers =
  pe_sseed :: bytes
  pe_rseed :: bytes
  pe_seph :: bytes
  pe_reph :: bytes
  pe_base :: bytes
  pe_hint :: int
  pe_chunk :: int

definition pe_spriv :: "prims \<Rightarrow> peers \<Rightarrow> bytes" where
  "pe_spriv P pe = pe_sseed pe @ p_seed_pub P (pe_sseed pe)"

definition pe_rpriv :: "prims \<Rightarrow> peers \<Rightarrow> bytes" where
  "pe_rpriv P pe = pe_rseed pe @ p_seed_pub P (pe_rseed pe)"

definition peers_ok :: "prims \<Rightarrow> peers \<Rightarrow> bool" where
  "peers_ok P pe \<longleftrightarrow> aead_ok P \<and> dh_ok P \<and> sig_ok P \<and>
     length (pe_sseed pe) = 32 \<and> length (pe_rseed pe) = 32 \<and> length (pe_seph pe) = 32 \<and> length (pe_reph pe) = 32 \<and>
     length (pe_base pe) = 24 \<and>
     (\<exists>spub rpub. p_x25519 P (pe_seph pe) basepoint = Some spub \<and> p_x25519 P (pe_reph pe) basepoint = Some rpub \<and>
        p_x25519 P (pe_seph pe) rpub \<noteq> None)"

lemma chunkSizeOf_bounds: "p2p_MinChunkSize \<le> p2p_chunkSizeOf n" "p2p_chunkSizeOf n \<le> p2p_MaxChunkSize"
  by (auto simp: p2p_chunkSizeOf_def p2p_MinChunkSize_def p2p_MaxChunkSize_def p2p_ChunkSize_def)

lemma accepted_bounds:
  assumes "0 < cs" "0 \<le> fileSize"
  shows "0 \<le> p2p_accepted old fileSize cs" "p2p_accepted old fileSize cs \<le> fileSize"
    "p2p_accepted old fileSize cs mod cs = 0"
    "p2p_accepted old fileSize cs \<le> (case old of None \<Rightarrow> 0 | Some b \<Rightarrow> int (length b))"
proof -
  have m: "0 \<le> n - n mod cs" "n - n mod cs \<le> n" if "0 \<le> n" for n :: int
    using that assms(1) pos_mod_sign [of cs n] zmod_le_nonneg_dividend [of n cs] by simp_all
  define n where "n = (case old of None \<Rightarrow> 0 | Some b \<Rightarrow> if int (length b) > fileSize then 0 else int (length b))"
  have n: "0 \<le> n" "n \<le> fileSize" "n \<le> (case old of None \<Rightarrow> 0 | Some b \<Rightarrow> int (length b))"
    using assms(2) by (auto simp: n_def split: option.splits)
  have acc: "p2p_accepted old fileSize cs = n - n mod cs"
    by (simp add: p2p_accepted_def n_def Let_def split: option.splits)
  show "0 \<le> p2p_accepted old fileSize cs" "p2p_accepted old fileSize cs \<le> fileSize"
    "p2p_accepted old fileSize cs \<le> (case old of None \<Rightarrow> 0 | Some b \<Rightarrow> int (length b))"
    unfolding acc using m [OF n(1)] n(2,3) by linarith+
  show "p2p_accepted old fileSize cs mod cs = 0"
    by (simp add: p2p_accepted_def Let_def minus_mod_eq_mult_div split: option.splits)
qed

text \<open>A run of the two peers on a sound connection, of which nothing is cancelled.\<close>

definition p2p_run ::
  "prims \<Rightarrow> peers \<Rightarrow> fs \<Rightarrow> string \<Rightarrow> fs \<Rightarrow> string \<Rightarrow> bytes \<Rightarrow> bytes \<Rightarrow> p2p_err option \<Rightarrow> p2p_err option \<Rightarrow> fs \<Rightarrow> bool" where
  "p2p_run P pe sfs src rfs dst a b e1 e2 rfs' \<longleftrightarrow>
     p2p_Send P live_ctx (Some (pe_seph pe)) (Some (pe_base pe)) sfs src (pe_spriv P pe) (pe_hint pe) (pe_chunk pe) None b
       = (e1, a) \<and>
     p2p_Receive P live_ctx (Some (pe_reph pe)) rfs dst (pe_rpriv P pe) None a = (e2, b, rfs')"

lemma Send_eq:
  fixes chunk hint :: int and base :: bytes
  assumes "length priv = 64" "sfs src = Some plain" "p_x25519 P seph basepoint = Some spub"
  defines "cs \<equiv> p2p_chunkSizeOf chunk"
  defines "hs \<equiv> p2p_hello P priv spub base hint (int (length plain)) (copy32 (p_sha256 P plain)) cs"
  shows "p2p_Send P live_ctx (Some seph) (Some base) sfs src priv hint chunk None b =
    (if length b < rspLen then (Some P2Conn, hs)
     else case p2p_check_response P (int (length plain)) cs (take rspLen b) of
        Inl e \<Rightarrow> (Some e, hs)
      | Inr (peerEphem, accepted) \<Rightarrow>
          (case p2p_ecdhShared P seph peerEphem of
             Inl e \<Rightarrow> (Some e, hs)
           | Inr shared \<Rightarrow>
               (case send_tail P (p2p_sessionKey P shared spub peerEphem) base (nat cs) (of_int (accepted div cs)) accepted
                   (drop (nat accepted) plain) (drop rspLen b) of
                  (e, out) \<Rightarrow> (e, hs @ out))))"
  using assms(1-3)
  by (auto simp: p2p_Send_def send_tail_def p2p_generateEphemeral_def hs_def cs_def Let_def
      split: sum.splits prod.splits option.splits)

lemma Receive_eq:
  fixes rfs :: fs and dst :: string
  assumes "length priv = 64" "hsLen \<le> length a" "p2p_check_hello P (take hsLen a) = Inr hl"
    and "p_x25519 P reph basepoint = Some rpub" "p2p_ecdhShared P reph (hl_ephem hl) = Inr shared"
  defines "accepted \<equiv> p2p_accepted (rfs dst) (hl_size hl) (hl_chunk hl)"
  defines "old \<equiv> (case rfs dst of None \<Rightarrow> [] | Some c \<Rightarrow> c)"
  defines "content \<equiv> (if accepted > 0 then take (nat accepted) old else old)"
  shows "p2p_Receive P live_ctx (Some reph) rfs dst priv None a =
    (case recv_tail P (p2p_sessionKey P shared (hl_ephem hl) rpub) (hl_base hl) (hl_chunk hl) (hl_size hl) (hl_hash hl)
        (of_int (accepted div hl_chunk hl)) accepted (drop hsLen a) content (take (nat accepted) content) of
       (e, out, content') \<Rightarrow> (e, p2p_response P priv rpub accepted @ out, rfs(dst \<mapsto> content')))"
  using assms(1-5)
  by (auto simp: p2p_Receive_def recv_tail_def p2p_generateEphemeral_def accepted_def old_def content_def Let_def
      split: prod.splits option.splits)

text \<open>And there is such a pair of outputs.\<close>

lemma tails_exist:
  assumes P: "aead_ok P" and cs: "0 < cs" "cs \<le> p2p_MaxChunkSize"
    and size: "0 \<le> sent" "sent + int (length src) = fileSize" "fileSize < 2 ^ 63"
  shows "\<exists>a b content'. send_tail P key base (nat cs) idx sent src b = (None, a) \<and>
    recv_tail P key base cs fileSize (copy32 (p_sha256 P (hashed @ src))) idx sent a content hashed = (None, b, content')"
  using size
proof (induction "length src" arbitrary: src idx sent hashed content rule: less_induct)
  case less
  show ?case
  proof (cases "src = []")
    case True
    have "send_tail P key base (nat cs) idx sent src (0 # be64 (of_int sent)) = (None, be32 0)"
      by (simp add: True send_tail_Nil p2p_send_fin_def)
    moreover have "recv_tail P key base cs fileSize (copy32 (p_sha256 P (hashed @ src))) idx sent (be32 0) content hashed =
        (None, 0 # be64 (of_int sent), content)"
      using recv_tail_fin [of P key base cs fileSize _ idx sent "[]" content hashed] less.prems(2)
      by (simp add: True p2p_recv_fin_def Let_def)
    ultimately show ?thesis by blast
  next
    case False
    define plain where "plain = take (nat cs) src"
    define rest where "rest = drop (nat cs) src"
    define sent' where "sent' = sent + int (length plain)"
    have src: "src = plain @ rest" by (simp add: plain_def rest_def)
    have pl: "length plain \<le> nat cs" "0 < length plain" using False cs(1) by (simp_all add: plain_def)
    have fit: "sent + int (length plain) \<le> fileSize" using less.prems(2) by (simp add: src)
    have "0 \<le> sent'" "sent' < 2 ^ 63" using less.prems(1,3) fit by (simp_all add: sent'_def)
    then have wire: "sint (of_int sent' :: u64) = sent'" "0 \<le> sent'" by simp_all
    have "length rest < length src" using pl(2) by (simp add: src)
    from less.hyps [OF this wire(2) _ less.prems(3), of "idx + 1" "hashed @ plain" "write_at (nat sent) plain content"]
      less.prems(2)
    obtain a b content' where ab: "send_tail P key base (nat cs) (idx + 1) sent' rest b = (None, a)"
      "recv_tail P key base cs fileSize (copy32 (p_sha256 P ((hashed @ plain) @ rest))) (idx + 1) sent' a
        (write_at (nat sent) plain content) (hashed @ plain) = (None, b, content')"
      by (auto simp: src sent'_def)
    have "send_tail P key base (nat cs) idx sent src (be64 (of_int sent') @ b) =
        (None, frame P p2p_chunkNonce key base idx plain @ a)"
      using send_tail_step [OF False, of "nat cs" P key base idx sent, folded plain_def rest_def sent'_def] cs(1) wire ab(1)
      by (simp add: Let_def)
    moreover have "recv_tail P key base cs fileSize (copy32 (p_sha256 P (hashed @ src))) idx sent
        (frame P p2p_chunkNonce key base idx plain @ a) content hashed = (None, be64 (of_int sent') @ b, content')"
      using recv_tail_frame [OF P pl(1) cs(2) _ fit, of key base _ idx _ content hashed, folded sent'_def] cs(1) ab(2)
      by (simp add: src)
    ultimately show ?thesis by blast
  qed
qed

text \<open>After the handshakes a run is a run of the two tails, from the offset the receiver accepts.\<close>

lemma p2p_run_tails:
  fixes rfs :: fs and dst :: string
  assumes ok: "peers_ok P pe" and fl: "sfs src = Some plain" "int (length plain) < 2 ^ 63"
  defines "cs \<equiv> p2p_chunkSizeOf (pe_chunk pe)"
  defines "old \<equiv> (case rfs dst of None \<Rightarrow> [] | Some c \<Rightarrow> c)"
  defines "accepted \<equiv> p2p_accepted (rfs dst) (int (length plain)) cs"
  defines "content \<equiv> (if 0 < accepted then take (nat accepted) old else old)"
  shows "\<exists>hs rsp key. \<forall>a b e1 e2 rfs'. p2p_run P pe sfs src rfs dst a b e1 e2 rfs' \<longleftrightarrow>
    (\<exists>a' b' content'. a = hs @ a' \<and> b = rsp @ b' \<and> rfs' = rfs(dst \<mapsto> content') \<and>
       send_tail P key (pe_base pe) (nat cs) (of_int (accepted div cs)) accepted (drop (nat accepted) plain) b' = (e1, a') \<and>
       recv_tail P key (pe_base pe) cs (int (length plain)) (copy32 (p_sha256 P plain)) (of_int (accepted div cs)) accepted a'
         content (take (nat accepted) content) = (e2, b', content'))"
proof -
  obtain spub rpub shared where dh: "p_x25519 P (pe_seph pe) basepoint = Some spub"
    "p_x25519 P (pe_reph pe) basepoint = Some rpub" "p_x25519 P (pe_seph pe) rpub = Some shared"
    using ok by (auto simp: peers_ok_def)
  have P: "aead_ok P" "dh_ok P" "sig_ok P" and len: "length (pe_sseed pe) = 32" "length (pe_rseed pe) = 32"
    "length (pe_seph pe) = 32" "length (pe_reph pe) = 32" "length (pe_base pe) = 24"
    using ok by (simp_all add: peers_ok_def)
  have dh': "p_x25519 P (pe_reph pe) spub = Some shared" using dh_agree [OF P(2) dh(1,2)] dh(3) by simp
  have plen: "length spub = 32" "length rpub = 32" using dh_length [OF P(2)] dh by simp_all
  have privs: "length (pe_spriv P pe) = 64" "length (pe_rpriv P pe) = 64"
    using len by (simp_all add: pe_spriv_def pe_rpriv_def sig_lengths(2) [OF P(3)])
  note csb = chunkSizeOf_bounds [of "pe_chunk pe", folded cs_def]
  then have cs0: "0 < cs" by (simp add: p2p_MinChunkSize_def)
  define fileSize where "fileSize = int (length plain)"
  define fileHash where "fileHash = copy32 (p_sha256 P plain)"
  have accb: "0 \<le> accepted" "accepted \<le> fileSize" "accepted mod cs = 0" "accepted \<le> int (length old)"
    using accepted_bounds [OF cs0, of fileSize "rfs dst"]
    by (auto simp: accepted_def fileSize_def old_def split: option.splits)
  define hs where "hs = p2p_hello P (pe_spriv P pe) spub (pe_base pe) (pe_hint pe) fileSize fileHash cs"
  define rsp where "rsp = p2p_response P (pe_rpriv P pe) rpub accepted"
  have lhs: "length hs = hsLen" "length rsp = rspLen"
    using privs plen len P(3) by (simp_all add: hs_def rsp_def length_hello length_response fileHash_def)
  have chk: "p2p_check_hello P hs = Inr \<lparr>hl_id = p_seed_pub P (pe_sseed pe), hl_ephem = spub, hl_base = pe_base pe,
      hl_size = fileSize, hl_hash = fileHash, hl_chunk = cs\<rparr>"
    unfolding hs_def
    by (rule check_hello [OF P(3) len(1) pe_spriv_def plen(1) len(5) _ _ _ csb]) (use fl(2) in \<open>simp_all add: fileHash_def fileSize_def\<close>)
  have crs: "p2p_check_response P fileSize cs rsp = Inr (rpub, accepted)"
    unfolding rsp_def
    by (rule check_response [OF P(3) len(2) pe_rpriv_def plen(2) accb(1,2) _ accb(3)]) (use fl(2) in \<open>simp add: fileSize_def\<close>)
  define key where "key = p2p_sessionKey P shared spub rpub"
  have ecdh: "p2p_ecdhShared P (pe_reph pe) spub = Inr shared" "p2p_ecdhShared P (pe_seph pe) rpub = Inr shared"
    using dh' dh(3) len plen by (simp_all add: p2p_ecdhShared_def)
  define ta where "ta b' = send_tail P key (pe_base pe) (nat cs) (of_int (accepted div cs)) accepted (drop (nat accepted) plain) b'" for b'
  define tb where "tb a' = recv_tail P key (pe_base pe) cs fileSize fileHash (of_int (accepted div cs)) accepted a' content
      (take (nat accepted) content)" for a'
  note S = Send_eq [where sfs = sfs and src = src, OF privs(1) fl(1) dh(1), of "pe_base pe" "pe_hint pe" "pe_chunk pe",
      folded cs_def fileSize_def fileHash_def, folded hs_def]
  have S2: "p2p_Send P live_ctx (Some (pe_seph pe)) (Some (pe_base pe)) sfs src (pe_spriv P pe) (pe_hint pe) (pe_chunk pe) None
      (rsp @ b') = (case ta b' of (e, out) \<Rightarrow> (e, hs @ out))" for b'
    using lhs crs ecdh(2) by (simp add: S ta_def key_def)
  have R: "p2p_Receive P live_ctx (Some (pe_reph pe)) rfs dst (pe_rpriv P pe) None (hs @ a') =
      (case tb a' of (e, out, content') \<Rightarrow> (e, rsp @ out, rfs(dst \<mapsto> content')))" for a'
    using Receive_eq [where rfs = rfs and dst = dst and a = "hs @ a'", OF privs(2) _ _ dh(2), of _ shared] chk ecdh(1) lhs
    by (simp add: tb_def key_def rsp_def content_def accepted_def old_def fileSize_def)
  have "p2p_run P pe sfs src rfs dst a b e1 e2 rfs' \<longleftrightarrow>
    (\<exists>a' b' content'. a = hs @ a' \<and> b = rsp @ b' \<and> rfs' = rfs(dst \<mapsto> content') \<and> ta b' = (e1, a') \<and> tb a' = (e2, b', content'))"
    (is "?run \<longleftrightarrow> ?tails") for a b e1 e2 rfs'
  proof
    assume run: ?run
    then obtain a' where a: "a = hs @ a'"
      by (auto simp: p2p_run_def S split: if_splits sum.splits prod.splits)
    then obtain content' b' where b': "tb a' = (e2, b', content')" "b = rsp @ b'" "rfs' = rfs(dst \<mapsto> content')"
      using run R by (auto simp: p2p_run_def split: prod.splits)
    have "ta b' = (e1, a')" using run S2 [of b'] by (auto simp: p2p_run_def a b'(2) split: prod.splits)
    with a b' show ?tails by blast
  next
    assume ?tails
    then show ?run using S2 R by (auto simp: p2p_run_def)
  qed
  then show ?thesis unfolding ta_def tb_def fileSize_def fileHash_def by blast
qed

lemma p2p_run_result:
  fixes rfs :: fs and dst :: string
  assumes ok: "peers_ok P pe" and fl: "sfs src = Some plain" "int (length plain) < 2 ^ 63"
  defines "old \<equiv> (case rfs dst of None \<Rightarrow> [] | Some c \<Rightarrow> c)"
  defines "acc \<equiv> nat (p2p_accepted (rfs dst) (int (length plain)) (p2p_chunkSizeOf (pe_chunk pe)))"
  assumes kept: "take acc old = take acc plain"
  shows "(\<exists>a b rfs'. p2p_run P pe sfs src rfs dst a b None None rfs') \<and>
    (\<forall>a b e1 e2 rfs'. p2p_run P pe sfs src rfs dst a b e1 e2 rfs' \<longrightarrow> e1 = None \<and> e2 = None \<and>
       rfs' = rfs(dst \<mapsto> plain @ (if acc = 0 then drop (length plain) old else [])))"
proof -
  define cs where "cs = p2p_chunkSizeOf (pe_chunk pe)"
  define accepted where "accepted = p2p_accepted (rfs dst) (int (length plain)) cs"
  define content where "content = (if 0 < accepted then take (nat accepted) old else old)"
  have P: "aead_ok P" using ok by (simp add: peers_ok_def)
  note csb = chunkSizeOf_bounds [of "pe_chunk pe", folded cs_def]
  then have cs0: "0 < cs" by (simp add: p2p_MinChunkSize_def)
  have accb: "0 \<le> accepted" "accepted \<le> int (length plain)" "accepted \<le> int (length old)"
    using accepted_bounds [OF cs0, of "int (length plain)" "rfs dst"]
    by (auto simp: accepted_def old_def split: option.splits)
  have acc: "acc = nat accepted" by (simp add: acc_def accepted_def cs_def)
  from p2p_run_tails [where sfs = sfs and rfs = rfs and dst = dst, OF ok fl, folded cs_def old_def, folded accepted_def, folded content_def]
  obtain hs rsp key where iff: "\<And>a b e1 e2 rfs'. p2p_run P pe sfs src rfs dst a b e1 e2 rfs' \<longleftrightarrow>
    (\<exists>a' b' content'. a = hs @ a' \<and> b = rsp @ b' \<and> rfs' = rfs(dst \<mapsto> content') \<and>
       send_tail P key (pe_base pe) (nat cs) (of_int (accepted div cs)) accepted (drop (nat accepted) plain) b' = (e1, a') \<and>
       recv_tail P key (pe_base pe) cs (int (length plain)) (copy32 (p_sha256 P plain)) (of_int (accepted div cs)) accepted a'
         content (take (nat accepted) content) = (e2, b', content'))" by blast
  have whole: "take (nat accepted) content @ drop (nat accepted) plain = plain"
    using kept by (auto simp: content_def acc)
  have sz: "accepted \<le> int (length content)" using accb(1,3) by (simp add: content_def)
  have sum: "accepted + int (length (drop (nat accepted) plain)) = int (length plain)" using accb(1,2) by simp
  have rest: "drop (nat accepted + length (drop (nat accepted) plain)) content = (if acc = 0 then drop (length plain) old else [])"
    using accb(1,2) by (auto simp: content_def acc)
  show ?thesis
  proof (intro conjI allI impI)
    show "\<exists>a b rfs'. p2p_run P pe sfs src rfs dst a b None None rfs'"
      using tails_exist [OF P cs0 csb(2) accb(1) sum fl(2), of key "pe_base pe" "of_int (accepted div cs)" "take (nat accepted) content" content]
      unfolding whole iff by blast
  next
    fix a b e1 e2 rfs' assume "p2p_run P pe sfs src rfs dst a b e1 e2 rfs'"
    then obtain a' b' content' where t: "rfs' = rfs(dst \<mapsto> content')"
       "send_tail P key (pe_base pe) (nat cs) (of_int (accepted div cs)) accepted (drop (nat accepted) plain) b' = (e1, a')"
       "recv_tail P key (pe_base pe) cs (int (length plain)) (copy32 (p_sha256 P (take (nat accepted) content @ drop (nat accepted) plain)))
         (of_int (accepted div cs)) accepted a' content (take (nat accepted) content) = (e2, b', content')"
      unfolding iff whole by blast
    from tails_agree [OF P cs0 csb(2) t(2,3) accb(1) sum fl(2) sz]
    show "e1 = None" "e2 = None" "rfs' = rfs(dst \<mapsto> plain @ (if acc = 0 then drop (length plain) old else []))"
      using whole by (simp_all add: t(1) flip: rest) (metis append_assoc)
  qed
qed

lemma p2p_run_to:
  fixes rfs res :: fs and dst :: string
  assumes "peers_ok P pe" "sfs src = Some plain" "int (length plain) < 2 ^ 63"
  defines "old \<equiv> (case rfs dst of None \<Rightarrow> [] | Some c \<Rightarrow> c)"
  defines "acc \<equiv> nat (p2p_accepted (rfs dst) (int (length plain)) (p2p_chunkSizeOf (pe_chunk pe)))"
  assumes "take acc old = take acc plain"
    and res: "rfs(dst \<mapsto> plain @ (if acc = 0 then drop (length plain) old else [])) = res"
  shows "(\<exists>a b. p2p_run P pe sfs src rfs dst a b None None res) \<and>
    (\<forall>a b e1 e2 rfs'. \<not> p2p_run P pe sfs src rfs dst a b e1 e2 rfs' \<or> e1 = None \<and> e2 = None \<and> rfs' = res)"
proof -
  note run = p2p_run_result [where rfs = rfs and dst = dst and sfs = sfs and src = src, OF assms(1-3), folded old_def acc_def,
      OF assms(6), unfolded res]
  then obtain a b rfs' where "p2p_run P pe sfs src rfs dst a b None None rfs'" by blast
  with run show ?thesis by blast
qed

section \<open>Whatever the peer sends\<close>

lemma recv_loop_inv:
  assumes "p2p_recv_loop P ctx key base cs fileSize idx recv inp content hashed cap = (e, out, content', hashed', recv', cap')"
    and "0 \<le> recv" "nat recv \<le> length content" "take (nat recv) content = hashed"
  shows "0 \<le> recv' \<and> nat recv' \<le> length content' \<and> take (nat recv') content' = hashed'"
  using assms
proof (induction P ctx key base cs fileSize idx recv inp content hashed cap arbitrary: out
    rule: p2p_recv_loop.induct)
  case (1 P ctx key base cs fileSize idx recv inp content hashed cap)
  have w: "nat (recv + int (length p)) \<le> length (write_at (nat recv) p content)"
    "take (nat (recv + int (length p))) (write_at (nat recv) p content) = hashed @ p" for p
    using 1(3-5) by (simp_all add: nat_add_distrib length_write_at take_write_at)
  show ?case
  proof (cases "ctx 0 \<or> length inp < 4 \<or> rd32 inp = 0 \<or> rd32 inp > of_int (cs + 16 + 16) \<or>
      length (drop 4 inp) < unat (rd32 inp)")
    case True
    then show ?thesis
      using 1(2-5) by (subst (asm) p2p_recv_loop.simps) (auto simp: Let_def split: if_splits)
  next
    case go: False
    show ?thesis
    proof (cases "p_open P key (p2p_chunkNonce base idx) (take (unat (rd32 inp)) (drop 4 inp))")
      case None
      then show ?thesis
        using 1(2-5) go by (subst (asm) p2p_recv_loop.simps) (auto simp: Let_def)
    next
      case (Some p)
      show ?thesis
      proof (cases "recv + int (length p) > fileSize \<or> \<not> can_write cap (be64 (of_int (recv + int (length p))))")
        case True
        then show ?thesis
          using 1(2-5) go Some w [of p]
          by (subst (asm) p2p_recv_loop.simps) (auto simp: Let_def split: if_splits)
      next
        case False
        obtain out2 where r: "p2p_recv_loop P (\<lambda>k. ctx (k + 1)) key base cs fileSize (idx + 1) (recv + int (length p))
            (drop (unat (rd32 inp)) (drop 4 inp)) (write_at (nat recv) p content) (hashed @ p)
            (after_write cap (be64 (of_int (recv + int (length p))))) = (e, out2, content', hashed', recv', cap')"
          using 1(2) go Some False
          by (subst (asm) p2p_recv_loop.simps) (auto simp: Let_def split: prod.splits)
        show ?thesis
          by (rule 1(1) [OF _ _ refl refl _ _ _ Some refl refl refl _ refl _ r]) (use go False w [of p] 1(3) in auto)
      qed
    qed
  qed
qed

lemma p2p_Receive_others:
  fixes dst q :: string and rfs rfs' :: fs
  assumes "p2p_Receive P ctx rnd rfs dst priv cap inp = (e, out, rfs')" "q \<noteq> dst"
  shows "rfs' q = rfs q"
  using assms by (auto simp: p2p_Receive_def Let_def split: if_splits sum.splits prod.splits option.splits)

text \<open>A receiver that succeeds has gone through the whole of \<^verbatim>\<open>Receive\<close>.\<close>

lemma p2p_Receive_None:
  fixes dst :: string and rfs rfs' :: fs
  assumes "p2p_Receive P ctx rnd rfs dst priv cap inp = (None, out, rfs')"
  defines "old \<equiv> (case rfs dst of None \<Rightarrow> [] | Some c \<Rightarrow> c)"
  obtains hl accepted content key rsp cap1 out1 content' hashed' recv' cap' fin where
    "hsLen \<le> length inp" "p2p_check_hello P (take hsLen inp) = Inr hl"
    "accepted = p2p_accepted (rfs dst) (hl_size hl) (hl_chunk hl)"
    "content = (if accepted > 0 then take (nat accepted) old else old)"
    "p2p_recv_loop P ctx key (hl_base hl) (hl_chunk hl) (hl_size hl) (of_int (accepted div hl_chunk hl)) accepted
       (drop hsLen inp) content (take (nat accepted) content) (after_write cap rsp) =
     (None, out1, content', hashed', recv', cap')"
    "p2p_recv_fin P (hl_size hl) (hl_hash hl) recv' hashed' cap' = (None, fin)"
    "rfs' = rfs(dst \<mapsto> content')"
proof (cases "p2p_check_hello P (take hsLen inp)")
  case (Inl e)
  then show ?thesis using assms(1) by (auto simp: p2p_Receive_def split: if_splits)
next
  case (Inr hl)
  define accepted where "accepted = p2p_accepted (rfs dst) (hl_size hl) (hl_chunk hl)"
  define content where "content = (if accepted > 0 then take (nat accepted) old else old)"
  obtain key rsp out1 content' hashed' recv' cap' fin where
    "hsLen \<le> length inp"
    "p2p_recv_loop P ctx key (hl_base hl) (hl_chunk hl) (hl_size hl) (of_int (accepted div hl_chunk hl)) accepted
       (drop hsLen inp) content (take (nat accepted) content) (after_write cap rsp) =
     (None, out1, content', hashed', recv', cap')"
    "p2p_recv_fin P (hl_size hl) (hl_hash hl) recv' hashed' cap' = (None, fin)"
    "rfs' = rfs(dst \<mapsto> content')"
    using assms(1) Inr
    by (auto simp: p2p_Receive_def Let_def accepted_def content_def old_def
        split: if_splits sum.splits prod.splits option.splits)
  then show ?thesis using that Inr accepted_def content_def by blast
qed

section \<open>Properties\<close>

text \<open>
  C10 The direct transfer, with nothing cancelled and a sound connection. When the destination holds no
  file, or one no longer than the source whose whole chunks are the source's (an interrupted transfer),
  then a run of sender and receiver exists, and in every run both report success and the destination
  ends as the source, byte for byte, whatever offset the receiver resumed from. Every other file of
  the receiver is as before.
\<close>

theorem p2p_transfer:
  fixes rfs :: fs and dst :: string
  assumes "peers_ok P pe" "sfs src = Some plain" "int (length plain) < 2 ^ 63"
    and "rfs dst = None \<or> rfs dst = Some part \<and> length part \<le> length plain \<and>
      (let acc = length part - length part mod nat (p2p_chunkSizeOf (pe_chunk pe)) in take acc part = take acc plain)"
  shows "(\<exists>a b. p2p_run P pe sfs src rfs dst a b None None (rfs(dst \<mapsto> plain))) \<and>
    (\<forall>a b e1 e2 rfs'. \<not> p2p_run P pe sfs src rfs dst a b e1 e2 rfs' \<or> e1 = None \<and> e2 = None \<and> rfs' = rfs(dst \<mapsto> plain))"
proof -
  define old where "old = (case rfs dst of None \<Rightarrow> [] | Some c \<Rightarrow> c)"
  define acc where "acc = nat (p2p_accepted (rfs dst) (int (length plain)) (p2p_chunkSizeOf (pe_chunk pe)))"
  have cs: "0 < p2p_chunkSizeOf (pe_chunk pe)"
    using chunkSizeOf_bounds(1) [of "pe_chunk pe"] by (simp add: p2p_MinChunkSize_def)
  have "acc = length part - length part mod nat (p2p_chunkSizeOf (pe_chunk pe))" if "rfs dst = Some part" "length part \<le> length plain"
    using that cs by (simp add: acc_def p2p_accepted_def Let_def nat_diff_distrib nat_mod_distrib zmod_le_nonneg_dividend)
  then have kept: "take acc old = take acc plain" and len: "length old \<le> length plain"
    using assms(4) by (auto simp: old_def Let_def acc_def p2p_accepted_def)
  have "rfs(dst \<mapsto> plain @ (if acc = 0 then drop (length plain) old else [])) = rfs(dst \<mapsto> plain)"
    using len by simp
  from p2p_run_to [where rfs = rfs and dst = dst and sfs = sfs and src = src, OF assms(1-3), folded old_def acc_def, OF kept this]
  show ?thesis .
qed

lemma sample_peers_ok:
  "peers_ok sample_prims \<lparr>pe_sseed = replicate 32 1, pe_rseed = replicate 32 2, pe_seph = replicate 32 3,
     pe_reph = replicate 32 4, pe_base = replicate 24 5, pe_hint = 0, pe_chunk = 0\<rparr>"
  using sample_aead_ok sample_dh_ok sample_sig_ok
  by (simp add: peers_ok_def) (simp add: sample_prims_def basepoint_def)

theorem p2p_transfer_witness:
  "\<exists>a b. p2p_run sample_prims \<lparr>pe_sseed = replicate 32 1, pe_rseed = replicate 32 2, pe_seph = replicate 32 3,
     pe_reph = replicate 32 4, pe_base = replicate 24 5, pe_hint = 0, pe_chunk = 0\<rparr> [''in'' \<mapsto> [1, 2, 3]] ''in''
     [''out'' \<mapsto> [9]] ''out'' a b None None [''out'' \<mapsto> [1, 2, 3]]"
proof -
  have "(let acc = length [9 :: byte] - length [9 :: byte] mod nat (p2p_chunkSizeOf 0)
      in take acc [9 :: byte] = take acc [1, 2, 3])"
    by (simp add: p2p_chunkSizeOf_def p2p_ChunkSize_def)
  then show ?thesis
    using p2p_transfer [OF sample_peers_ok, of "[''in'' \<mapsto> [1, 2, 3]]" "''in''" "[1, 2, 3]" "[''out'' \<mapsto> [9]]" "''out''" "[9]"]
    by simp
qed

text \<open>
  A destination that is longer than what is announced is neither kept nor truncated: the transfer
  is complete, both sides report success, and the file is the new content followed by the tail of the
  old one.
\<close>

theorem p2p_stale_tail:
  fixes rfs :: fs and dst :: string
  assumes "peers_ok P pe" "sfs src = Some plain" "int (length plain) < 2 ^ 63"
    and "rfs dst = Some old" "length plain < length old"
  shows "\<exists>a b. p2p_run P pe sfs src rfs dst a b None None (rfs(dst \<mapsto> plain @ drop (length plain) old)) \<and>
    plain @ drop (length plain) old \<noteq> plain"
proof -
  have acc: "nat (p2p_accepted (rfs dst) (int (length plain)) (p2p_chunkSizeOf (pe_chunk pe))) = 0"
    using assms(4,5) by (simp add: p2p_accepted_def Let_def)
  from p2p_run_to [where rfs = rfs and dst = dst and sfs = sfs and src = src, OF assms(1-3), unfolded acc, OF _ refl]
  show ?thesis using assms(4,5) by simp
qed

theorem p2p_stale_tail_witness:
  "\<exists>a b. p2p_run sample_prims \<lparr>pe_sseed = replicate 32 1, pe_rseed = replicate 32 2, pe_seph = replicate 32 3,
     pe_reph = replicate 32 4, pe_base = replicate 24 5, pe_hint = 0, pe_chunk = 0\<rparr> [''in'' \<mapsto> [1]] ''in''
     [''out'' \<mapsto> [7, 8, 9]] ''out'' a b None None [''out'' \<mapsto> [1, 8, 9]]"
  using p2p_stale_tail [OF sample_peers_ok, of "[''in'' \<mapsto> [1]]" "''in''" "[1]" "[''out'' \<mapsto> [7, 8, 9]]" "''out''" "[7, 8, 9]"]
  by simp

text \<open>
  C9 Whatever bytes arrive, whenever the context is cancelled and whenever the connection breaks: a
  receiver that reports success has checked a signature over the whole of the sender's first message,
  the file it leaves begins with the announced number of bytes, of the announced hash, and the bytes
  it kept from the file that was there are unchanged. Success or not, no other file is touched.
\<close>

theorem p2p_receive_sound:
  fixes rfs rfs' :: fs and dst :: string
  assumes "p2p_Receive P ctx rnd rfs dst priv cap inp = (e, out, rfs')"
  shows "(\<forall>q. q = dst \<or> rfs' q = rfs q) \<and>
    (e \<noteq> None \<or> (\<exists>hl content. p2p_check_hello P (take hsLen inp) = Inr hl \<and>
       p_verify P (take 32 (drop 5 inp)) (take (hsLen - 64) inp) (take 64 (drop (hsLen - 64) inp)) \<and>
       rfs' = rfs(dst \<mapsto> content) \<and> nat (hl_size hl) \<le> length content \<and>
       copy32 (p_sha256 P (take (nat (hl_size hl)) content)) = hl_hash hl))"
proof -
  have "\<exists>hl content. p2p_check_hello P (take hsLen inp) = Inr hl \<and>
       p_verify P (take 32 (drop 5 inp)) (take (hsLen - 64) inp) (take 64 (drop (hsLen - 64) inp)) \<and>
       rfs' = rfs(dst \<mapsto> content) \<and> nat (hl_size hl) \<le> length content \<and>
       copy32 (p_sha256 P (take (nat (hl_size hl)) content)) = hl_hash hl" if "e = None"
  proof -
    from assms [unfolded that] obtain hl accepted content key rsp cap1 out1 content' hashed' recv' cap' fin where
      hello: "p2p_check_hello P (take hsLen inp) = Inr hl"
      and acc: "accepted = p2p_accepted (rfs dst) (hl_size hl) (hl_chunk hl)"
        "content = (if accepted > 0 then take (nat accepted) (case rfs dst of None \<Rightarrow> [] | Some c \<Rightarrow> c)
          else case rfs dst of None \<Rightarrow> [] | Some c \<Rightarrow> c)"
      and loop: "p2p_recv_loop P ctx key (hl_base hl) (hl_chunk hl) (hl_size hl) (of_int (accepted div hl_chunk hl)) accepted
         (drop hsLen inp) content (take (nat accepted) content) (after_write cap rsp) =
       (None, out1, content', hashed', recv', cap')"
      and fin: "p2p_recv_fin P (hl_size hl) (hl_hash hl) recv' hashed' cap' = (None, fin)" "rfs' = rfs(dst \<mapsto> content')"
      by (rule p2p_Receive_None [where rfs = rfs and dst = dst and rfs' = rfs'])
    have hl: "p_verify P (take 32 (drop 5 inp)) (take (hsLen - 64) inp) (take 64 (drop (hsLen - 64) inp))"
      "0 \<le> hl_size hl" "0 < hl_chunk hl"
      using hello by (auto simp: p2p_check_hello_def Let_def hsLen_def p2p_MinChunkSize_def drop_take min_def split: if_splits)
    have "0 \<le> accepted" "nat accepted \<le> length content"
      using accepted_bounds(1,4) [OF hl(3,2), of "rfs dst"] by (auto simp: acc split: option.splits)
    from recv_loop_inv [OF loop this refl] hello fin hl(1) show ?thesis
      by (auto simp: p2p_recv_fin_def Let_def split: if_splits)
  qed
  then show ?thesis using p2p_Receive_others [OF assms] by (cases e) auto
qed

theorem p2p_receive_sound_witness:
  "\<exists>inp. fst (p2p_Receive sample_prims live_ctx (Some (replicate 32 4)) [''out'' \<mapsto> [9]] ''out''
      (replicate 32 2 @ replicate 32 2) None inp) = None \<and>
    p_verify sample_prims (take 32 (drop 5 inp)) (take (hsLen - 64) inp) (take 64 (drop (hsLen - 64) inp))"
proof -
  let ?pe = "\<lparr>pe_sseed = replicate 32 1, pe_rseed = replicate 32 2, pe_seph = replicate 32 3,
     pe_reph = replicate 32 4, pe_base = replicate 24 5, pe_hint = 0, pe_chunk = 0\<rparr>"
  obtain a b rfs' where "p2p_run sample_prims ?pe [''in'' \<mapsto> [1]] ''in'' [''out'' \<mapsto> [9]] ''out'' a b None None rfs'"
    using p2p_run_result [where rfs = "[''out'' \<mapsto> [9]]" and dst = "''out''" and P = sample_prims and sfs = "[''in'' \<mapsto> [1]]"
        and src = "''in''", OF sample_peers_ok]
    by (auto simp: p2p_accepted_def p2p_chunkSizeOf_def p2p_ChunkSize_def)
  then have r: "p2p_Receive sample_prims live_ctx (Some (replicate 32 4)) [''out'' \<mapsto> [9]] ''out''
      (replicate 32 2 @ replicate 32 2) None a = (None, b, rfs')"
    by (simp add: p2p_run_def pe_rpriv_def sample_prims_def)
  from p2p_receive_sound [where rfs = "[''out'' \<mapsto> [9]]" and dst = "''out''" and rfs' = rfs', OF r]
  have "p_verify sample_prims (take 32 (drop 5 a)) (take (hsLen - 64) a) (take 64 (drop (hsLen - 64) a))" by blast
  with r show ?thesis by (intro exI [of _ a]) simp
qed

end
