(* ===== verification/Dero.thy ===== *)
theory Dero
  imports Json Primitives
begin

text \<open>
  \<^verbatim>\<open>internal/dero/dero.go\<close>: names and addresses, and the JSON-RPC client for daemon and wallet. A
  reply is what \<^verbatim>\<open>http.Client\<close> gives: nothing (any transport failure), a body that cannot be read,
  or a body, given by the JSON value it spells (\<open>None\<close>: it is not JSON, the cut at 1 MiB included).
  Decoding into the structs of the source is written out after \<^verbatim>\<open>encoding/json\<close>: keys match without
  regard to case, the last of several members wins, \<^verbatim>\<open>null\<close> keeps what is there and a value of another
  type is an error. The status code of a reply is not looked at. The environment's state \<open>'w\<close> is
  threaded through the requests, so that what was sent can be read off it.
\<close>

section \<open>Replies and their decoding\<close>

text \<open>A JSON value as it is read. Numbers are their literals: \<^verbatim>\<open>encoding/json\<close> converts them when it
  knows the type of the field.\<close>

datatype rj =
    RjNull
  | RjBool bool
  | RjNum string
  | RjStr string
  | RjArr "rj list"
  | RjObj "(string \<times> rj) list"

datatype answer = AnsDown | AnsBroken | AnsBody "rj option"

record 'w rpc_env =
  env_url_ok :: "string \<Rightarrow> bool"
  env_post :: "string \<Rightarrow> string \<Rightarrow> 'w \<Rightarrow> answer \<times> 'w" \<comment> \<open>URL, body\<close>
  env_lower :: "string \<Rightarrow> string" \<comment> \<open>\<^verbatim>\<open>strings.ToLower\<close> of strings that are not ASCII\<close>
  env_fold :: "string \<Rightarrow> string" \<comment> \<open>their case folding\<close>

text \<open>\<^verbatim>\<open>strings.EqualFold\<close>.\<close>

definition fold_case :: "(string \<Rightarrow> string) \<Rightarrow> string \<Rightarrow> string" where
  "fold_case fld s = (if list_all is_ascii s then map ascii_lower s else fld s)"

definition equal_fold :: "(string \<Rightarrow> string) \<Rightarrow> string \<Rightarrow> string \<Rightarrow> bool" where
  "equal_fold fld s t \<longleftrightarrow> fold_case fld s = fold_case fld t"

text \<open>One field of a struct: its key and how a value is stored in it.\<close>

type_synonym 's field = "string \<times> (rj \<Rightarrow> 's \<Rightarrow> 's option)"

fun dec_members :: "(string \<Rightarrow> string) \<Rightarrow> 's field list \<Rightarrow> (string \<times> rj) list \<Rightarrow> 's \<Rightarrow> 's option" where
  "dec_members fld fs [] s = Some s"
| "dec_members fld fs ((k, v) # ms) s =
     (case List.find (\<lambda>(f, _). equal_fold fld k f) fs of
        None \<Rightarrow> dec_members fld fs ms s
      | Some (_, store) \<Rightarrow> (case store v s of None \<Rightarrow> None | Some s' \<Rightarrow> dec_members fld fs ms s'))"

definition dec_struct :: "(string \<Rightarrow> string) \<Rightarrow> 's field list \<Rightarrow> 's \<Rightarrow> rj \<Rightarrow> 's option" where
  "dec_struct fld fs s v =
     (case v of RjNull \<Rightarrow> Some s | RjObj ms \<Rightarrow> dec_members fld fs ms s | _ \<Rightarrow> None)"

definition dec_str :: "string \<Rightarrow> rj \<Rightarrow> string option" where
  "dec_str old v = (case v of RjNull \<Rightarrow> Some old | RjStr s \<Rightarrow> Some s | _ \<Rightarrow> None)"

definition dec_bool :: "bool \<Rightarrow> rj \<Rightarrow> bool option" where
  "dec_bool old v = (case v of RjNull \<Rightarrow> Some old | RjBool b \<Rightarrow> Some b | _ \<Rightarrow> None)"

definition dec_int :: "int \<Rightarrow> rj \<Rightarrow> int option" where
  "dec_int old v = (case v of RjNull \<Rightarrow> Some old | RjNum lit \<Rightarrow> parse_int lit | _ \<Rightarrow> None)"

definition parse_uint :: "string \<Rightarrow> u64 option" where
  "parse_uint lit =
     (case digits_val 0 lit of
        None \<Rightarrow> None
      | Some n \<Rightarrow> if lit = [] \<or> 2 ^ 64 \<le> n then None else Some (of_nat n))"

definition dec_uint :: "u64 \<Rightarrow> rj \<Rightarrow> u64 option" where
  "dec_uint old v = (case v of RjNull \<Rightarrow> Some old | RjNum lit \<Rightarrow> parse_uint lit | _ \<Rightarrow> None)"

section \<open>Names and addresses\<close>

definition MinConfirmations :: u64 where
  "MinConfirmations = 10"

definition rpcNotFoundCode :: int where
  "rpcNotFoundCode = - 32004"

definition dero_NormalizeName :: "(string \<Rightarrow> string) \<Rightarrow> string \<Rightarrow> string" where
  "dero_NormalizeName uni name = to_lower uni (trim_space name)"

definition name_char :: "char \<Rightarrow> bool" where
  "name_char c \<longleftrightarrow> is_lower c \<or> is_digit c \<or> c = CHR ''-''"

text \<open>The regular expression \<^verbatim>\<open>^[a-z0-9-]{1,64}\.dero$\<close>.\<close>

definition namePattern :: "string \<Rightarrow> bool" where
  "namePattern s \<longleftrightarrow>
     has_suffix ''.dero'' s \<and>
     (let body = take (length s - 5) s in 1 \<le> length body \<and> length body \<le> 64 \<and> list_all name_char body)"

definition dero_ValidateName :: "(string \<Rightarrow> string) \<Rightarrow> string \<Rightarrow> bool" where
  "dero_ValidateName uni s \<longleftrightarrow> namePattern (dero_NormalizeName uni s)"

definition is_alnum :: "char \<Rightarrow> bool" where
  "is_alnum c \<longleftrightarrow> is_digit c \<or> is_lower c \<or> is_upper c"

definition dero_ValidateAddress :: "string \<Rightarrow> bool" where
  "dero_ValidateAddress addr =
     (let a = trim_space addr in
      if \<not> has_prefix ''dero1'' a then False
      else if length a < 60 \<or> length a > 128 then False
      else list_all is_alnum a)"

section \<open>The RPC envelope\<close>

datatype dero_err =
    DeOffline | DeTxNotFound | DeNameNotFound string | DeInvalidName string | DeInvalidAddress string
  | DeBuild string | DeRead string | DeDecode string | DeRpc int string | DeDaemonAddress string
  | DeEmptyMessage | DeBadSignature | DeBadPublicKey | DeZeroAmount | DeEmptyTxHash | DeEmptyTxid

definition dero_IsOffline :: "dero_err \<Rightarrow> bool" where
  "dero_IsOffline e \<longleftrightarrow> e = DeOffline"

record rpc_response =
  ev_result :: "rj option"
  ev_error :: "(int \<times> string) option"

definition rpc_error_fields :: "(int \<times> string) field list" where
  "rpc_error_fields =
     [(''code'', \<lambda>v (c, m). map_option (\<lambda>c'. (c', m)) (dec_int c v)),
      (''message'', \<lambda>v (c, m). map_option (\<lambda>m'. (c, m')) (dec_str m v))]"

definition rpc_response_fields :: "(string \<Rightarrow> string) \<Rightarrow> rpc_response field list" where
  "rpc_response_fields fld =
     [(''jsonrpc'', \<lambda>v s. map_option (\<lambda>_. s) (dec_str [] v)),
      (''id'', \<lambda>v s. Some s),
      (''result'', \<lambda>v s. Some (s\<lparr>ev_result := Some v\<rparr>)),
      (''error'', \<lambda>v s. if v = RjNull then Some (s\<lparr>ev_error := None\<rparr>)
         else map_option (\<lambda>e. s\<lparr>ev_error := Some e\<rparr>)
           (dec_struct fld rpc_error_fields (case ev_error s of None \<Rightarrow> (0, []) | Some e \<Rightarrow> e) v))]"

definition rpc_request :: "string \<Rightarrow> json \<Rightarrow> string" where
  "rpc_request meth params =
     json_print (JsObj [(''jsonrpc'', JsStr ''2.0''), (''id'', JsStr ''ghostdrop''),
       (''method'', JsStr meth), (''params'', params)])"

definition trim_slashes :: "string \<Rightarrow> string" where
  "trim_slashes s = rev (dropWhile (\<lambda>c. c = CHR ''/'') (rev s))"

definition dero_rpcURL :: "string \<Rightarrow> string" where
  "dero_rpcURL endpoint =
     (let u = trim_slashes (trim_space endpoint) in if has_suffix ''/json_rpc'' u then u else u @ ''/json_rpc'')"

text \<open>\<^verbatim>\<open>call\<close>: the raw result, if the envelope has one.\<close>

definition dero_call ::
  "'w rpc_env \<Rightarrow> string \<Rightarrow> string \<Rightarrow> json \<Rightarrow> 'w \<Rightarrow> (dero_err + rj option) \<times> 'w" where
  "dero_call env endpoint meth params w =
     (if \<not> env_url_ok env (dero_rpcURL endpoint) then (Inl (DeBuild meth), w)
      else case env_post env (dero_rpcURL endpoint) (rpc_request meth params) w of
             (AnsDown, w') \<Rightarrow> (Inl DeOffline, w')
           | (AnsBroken, w') \<Rightarrow> (Inl (DeRead meth), w')
           | (AnsBody None, w') \<Rightarrow> (Inl (DeDecode meth), w')
           | (AnsBody (Some v), w') \<Rightarrow>
               (case dec_struct (env_fold env) (rpc_response_fields (env_fold env)) \<lparr>ev_result = None, ev_error = None\<rparr> v of
                  None \<Rightarrow> (Inl (DeDecode meth), w')
                | Some r \<Rightarrow>
                    (case ev_error r of
                       Some (c, msg) \<Rightarrow> (Inl (DeRpc c msg), w')
                     | None \<Rightarrow> (Inr (ev_result r), w'))))"

text \<open>\<^verbatim>\<open>json.Unmarshal\<close> of the raw result. A result that is missing is the empty text, which is not
  JSON.\<close>

definition dec_result :: "(string \<Rightarrow> string) \<Rightarrow> 's field list \<Rightarrow> 's \<Rightarrow> rj option \<Rightarrow> 's option" where
  "dec_result fld fs s raw = (case raw of None \<Rightarrow> None | Some v \<Rightarrow> dec_struct fld fs s v)"

section \<open>The calls\<close>

definition info_fields :: "(string \<times> u64) field list" where
  "info_fields =
     [(''status'', \<lambda>v (s, h). map_option (\<lambda>s'. (s', h)) (dec_str s v)),
      (''height'', \<lambda>v (s, h). map_option (\<lambda>h'. (s, h')) (dec_uint h v))]"

definition dero_GetInfo :: "'w rpc_env \<Rightarrow> string \<Rightarrow> 'w \<Rightarrow> (dero_err + string \<times> u64) \<times> 'w" where
  "dero_GetInfo env endpoint w =
     (case dero_call env endpoint ''get_info'' (JsObj []) w of
        (Inl e, w') \<Rightarrow> (Inl e, w')
      | (Inr raw, w') \<Rightarrow>
          (case dec_result (env_fold env) info_fields ([], 0) raw of
             None \<Rightarrow> (Inl (DeDecode ''get_info''), w')
           | Some info \<Rightarrow> (Inr info, w')))"

definition name_fields :: "(string \<times> bool) field list" where
  "name_fields =
     [(''address'', \<lambda>v (a, b). map_option (\<lambda>a'. (a', b)) (dec_str a v)),
      (''verified'', \<lambda>v (a, b). map_option (\<lambda>b'. (a, b')) (dec_bool b v))]"

definition dero_ResolveNameOrAddress ::
  "'w rpc_env \<Rightarrow> string \<Rightarrow> string \<Rightarrow> 'w \<Rightarrow> (dero_err + string \<times> bool) \<times> 'w" where
  "dero_ResolveNameOrAddress env endpoint nameOrAddr w =
     (let inp = trim_space nameOrAddr in
      if dero_ValidateAddress inp then (Inr (inp, False), w)
      else let norm = dero_NormalizeName (env_lower env) inp in
        if \<not> dero_ValidateName (env_lower env) norm then (Inl (DeInvalidName nameOrAddr), w)
        else (case dero_call env endpoint ''resolve_name'' (JsObj [(''name'', JsStr norm)]) w of
                (Inl e, w') \<Rightarrow>
                  (case e of
                     DeRpc c msg \<Rightarrow> (Inl (if c = rpcNotFoundCode then DeNameNotFound norm else e), w')
                   | _ \<Rightarrow> (Inl e, w'))
              | (Inr raw, w') \<Rightarrow>
                  (case dec_result (env_fold env) name_fields ([], False) raw of
                     None \<Rightarrow> (Inl (DeDecode ''resolve_name''), w')
                   | Some (address, verified) \<Rightarrow>
                       if \<not> dero_ValidateAddress address then (Inl (DeDaemonAddress norm), w')
                       else (Inr (address, verified), w'))))"

definition version_fields :: "(string \<times> string) field list" where
  "version_fields =
     [(''status'', \<lambda>v (s, u). map_option (\<lambda>s'. (s', u)) (dec_str s v)),
      (''version'', \<lambda>v (s, u). map_option (\<lambda>u'. (s, u')) (dec_str u v))]"

definition dero_WalletStatus :: "'w rpc_env \<Rightarrow> string \<Rightarrow> 'w \<Rightarrow> (dero_err + bool) \<times> 'w" where
  "dero_WalletStatus env endpoint w =
     (case dero_call env endpoint ''get_version'' (JsObj []) w of
        (Inl e, w') \<Rightarrow> (Inl e, w')
      | (Inr raw, w') \<Rightarrow>
          (case dec_result (env_fold env) version_fields ([], []) raw of
             None \<Rightarrow> (Inl (DeDecode ''get_version''), w')
           | Some _ \<Rightarrow> (Inr True, w')))"

definition sign_fields :: "(string \<times> string) field list" where
  "sign_fields =
     [(''signature'', \<lambda>v (s, p). map_option (\<lambda>s'. (s', p)) (dec_str s v)),
      (''public_key'', \<lambda>v (s, p). map_option (\<lambda>p'. (s, p')) (dec_str p v))]"

definition hex_of_length :: "nat \<Rightarrow> string \<Rightarrow> bool" where
  "hex_of_length n s = (case hex_decode (trim_space s) of None \<Rightarrow> False | Some b \<Rightarrow> length b = n)"

definition dero_SignWithWallet ::
  "'w rpc_env \<Rightarrow> string \<Rightarrow> bytes \<Rightarrow> 'w \<Rightarrow> (dero_err + string \<times> string) \<times> 'w" where
  "dero_SignWithWallet env endpoint msg w =
     (if msg = [] then (Inl DeEmptyMessage, w)
      else case dero_call env endpoint ''sign_data'' (JsObj [(''data'', JsStr (hex_encode msg))]) w of
             (Inl e, w') \<Rightarrow> (Inl e, w')
           | (Inr raw, w') \<Rightarrow>
               (case dec_result (env_fold env) sign_fields ([], []) raw of
                  None \<Rightarrow> (Inl (DeDecode ''sign_data''), w')
                | Some (signature, pub) \<Rightarrow>
                    if \<not> hex_of_length 64 signature then (Inl DeBadSignature, w')
                    else if \<not> hex_of_length 32 pub then (Inl DeBadPublicKey, w')
                    else (Inr (signature, pub), w')))"

definition dero_VerifyWithPub :: "prims \<Rightarrow> string \<Rightarrow> bytes \<Rightarrow> bytes \<Rightarrow> bool" where
  "dero_VerifyWithPub P pubHex msg sig =
     (case hex_decode (trim_space pubHex) of
        None \<Rightarrow> False
      | Some pub \<Rightarrow> if length pub \<noteq> 32 \<or> length sig \<noteq> 64 then False else p_verify P pub msg sig)"

definition transfer_params :: "string \<Rightarrow> u64 \<Rightarrow> u64 \<Rightarrow> json" where
  "transfer_params dest amount fee =
     JsObj [(''destinations'', JsArr [JsObj [(''address'', JsStr dest), (''amount'', JsInt (uint amount))]]),
            (''fee'', JsInt (uint fee))]"

definition dero_TransferWithWallet ::
  "'w rpc_env \<Rightarrow> string \<Rightarrow> string \<Rightarrow> u64 \<Rightarrow> u64 \<Rightarrow> 'w \<Rightarrow> (dero_err + string) \<times> 'w" where
  "dero_TransferWithWallet env endpoint dest0 amount fee w =
     (let dest = trim_space dest0 in
      if \<not> dero_ValidateAddress dest then (Inl (DeInvalidAddress dest), w)
      else if amount = 0 then (Inl DeZeroAmount, w)
      else case dero_call env endpoint ''transfer'' (transfer_params dest amount fee) w of
             (Inl e, w') \<Rightarrow> (Inl e, w')
           | (Inr raw, w') \<Rightarrow>
               (case dec_result (env_fold env) [(''tx_hash'', \<lambda>v s. dec_str s v)] [] raw of
                  None \<Rightarrow> (Inl (DeDecode ''transfer''), w')
                | Some txHash \<Rightarrow> if trim_space txHash = [] then (Inl DeEmptyTxHash, w') else (Inr txHash, w')))"

record tx_info =
  tx_Txid :: string
  tx_Address :: string
  tx_Amount :: u64
  tx_Confirmations :: u64

definition tx_fields :: "tx_info field list" where
  "tx_fields =
     [(''txid'', \<lambda>v t. map_option (\<lambda>x. t\<lparr>tx_Txid := x\<rparr>) (dec_str (tx_Txid t) v)),
      (''address'', \<lambda>v t. map_option (\<lambda>x. t\<lparr>tx_Address := x\<rparr>) (dec_str (tx_Address t) v)),
      (''amount'', \<lambda>v t. map_option (\<lambda>x. t\<lparr>tx_Amount := x\<rparr>) (dec_uint (tx_Amount t) v)),
      (''confirmations'', \<lambda>v t. map_option (\<lambda>x. t\<lparr>tx_Confirmations := x\<rparr>) (dec_uint (tx_Confirmations t) v))]"

definition tx_zero :: tx_info where
  "tx_zero = \<lparr>tx_Txid = [], tx_Address = [], tx_Amount = 0, tx_Confirmations = 0\<rparr>"

definition dero_CheckPayment ::
  "'w rpc_env \<Rightarrow> string \<Rightarrow> string \<Rightarrow> string \<Rightarrow> u64 \<Rightarrow> 'w \<Rightarrow> (dero_err + bool) \<times> 'w" where
  "dero_CheckPayment env endpoint txid0 address minAmount w =
     (let txid = trim_space txid0 in
      if txid = [] then (Inl DeEmptyTxid, w)
      else case dero_call env endpoint ''get_transaction'' (JsObj [(''txid'', JsStr txid)]) w of
             (Inl e, w') \<Rightarrow>
               (case e of
                  DeRpc c msg \<Rightarrow> (Inl (if c = rpcNotFoundCode then DeTxNotFound else e), w')
                | _ \<Rightarrow> (Inl e, w'))
           | (Inr raw, w') \<Rightarrow>
               (case dec_result (env_fold env) tx_fields tx_zero raw of
                  None \<Rightarrow> (Inl (DeDecode ''get_transaction''), w')
                | Some t \<Rightarrow>
                    if \<not> equal_fold (env_fold env) (trim_space (tx_Address t)) (trim_space address) then (Inr False, w')
                    else if tx_Amount t < minAmount then (Inr False, w')
                    else if tx_Confirmations t < MinConfirmations then (Inr False, w')
                    else (Inr True, w')))"


section \<open>What the calls do\<close>

text \<open>A call posts one request, or none.\<close>

definition posted :: "'w rpc_env \<Rightarrow> string \<Rightarrow> string \<Rightarrow> json \<Rightarrow> 'w \<Rightarrow> answer \<times> 'w" where
  "posted env endpoint meth params w = env_post env (dero_rpcURL endpoint) (rpc_request meth params) w"

text \<open>The struct a reply decodes to under these fields, when the reply is an envelope without an error.\<close>

definition reply_gives :: "'w rpc_env \<Rightarrow> 's field list \<Rightarrow> 's \<Rightarrow> rj \<Rightarrow> 's option" where
  "reply_gives env fs s v =
     (case dec_struct (env_fold env) (rpc_response_fields (env_fold env)) \<lparr>ev_result = None, ev_error = None\<rparr> v of
        None \<Rightarrow> None
      | Some r \<Rightarrow> if ev_error r = None then dec_result (env_fold env) fs s (ev_result r) else None)"

lemma dero_call_sends:
  assumes "dero_call env endpoint meth params w = (r, w')"
  shows "w' = w \<or> w' = snd (posted env endpoint meth params w)"
  using assms
  by (auto simp: dero_call_def posted_def split: if_splits prod.splits answer.splits option.splits)

lemma dero_call_decodes:
  "(\<exists>raw. dero_call env endpoint meth params w = (Inr raw, w') \<and> dec_result (env_fold env) fs s raw = Some t) \<longleftrightarrow>
   env_url_ok env (dero_rpcURL endpoint) \<and>
   (\<exists>v. posted env endpoint meth params w = (AnsBody (Some v), w') \<and> reply_gives env fs s v = Some t)"
  by (auto simp: dero_call_def posted_def reply_gives_def split: if_splits prod.splits answer.splits option.splits)

text \<open>A payment is confirmed by a reply that names the address, enough money and enough
  confirmations, and by nothing else.\<close>

definition paid_reply :: "'w rpc_env \<Rightarrow> string \<Rightarrow> u64 \<Rightarrow> rj \<Rightarrow> bool" where
  "paid_reply env address minAmount v =
     (case reply_gives env tx_fields tx_zero v of
        None \<Rightarrow> False
      | Some t \<Rightarrow> equal_fold (env_fold env) (trim_space (tx_Address t)) (trim_space address) \<and>
          minAmount \<le> tx_Amount t \<and> MinConfirmations \<le> tx_Confirmations t)"

lemma CheckPayment_True:
  "dero_CheckPayment env endpoint txid address minAmount w = (Inr True, w') \<longleftrightarrow>
   trim_space txid \<noteq> [] \<and> env_url_ok env (dero_rpcURL endpoint) \<and>
   (\<exists>v. posted env endpoint ''get_transaction'' (JsObj [(''txid'', JsStr (trim_space txid))]) w = (AnsBody (Some v), w') \<and>
     paid_reply env address minAmount v)"
  (is "?check \<longleftrightarrow> ?paid")
proof -
  let ?call = "dero_call env endpoint ''get_transaction'' (JsObj [(''txid'', JsStr (trim_space txid))]) w"
  have "?check \<longleftrightarrow> trim_space txid \<noteq> [] \<and> (\<exists>t. (\<exists>raw. ?call = (Inr raw, w') \<and>
      dec_result (env_fold env) tx_fields tx_zero raw = Some t) \<and>
      equal_fold (env_fold env) (trim_space (tx_Address t)) (trim_space address) \<and>
      minAmount \<le> tx_Amount t \<and> MinConfirmations \<le> tx_Confirmations t)"
    by (auto simp: dero_CheckPayment_def Let_def split: prod.splits sum.splits option.splits dero_err.splits if_splits)
  also have "\<dots> \<longleftrightarrow> ?paid"
    unfolding dero_call_decodes by (auto simp: paid_reply_def split: option.splits)
  finally show ?thesis .
qed

lemma CheckPayment_sends:
  assumes "dero_CheckPayment env endpoint txid address minAmount w = (r, w')"
  shows "w' = w \<or> w' = snd (posted env endpoint ''get_transaction'' (JsObj [(''txid'', JsStr (trim_space txid))]) w)"
  using assms dero_call_sends
  by (fastforce simp: dero_CheckPayment_def Let_def split: prod.splits sum.splits option.splits dero_err.splits if_splits)

text \<open>An address is ASCII without spaces at its ends, once trimmed.\<close>

lemma ValidateAddress_ascii:
  assumes "dero_ValidateAddress a"
  shows "list_all is_ascii (trim_space a)" "dero_ValidateAddress (trim_space a)"
proof -
  have "is_alnum c \<Longrightarrow> is_ascii c" for c
    by (auto simp: is_alnum_def is_ascii_def is_digit_def is_lower_def is_upper_def)
  then show "list_all is_ascii (trim_space a)" "dero_ValidateAddress (trim_space a)"
    using assms by (auto simp: dero_ValidateAddress_def Let_def list_all_iff split: if_splits)
qed

text \<open>The body of a transfer says what is to be paid, to whom: it can be read in one way only.\<close>

lemma transfer_request_unique:
  assumes "list_all is_ascii d1" "list_all is_ascii d2"
    and "rpc_request ''transfer'' (transfer_params d1 a1 f1) = rpc_request ''transfer'' (transfer_params d2 a2 f2)"
  shows "d1 = d2 \<and> a1 = a2 \<and> f1 = f2"
proof -
  let ?body = "\<lambda>d a f. JsObj [(''jsonrpc'', JsStr ''2.0''), (''id'', JsStr ''ghostdrop''),
       (''method'', JsStr ''transfer''), (''params'', transfer_params d a f)]"
  have "json_ok (?body d1 a1 f1)" "json_ok (?body d2 a2 f2)"
    using assms(1,2) by (simp_all add: transfer_params_def is_ascii_def)
  note iffD1 [OF json_print_inj [OF this] assms(3) [unfolded rpc_request_def]]
  then show ?thesis by (simp add: transfer_params_def word_uint_eq_iff)
qed

end
