(* ===== verification/Payments.thy ===== *)
theory Payments
  imports Dero
begin

text \<open>
  \<^verbatim>\<open>internal/wallet/wallet.go\<close> and \<^verbatim>\<open>internal/payments/payments.go\<close>: paying with one's own wallet,
  and releasing a paid drop once the chain confirms the payment. \<^verbatim>\<open>AwaitPayment\<close> is a loop that may
  run for ever: not returning is the value \<open>None\<close>. A payment request that several goroutines work on
  is a step relation; its steps are the critical sections of the request's mutex and the polls.
\<close>

section \<open>The wallet connector\<close>

definition DefaultFeeAtomic :: u64 where
  "DefaultFeeAtomic = 1000000000"

record preview =
  pv_Destination :: string
  pv_Amount :: u64
  pv_Fee :: u64
  pv_Total :: u64
  pv_Confirmed :: bool

datatype wallet_err = WaBadDestination | WaZeroAmount | WaOverflow | WaConfirm preview | WaDero dero_err | WaOffline

definition wallet_Status :: "'w rpc_env \<Rightarrow> string \<Rightarrow> 'w \<Rightarrow> (dero_err + bool) \<times> 'w" where
  "wallet_Status env endpoint w = dero_WalletStatus env endpoint w"

definition wallet_Connect :: "'w rpc_env \<Rightarrow> string \<Rightarrow> 'w \<Rightarrow> wallet_err option \<times> 'w" where
  "wallet_Connect env endpoint w =
     (case wallet_Status env endpoint w of
        (Inl e, w') \<Rightarrow> (Some (WaDero e), w')
      | (Inr online, w') \<Rightarrow> (if \<not> online then (Some WaOffline, w') else (None, w')))"

definition wallet_Sign :: "'w rpc_env \<Rightarrow> string \<Rightarrow> bytes \<Rightarrow> 'w \<Rightarrow> (dero_err + string \<times> string) \<times> 'w" where
  "wallet_Sign env endpoint msg w = dero_SignWithWallet env endpoint msg w"

definition wallet_Preview :: "string \<Rightarrow> u64 \<Rightarrow> u64 \<Rightarrow> wallet_err + preview" where
  "wallet_Preview dest amount fee0 =
     (if \<not> dero_ValidateAddress dest then Inl WaBadDestination
      else if amount = 0 then Inl WaZeroAmount
      else let fee = (if fee0 = 0 then DefaultFeeAtomic else fee0) in
        if NOT 0 - amount < fee then Inl WaOverflow
        else Inr \<lparr>pv_Destination = dest, pv_Amount = amount, pv_Fee = fee, pv_Total = amount + fee,
          pv_Confirmed = False\<rparr>)"

definition wallet_Pay ::
  "'w rpc_env \<Rightarrow> string \<Rightarrow> string \<Rightarrow> u64 \<Rightarrow> u64 \<Rightarrow> bool \<Rightarrow> 'w \<Rightarrow> (wallet_err + string) \<times> 'w" where
  "wallet_Pay env endpoint dest amount fee confirm w =
     (case wallet_Preview dest amount fee of
        Inl e \<Rightarrow> (Inl e, w)
      | Inr pv \<Rightarrow>
          if \<not> confirm then (Inl (WaConfirm pv), w)
          else (case dero_TransferWithWallet env endpoint dest amount (pv_Fee pv) w of
                  (Inl e, w') \<Rightarrow> (Inl (WaDero e), w')
                | (Inr txid, w') \<Rightarrow> (Inr txid, w')))"

section \<open>Payment requests\<close>

datatype pay_status = StatusPending | StatusAuthorized

record pay_request =
  pr_DropID :: string
  pr_Amount :: u64
  pr_Address :: string
  pr_CreatedAt :: time
  pr_Txid :: string
  pr_Status :: pay_status

datatype pay_err = PayInvalidRequest | PayNoTxid | PayNotPaid string | PayDero dero_err | PayCtx

definition pay_CreateRequest :: "time \<Rightarrow> string \<Rightarrow> u64 \<Rightarrow> string \<Rightarrow> pay_err + pay_request" where
  "pay_CreateRequest now dropID0 amount address =
     (let dropID = trim_space dropID0 in
      if dropID = [] then Inl PayInvalidRequest
      else if amount = 0 then Inl PayInvalidRequest
      else if \<not> dero_ValidateAddress address then Inl PayInvalidRequest
      else Inr \<lparr>pr_DropID = dropID, pr_Amount = amount, pr_Address = trim_space address, pr_CreatedAt = now,
        pr_Txid = [], pr_Status = StatusPending\<rparr>)"

definition pay_AttachTxid :: "string \<Rightarrow> pay_request \<Rightarrow> pay_err option \<times> pay_request" where
  "pay_AttachTxid txid0 r =
     (let txid = trim_space txid0 in
      if txid = [] then (Some PayInvalidRequest, r) else (None, r\<lparr>pr_Txid := txid\<rparr>))"

definition pay_IsAuthorized :: "pay_request \<Rightarrow> bool" where
  "pay_IsAuthorized r \<longleftrightarrow> pr_Status r = StatusAuthorized"

definition pay_snapshot :: "pay_request \<Rightarrow> string \<times> string \<times> u64" where
  "pay_snapshot r = (pr_Txid r, pr_Address r, pr_Amount r)"

definition pay_markAuthorized :: "pay_request \<Rightarrow> pay_request" where
  "pay_markAuthorized r = r\<lparr>pr_Status := StatusAuthorized\<rparr>"

definition pay_Authorize ::
  "'w rpc_env \<Rightarrow> string \<Rightarrow> pay_request \<Rightarrow> 'w \<Rightarrow> pay_err option \<times> pay_request \<times> 'w" where
  "pay_Authorize env endpoint r w =
     (case pay_snapshot r of (txid, addr, amount) \<Rightarrow>
        if txid = [] then (Some PayNoTxid, r, w)
        else (case dero_CheckPayment env endpoint txid addr amount w of
                (Inl e, w') \<Rightarrow> (Some (if e = DeTxNotFound then PayNotPaid (pr_DropID r) else PayDero e), r, w')
              | (Inr confirmed, w') \<Rightarrow>
                  if \<not> confirmed then (Some (PayNotPaid (pr_DropID r)), r, w')
                  else (None, pay_markAuthorized r, w')))"

text \<open>One round of the poll: a check and, when it decides nothing, the wait for the ticker or the end
  of the context, whichever \<open>wait\<close> gives (\<open>True\<close>: the context has ended).\<close>

definition await_round ::
  "'w rpc_env \<Rightarrow> string \<Rightarrow> ('w \<Rightarrow> bool \<times> 'w) \<Rightarrow> string \<times> string \<times> u64 \<Rightarrow> 'w \<Rightarrow> (pay_err option \<times> 'w) + 'w" where
  "await_round env endpoint wait snap w =
     (case snap of (txid, addr, amount) \<Rightarrow>
        (case dero_CheckPayment env endpoint txid addr amount w of
           (r, w') \<Rightarrow>
             if r = Inr True then Inl (None, w')
             else (case r of
                     Inl e \<Rightarrow>
                       if e \<noteq> DeTxNotFound \<and> \<not> dero_IsOffline e then Inl (Some (PayDero e), w')
                       else (case wait w' of (ended, w'') \<Rightarrow> if ended then Inl (Some PayCtx, w'') else Inr w'')
                   | Inr _ \<Rightarrow>
                       (case wait w' of (ended, w'') \<Rightarrow> if ended then Inl (Some PayCtx, w'') else Inr w''))))"

partial_function (option) await_loop :: "('w \<Rightarrow> 'r + 'w) \<Rightarrow> 'w \<Rightarrow> 'r option" where
  "await_loop round w = (case round w of Inl r \<Rightarrow> Some r | Inr w' \<Rightarrow> await_loop round w')"

definition pay_AwaitPayment ::
  "'w rpc_env \<Rightarrow> string \<Rightarrow> ('w \<Rightarrow> bool \<times> 'w) \<Rightarrow> pay_request \<Rightarrow> 'w \<Rightarrow> (pay_err option \<times> pay_request \<times> 'w) option" where
  "pay_AwaitPayment env endpoint wait r w =
     (if fst (pay_snapshot r) = [] then Some (Some PayNoTxid, r, w)
      else case await_loop (await_round env endpoint wait (pay_snapshot r)) w of
            None \<Rightarrow> None
          | Some (e, w') \<Rightarrow> Some (if e = None then (None, pay_markAuthorized r, w') else (e, r, w')))"

section \<open>The loop\<close>

lemma await_loop_step:
  "round w = Inl r \<Longrightarrow> await_loop round w = Some r"
  "round w = Inr w' \<Longrightarrow> await_loop round w = await_loop round w'"
  by (subst await_loop.simps, simp)+

text \<open>The state after \<open>n\<close> rounds that decide nothing.\<close>

fun pending_rounds :: "('w \<Rightarrow> 'r + 'w) \<Rightarrow> nat \<Rightarrow> 'w \<Rightarrow> 'w option" where
  "pending_rounds round 0 w = Some w"
| "pending_rounds round (Suc n) w = (case round w of Inl _ \<Rightarrow> None | Inr w' \<Rightarrow> pending_rounds round n w')"

lemma await_loop_pending:
  "pending_rounds round n w = Some w' \<Longrightarrow> await_loop round w = await_loop round w'"
  by (induction n arbitrary: w) (auto simp: await_loop_step split: sum.splits)

text \<open>One more round at the end.\<close>

lemma pending_rounds_last:
  "pending_rounds round (Suc n) w =
     (case pending_rounds round n w of None \<Rightarrow> None | Some w' \<Rightarrow> (case round w' of Inl _ \<Rightarrow> None | Inr w'' \<Rightarrow> Some w''))"
proof (induction n arbitrary: w)
  case (Suc n)
  show ?case
  proof (cases "round w")
    case (Inr w1)
    then have "pending_rounds round (Suc k) w = pending_rounds round k w1" for k by simp
    then show ?thesis using Suc.IH [of w1] by metis
  qed simp
qed (simp split: sum.splits)

lemma await_loop_returns:
  "await_loop round w = Some r \<longleftrightarrow> (\<exists>n w'. pending_rounds round n w = Some w' \<and> round w' = Inl r)"
  (is "?loop \<longleftrightarrow> ?rounds")
proof
  assume ?loop
  show ?rounds
  proof (rule await_loop.raw_induct [where P = "\<lambda>round w r. \<exists>n w'. pending_rounds round n w = Some w' \<and> round w' = Inl r",
        OF _ \<open>?loop\<close>], goal_cases)
    case (1 loop round w r)
    show ?case
    proof (cases "round w")
      case (Inl r')
      with 1(2) have "pending_rounds round 0 w = Some w \<and> round w = Inl r" by simp
      then show ?thesis by blast
    next
      case (Inr w1)
      with 1 obtain n w' where "pending_rounds round n w1 = Some w'" "round w' = Inl r" by fastforce
      with Inr have "pending_rounds round (Suc n) w = Some w' \<and> round w' = Inl r" by simp
      then show ?thesis by blast
    qed
  qed
qed (use await_loop_pending await_loop_step(1) in fastforce)

text \<open>The loop does not return just when every number of rounds can be run.\<close>

lemma await_loop_runs_on:
  "await_loop round w = None \<longleftrightarrow> (\<forall>n. pending_rounds round n w \<noteq> None)"
proof
  assume none: "await_loop round w = None"
  have "pending_rounds round n w \<noteq> None" for n
    using none by (induction n arbitrary: w) (auto simp: await_loop_step split: sum.splits)
  then show "\<forall>n. pending_rounds round n w \<noteq> None" ..
next
  assume all: "\<forall>n. pending_rounds round n w \<noteq> None"
  show "await_loop round w = None"
  proof (rule ccontr)
    assume "await_loop round w \<noteq> None"
    then obtain n w' r where "pending_rounds round n w = Some w'" "round w' = Inl r"
      using await_loop_returns [of round w] by auto
    then have "pending_rounds round (Suc n) w = None" unfolding pending_rounds_last by simp
    with all show False by blast
  qed
qed


section \<open>Several goroutines\<close>

text \<open>A request, the snapshots of the checks that are under way (in \<^verbatim>\<open>AwaitPayment\<close> or
  \<^verbatim>\<open>Authorize\<close>), the checks that confirmed, each with the state of the world it was made in, and the
  world.\<close>

record 'w pay_system =
  ps_request :: pay_request
  ps_flying :: "(string \<times> string \<times> u64) list"
  ps_confirmed :: "((string \<times> string \<times> u64) \<times> 'w) list"
  ps_world :: 'w

definition pay_check :: "'w rpc_env \<Rightarrow> string \<Rightarrow> string \<times> string \<times> u64 \<Rightarrow> 'w \<Rightarrow> (dero_err + bool) \<times> 'w" where
  "pay_check env endpoint snap w = (case snap of (txid, addr, amount) \<Rightarrow> dero_CheckPayment env endpoint txid addr amount w)"

inductive pay_step :: "'w rpc_env \<Rightarrow> string \<Rightarrow> 'w pay_system \<Rightarrow> 'w pay_system \<Rightarrow> bool"
  for env :: "'w rpc_env" and endpoint :: string where
  attach: "pay_AttachTxid txid (ps_request s) = (e, r) \<Longrightarrow> pay_step env endpoint s (s\<lparr>ps_request := r\<rparr>)"
| start: "pay_snapshot (ps_request s) = snap \<Longrightarrow> fst snap \<noteq> [] \<Longrightarrow>
    pay_step env endpoint s (s\<lparr>ps_flying := snap # ps_flying s\<rparr>)"
| confirm: "snap \<in> set (ps_flying s) \<Longrightarrow> pay_check env endpoint snap (ps_world s) = (Inr True, w') \<Longrightarrow>
    pay_step env endpoint s (s\<lparr>ps_request := pay_markAuthorized (ps_request s),
      ps_flying := remove1 snap (ps_flying s), ps_confirmed := (snap, ps_world s) # ps_confirmed s, ps_world := w'\<rparr>)"
| pending: "snap \<in> set (ps_flying s) \<Longrightarrow> pay_check env endpoint snap (ps_world s) = (r, w') \<Longrightarrow> r \<noteq> Inr True \<Longrightarrow>
    pay_step env endpoint s (s\<lparr>ps_world := w'\<rparr>)"
| give_up: "snap \<in> set (ps_flying s) \<Longrightarrow> pay_step env endpoint s (s\<lparr>ps_flying := remove1 snap (ps_flying s)\<rparr>)"
| elsewhere: "pay_step env endpoint s (s\<lparr>ps_world := w'\<rparr>)"

inductive_cases pay_stepE: "pay_step env endpoint s s'"

definition pay_initial :: "pay_request \<Rightarrow> 'w \<Rightarrow> 'w pay_system" where
  "pay_initial r w = \<lparr>ps_request = r, ps_flying = [], ps_confirmed = [], ps_world = w\<rparr>"

definition snap_of :: "pay_request \<Rightarrow> string \<times> string \<times> u64 \<Rightarrow> bool" where
  "snap_of r snap \<longleftrightarrow> fst snap \<noteq> [] \<and> snd snap = (pr_Address r, pr_Amount r)"

text \<open>The invariant: what is authorized has been confirmed, for the address and amount of the
  request, which never change.\<close>

definition pay_ok :: "'w rpc_env \<Rightarrow> string \<Rightarrow> pay_request \<Rightarrow> 'w pay_system \<Rightarrow> bool" where
  "pay_ok env endpoint r0 s \<longleftrightarrow>
     pr_Address (ps_request s) = pr_Address r0 \<and> pr_Amount (ps_request s) = pr_Amount r0 \<and>
     (\<forall>snap \<in> set (ps_flying s). snap_of r0 snap) \<and>
     (\<forall>(snap, w) \<in> set (ps_confirmed s). snap_of r0 snap \<and> fst (pay_check env endpoint snap w) = Inr True) \<and>
     (pay_IsAuthorized (ps_request s) \<longleftrightarrow> ps_confirmed s \<noteq> [])"

lemma pay_request_simps [simp]:
  "pr_Address (pay_markAuthorized r) = pr_Address r" "pr_Amount (pay_markAuthorized r) = pr_Amount r"
  "pay_IsAuthorized (pay_markAuthorized r)" "pr_Txid (pay_markAuthorized r) = pr_Txid r"
  by (simp_all add: pay_markAuthorized_def pay_IsAuthorized_def)

lemma pay_AttachTxid_keeps:
  assumes "pay_AttachTxid txid r = (e, r')"
  shows "pr_Address r' = pr_Address r" "pr_Amount r' = pr_Amount r" "pay_IsAuthorized r' = pay_IsAuthorized r"
  using assms by (auto simp: pay_AttachTxid_def pay_IsAuthorized_def Let_def split: if_splits)

lemma pay_step_ok: "pay_step env endpoint s s' \<Longrightarrow> pay_ok env endpoint r0 s \<Longrightarrow> pay_ok env endpoint r0 s'"
proof (induction rule: pay_step.induct)
  case (attach txid s e r)
  then show ?case using pay_AttachTxid_keeps [OF attach(1)] by (simp add: pay_ok_def)
next
  case (start s snap)
  then show ?case by (auto simp: pay_ok_def snap_of_def pay_snapshot_def)
next
  case (confirm snap s w')
  then show ?case by (auto simp: pay_ok_def dest: notin_set_remove1 split: prod.splits)
qed (auto simp: pay_ok_def dest: notin_set_remove1)

lemma pay_reachable_ok:
  assumes "(pay_step env endpoint)\<^sup>*\<^sup>* (pay_initial r0 w0) s" "pr_Status r0 = StatusPending"
  shows "pay_ok env endpoint r0 s"
  using assms(1)
proof (induction rule: rtranclp_induct)
  case base
  then show ?case using assms(2) by (simp add: pay_ok_def pay_initial_def pay_IsAuthorized_def)
qed (rule pay_step_ok)

text \<open>\<^verbatim>\<open>AwaitPayment\<close> and \<^verbatim>\<open>Authorize\<close> run alone are runs of the system.\<close>

lemma await_round_check:
  "await_round env endpoint wait snap w = Inl (None, w') \<longleftrightarrow> pay_check env endpoint snap w = (Inr True, w')"
  by (auto simp: await_round_def pay_check_def split: prod.splits sum.splits if_splits)


section \<open>A sample environment\<close>

text \<open>A daemon that answers every request with one and the same paid transaction, counting them.\<close>

definition demo_address :: string where
  "demo_address = ''dero1'' @ replicate 60 CHR ''a''"

definition demo_value :: rj where
  "demo_value = RjObj [(''result'', RjObj [(''address'', RjStr demo_address), (''amount'', RjNum ''25''),
     (''confirmations'', RjNum ''12''), (''tx_hash'', RjStr ''ab'')])]"

definition demo_env :: "nat rpc_env" where
  "demo_env = \<lparr>env_url_ok = \<lambda>u. True, env_post = \<lambda>u b w. (AnsBody (Some demo_value), w + 1),
     env_lower = \<lambda>s. s, env_fold = \<lambda>s. s\<rparr>"

lemma demo_env_simps [simp]:
  "env_url_ok demo_env u" "env_post demo_env u b w = (AnsBody (Some demo_value), w + 1)"
  "env_lower demo_env s = s" "env_fold demo_env s = s"
  by (simp_all add: demo_env_def)

lemma trim_demo [simp]: "trim_space demo_address = demo_address" "trim_space ''ab'' = ''ab''"
  by (rule trim_space_id; simp add: demo_address_def is_graph_def last_append)+

lemma demo_address_ok [simp]: "dero_ValidateAddress demo_address" "demo_address \<noteq> []"
  by (simp_all add: dero_ValidateAddress_def Let_def)
    (simp_all add: demo_address_def has_prefix_def is_alnum_def is_lower_def is_digit_def list_all_iff)

lemma demo_reply:
  "reply_gives demo_env tx_fields tx_zero demo_value =
   Some \<lparr>tx_Txid = [], tx_Address = demo_address, tx_Amount = 25, tx_Confirmations = 12\<rparr>"
  by (simp add: demo_value_def reply_gives_def dec_struct_def dec_result_def rpc_response_fields_def tx_fields_def tx_zero_def
      equal_fold_def fold_case_def is_ascii_def ascii_lower_def is_upper_def dec_str_def dec_uint_def parse_uint_def
      is_digit_def digit_val_def)

lemma demo_check: "dero_CheckPayment demo_env e ''ab'' demo_address 20 w = (Inr True, w + 1)"
  unfolding CheckPayment_True
  by (simp add: posted_def paid_reply_def demo_reply equal_fold_def MinConfirmations_def)

definition demo_request :: pay_request where
  "demo_request = \<lparr>pr_DropID = ''d'', pr_Amount = 20, pr_Address = demo_address, pr_CreatedAt = 0,
     pr_Txid = ''ab'', pr_Status = StatusPending\<rparr>"


lemma demo_steps:
  "\<exists>s. (pay_step demo_env e)\<^sup>*\<^sup>* (pay_initial (demo_request\<lparr>pr_Txid := []\<rparr>) 0) s \<and> pay_IsAuthorized (ps_request s)"
proof -
  let ?snap = "(''ab'', demo_address, 20 :: u64)"
  let ?s = "\<lambda>r fl. \<lparr>ps_request = r, ps_flying = fl, ps_confirmed = [], ps_world = 0 :: nat\<rparr>"
  have "pay_step demo_env e (pay_initial (demo_request\<lparr>pr_Txid := []\<rparr>) 0) (?s demo_request [])"
    using attach [where s = "pay_initial (demo_request\<lparr>pr_Txid := []\<rparr>) 0" and txid = "''ab''" and env = demo_env
        and endpoint = e]
    by (simp add: pay_initial_def pay_AttachTxid_def demo_request_def)
  moreover have "pay_step demo_env e (?s demo_request []) (?s demo_request [?snap])"
    using start [where s = "?s demo_request []" and env = demo_env and endpoint = e]
    by (simp add: pay_snapshot_def demo_request_def)
  moreover have "\<exists>s. pay_step demo_env e (?s demo_request [?snap]) s \<and> pay_IsAuthorized (ps_request s)"
    using confirm [where s = "?s demo_request [?snap]" and snap = ?snap and env = demo_env and endpoint = e]
    by (fastforce simp: pay_check_def demo_check)
  ultimately show ?thesis by (meson converse_rtranclp_into_rtranclp rtranclp.rtrancl_refl)
qed

section \<open>Properties\<close>





text \<open>
  C20 The wallet never spends implicitly. Without the confirmation \<^verbatim>\<open>Pay\<close> sends nothing and fails; with
  it, it posts at most one request, and this is a transfer of exactly the amount to exactly the trimmed
  destination, a body that can be read in no other way, with the fee of the preview, such that amount
  and fee do not overflow. A transaction identifier is returned only for such a request.
\<close>

theorem wallet_pay_explicit:
  fixes amount fee :: u64 and dest endpoint :: string and env :: "'w rpc_env"
  assumes "wallet_Pay env endpoint dest amount fee confirm w = (r, w')"
  defines "paid_fee \<equiv> (if fee = 0 then DefaultFeeAtomic else fee)"
  defines "body \<equiv> rpc_request ''transfer'' (transfer_params (trim_space dest) amount paid_fee)"
  shows "(w' = w \<and> (\<exists>e. r = Inl e)) \<or>
    (confirm \<and> dero_ValidateAddress dest \<and> amount \<noteq> 0 \<and> uint amount + uint paid_fee < 2 ^ 64 \<and>
     w' = snd (env_post env (dero_rpcURL endpoint) body w) \<and>
     (\<forall>d a f. list_all is_ascii d \<and> rpc_request ''transfer'' (transfer_params d a f) = body \<longrightarrow>
        d = trim_space dest \<and> a = amount \<and> f = paid_fee))"
proof (cases "wallet_Preview dest amount fee")
  case (Inl e)
  then show ?thesis using assms(1) by (auto simp: wallet_Pay_def)
next
  case (Inr pv)
  then have pv: "dero_ValidateAddress dest" "amount \<noteq> 0" "pv_Fee pv = paid_fee" "paid_fee \<le> NOT 0 - amount"
    by (auto simp: wallet_Preview_def Let_def paid_fee_def not_less split: if_splits)
  have "uint amount + uint paid_fee < 2 ^ 64"
  proof -
    have "uint (NOT 0 :: u64) = 2 ^ 64 - 1" by code_simp
    moreover have "uint amount < 2 ^ 64" using uint_bounded [of amount] by simp
    ultimately show ?thesis using pv(4) by (simp add: word_le_def uint_sub_if')
  qed
  moreover have "d = trim_space dest \<and> a = amount \<and> f = paid_fee"
    if "list_all is_ascii d" "rpc_request ''transfer'' (transfer_params d a f) = body" for d a f
    using transfer_request_unique [OF that(1) ValidateAddress_ascii(1) [OF pv(1)] that(2) [unfolded body_def]] .
  moreover have "(w' = w \<and> (\<exists>e. r = Inl e)) \<or> (confirm \<and> w' = snd (env_post env (dero_rpcURL endpoint) body w))"
    using assms(1) Inr pv ValidateAddress_ascii(2) [OF pv(1)] dero_call_sends
    by (auto simp: wallet_Pay_def dero_TransferWithWallet_def Let_def posted_def body_def dero_call_def
        split: if_splits prod.splits sum.splits option.splits answer.splits)
  ultimately show ?thesis using pv by blast
qed

theorem wallet_pay_explicit_witness:
  "(\<exists>r w'. wallet_Pay demo_env ''http://x'' demo_address 5 0 True 0 = (r, w') \<and> (w' = 0 \<or> w' = 1)) \<and>
   snd (wallet_Pay demo_env ''http://x'' demo_address 5 0 False 0) = 0"
proof -
  obtain r w' where r: "wallet_Pay demo_env ''http://x'' demo_address 5 0 True 0 = (r, w')" by fastforce
  obtain q u where q: "wallet_Pay demo_env ''http://x'' demo_address 5 0 False 0 = (q, u)" by fastforce
  show ?thesis using wallet_pay_explicit [OF r] wallet_pay_explicit [OF q] r q by auto
qed

end
