(* ===== verification/Identity.thy ===== *)
theory Identity
  imports Payments "HOL-Library.List_Lexorder" "HOL-Library.Char_ord" "HOL-Library.Multiset"
begin

text \<open>
  \<^verbatim>\<open>internal/identity/identity.go\<close>: contacts, the block list and resolving an identity to an address.
  The contacts are a Go map from normalized display names, here a directory; the order in which
  \<^verbatim>\<open>range\<close> visits a map is not specified, so \<^verbatim>\<open>Resolve\<close> takes it as a parameter. The events given to
  the hooks are collected in a log. \<open>uni\<close> is \<^verbatim>\<open>strings.ToLower\<close> on strings that are not ASCII.
\<close>

section \<open>Contacts\<close>

definition TrustNone :: int where
  "TrustNone = 0"

definition TrustVerified :: int where
  "TrustVerified = 2"

definition trust_String :: "int \<Rightarrow> string" where
  "trust_String t = (if t = TrustVerified then ''verified'' else if t = 1 then ''known'' else ''none'')"

record contact =
  ct_Name :: string
  ct_DeroName :: string
  ct_Address :: string
  ct_Trust :: int
  ct_Notes :: string

datatype id_err = IdBlocked string | IdInvalid | IdExists string | IdNotFound string | IdNameNotFound string
  | IdLookup dero_err

definition contact_Validate :: "(string \<Rightarrow> string) \<Rightarrow> contact \<Rightarrow> id_err option" where
  "contact_Validate uni c =
     (if trim_space (ct_Name c) = [] then Some IdInvalid
      else if \<not> dero_ValidateAddress (ct_Address c) then Some IdInvalid
      else if ct_DeroName c \<noteq> [] \<and> \<not> dero_ValidateName uni (ct_DeroName c) then Some IdInvalid
      else if ct_Trust c < TrustNone \<or> ct_Trust c > TrustVerified then Some IdInvalid
      else None)"

definition normKey :: "(string \<Rightarrow> string) \<Rightarrow> string \<Rightarrow> string" where
  "normKey uni s = to_lower uni (trim_space s)"

datatype id_event = EventAdded contact | EventRemoved contact | EventTrusted contact | EventBlocked string
  | EventUnblocked string

section \<open>The store\<close>

record id_store =
  ids_contacts :: "contact dir"
  ids_blockedAddr :: "string set"
  ids_blockedName :: "string set"
  ids_emitted :: "id_event list"

definition ids_NewStore :: id_store where
  "ids_NewStore = \<lparr>ids_contacts = [], ids_blockedAddr = {}, ids_blockedName = {}, ids_emitted = []\<rparr>"

definition ids_emit :: "id_event \<Rightarrow> id_store \<Rightarrow> id_store" where
  "ids_emit e s = s\<lparr>ids_emitted := e # ids_emitted s\<rparr>"

definition ids_IsBlocked :: "(string \<Rightarrow> string) \<Rightarrow> id_store \<Rightarrow> string \<Rightarrow> bool" where
  "ids_IsBlocked uni s x =
     (let k = normKey uni x in
      if k = [] then False else k \<in> ids_blockedAddr s \<or> k \<in> ids_blockedName s)"

definition ids_Add :: "(string \<Rightarrow> string) \<Rightarrow> contact \<Rightarrow> id_store \<Rightarrow> id_err option \<times> id_store" where
  "ids_Add uni c s =
     (case contact_Validate uni c of
        Some e \<Rightarrow> (Some e, s)
      | None \<Rightarrow>
          if ids_IsBlocked uni s (ct_Address c) \<or> (ct_DeroName c \<noteq> [] \<and> ids_IsBlocked uni s (ct_DeroName c)) \<or>
            ids_IsBlocked uni s (ct_Name c)
          then (Some (IdBlocked (ct_Name c)), s)
          else let key = normKey uni (ct_Name c) in
            if dget (ids_contacts s) key \<noteq> None then (Some (IdExists (ct_Name c)), s)
            else (None, ids_emit (EventAdded c) (s\<lparr>ids_contacts := dput key c (ids_contacts s)\<rparr>)))"

definition ids_Get :: "(string \<Rightarrow> string) \<Rightarrow> string \<Rightarrow> id_store \<Rightarrow> id_err + contact" where
  "ids_Get uni name s =
     (case dget (ids_contacts s) (normKey uni name) of None \<Rightarrow> Inl (IdNotFound name) | Some c \<Rightarrow> Inr c)"

definition ids_Remove :: "(string \<Rightarrow> string) \<Rightarrow> string \<Rightarrow> id_store \<Rightarrow> id_err option \<times> id_store" where
  "ids_Remove uni name s =
     (case dget (ids_contacts s) (normKey uni name) of
        None \<Rightarrow> (Some (IdNotFound name), s)
      | Some c \<Rightarrow> (None, ids_emit (EventRemoved c) (s\<lparr>ids_contacts := ddel (normKey uni name) (ids_contacts s)\<rparr>)))"

definition ids_List :: "id_store \<Rightarrow> contact list" where
  "ids_List s = sort_key ct_Name (map snd (ids_contacts s))"

definition ids_SetTrust :: "(string \<Rightarrow> string) \<Rightarrow> string \<Rightarrow> int \<Rightarrow> id_store \<Rightarrow> id_err option \<times> id_store" where
  "ids_SetTrust uni name level s =
     (if level < TrustNone \<or> level > TrustVerified then (Some IdInvalid, s)
      else let key = normKey uni name in
        case dget (ids_contacts s) key of
          None \<Rightarrow> (Some (IdNotFound name), s)
        | Some c0 \<Rightarrow>
            (let c = c0\<lparr>ct_Trust := level\<rparr> in
             (None, ids_emit (EventTrusted c) (s\<lparr>ids_contacts := dput key c (ids_contacts s)\<rparr>))))"

definition ids_Block :: "(string \<Rightarrow> string) \<Rightarrow> string \<Rightarrow> id_store \<Rightarrow> id_store" where
  "ids_Block uni ident0 s =
     (let ident = trim_space ident0 in
      if ident = [] then s
      else ids_emit (EventBlocked ident)
        (if dero_ValidateAddress ident
         then s\<lparr>ids_blockedAddr := insert (normKey uni ident) (ids_blockedAddr s)\<rparr>
         else s\<lparr>ids_blockedName := insert (normKey uni ident) (ids_blockedName s)\<rparr>))"

definition ids_Unblock :: "(string \<Rightarrow> string) \<Rightarrow> string \<Rightarrow> id_store \<Rightarrow> id_store" where
  "ids_Unblock uni ident s =
     ids_emit (EventUnblocked ident)
       (s\<lparr>ids_blockedAddr := ids_blockedAddr s - {normKey uni ident},
          ids_blockedName := ids_blockedName s - {normKey uni ident}\<rparr>)"

definition ids_LocallyVerified :: "(string \<Rightarrow> string) \<Rightarrow> id_store \<Rightarrow> string \<Rightarrow> bool" where
  "ids_LocallyVerified uni s address =
     (let want = normKey uni address in
      if want = [] then False
      else list_ex (\<lambda>(_, c). normKey uni (ct_Address c) = want \<and> ct_Trust c = TrustVerified) (ids_contacts s))"

text \<open>\<^verbatim>\<open>Resolve\<close>: \<open>order\<close> is the order in which the map is visited; the lookup, if there is one,
  threads the state of the world.\<close>

definition ids_Resolve ::
  "(string \<Rightarrow> string) \<Rightarrow> (contact dir \<Rightarrow> contact dir) \<Rightarrow> (string \<Rightarrow> 'w \<Rightarrow> (dero_err + string \<times> bool) \<times> 'w) option \<Rightarrow>
    string \<Rightarrow> id_store \<Rightarrow> 'w \<Rightarrow> (id_err + string \<times> bool) \<times> 'w" where
  "ids_Resolve uni order lookup nameOrAddr s w =
     (let inp = trim_space nameOrAddr in
      if inp = [] then (Inl IdInvalid, w)
      else if ids_IsBlocked uni s inp then (Inl (IdBlocked inp), w)
      else if dero_ValidateAddress inp then (Inr (inp, ids_LocallyVerified uni s inp), w)
      else let norm = normKey uni inp in
        case List.find (\<lambda>(_, c). normKey uni (ct_DeroName c) = norm \<and> norm \<noteq> [] \<or> normKey uni (ct_Name c) = norm)
            (order (ids_contacts s)) of
          Some (_, hit) \<Rightarrow>
            if ids_IsBlocked uni s (ct_Address hit) then (Inl (IdBlocked inp), w)
            else (Inr (ct_Address hit, ct_Trust hit = TrustVerified), w)
        | None \<Rightarrow>
            (case lookup of
               None \<Rightarrow> (Inl (IdNameNotFound inp), w)
             | Some look \<Rightarrow>
                 (case look inp w of
                    (Inl e, w') \<Rightarrow> (Inl (IdLookup e), w')
                  | (Inr (addr, ver), w') \<Rightarrow>
                      if ids_IsBlocked uni s addr then (Inl (IdBlocked inp), w') else (Inr (addr, ver), w'))))"

section \<open>The invariant\<close>

text \<open>Every contact is valid and filed under its normalized name.\<close>

definition ids_ok :: "(string \<Rightarrow> string) \<Rightarrow> id_store \<Rightarrow> bool" where
  "ids_ok uni s \<longleftrightarrow> dir_ok (ids_contacts s) \<and>
     (\<forall>k c. dget (ids_contacts s) k = Some c \<longrightarrow> k = normKey uni (ct_Name c) \<and> contact_Validate uni c = None)"

datatype id_op = OpAdd contact | OpRemove string | OpSetTrust string int | OpBlock string | OpUnblock string

fun ids_apply :: "(string \<Rightarrow> string) \<Rightarrow> id_op \<Rightarrow> id_store \<Rightarrow> id_store" where
  "ids_apply uni (OpAdd c) s = snd (ids_Add uni c s)"
| "ids_apply uni (OpRemove name) s = snd (ids_Remove uni name s)"
| "ids_apply uni (OpSetTrust name level) s = snd (ids_SetTrust uni name level s)"
| "ids_apply uni (OpBlock x) s = ids_Block uni x s"
| "ids_apply uni (OpUnblock x) s = ids_Unblock uni x s"

lemma ids_emit_simps [simp]:
  "ids_contacts (ids_emit e s) = ids_contacts s" "ids_blockedAddr (ids_emit e s) = ids_blockedAddr s"
  "ids_blockedName (ids_emit e s) = ids_blockedName s" "ids_emitted (ids_emit e s) = e # ids_emitted s"
  by (simp_all add: ids_emit_def)

lemma contact_Validate_trust:
  "contact_Validate uni c = None \<Longrightarrow> TrustNone \<le> t \<Longrightarrow> t \<le> TrustVerified \<Longrightarrow> contact_Validate uni (c\<lparr>ct_Trust := t\<rparr>) = None"
  by (auto simp: contact_Validate_def split: if_splits)

lemma ids_apply_ok: "ids_ok uni s \<Longrightarrow> ids_ok uni (ids_apply uni x s)"
proof (induction x)
  case (OpAdd c)
  then show ?case by (auto simp: ids_ok_def ids_Add_def Let_def simp del: map_of_eq_Some_iff split: option.splits if_splits)
next
  case (OpRemove name)
  then show ?case by (auto simp: ids_ok_def ids_Remove_def simp del: map_of_eq_Some_iff split: option.splits if_splits)
next
  case (OpSetTrust name level)
  then show ?case
    using contact_Validate_trust by (auto simp: ids_ok_def ids_SetTrust_def Let_def simp del: map_of_eq_Some_iff split: option.splits if_splits)
qed (simp_all add: ids_ok_def ids_Block_def ids_Unblock_def Let_def)

lemma ids_reachable_ok: "ids_ok uni (fold (ids_apply uni) xs ids_NewStore)"
proof -
  have "ids_ok uni (fold (ids_apply uni) xs s)" if "ids_ok uni s" for s
    using that by (induction xs arbitrary: s) (simp_all add: ids_apply_ok)
  moreover have "ids_ok uni ids_NewStore" by (simp add: ids_ok_def ids_NewStore_def)
  ultimately show ?thesis by blast
qed

lemma normKey_trim [simp]: "normKey uni (trim_space s) = normKey uni s"
  by (simp add: normKey_def)

lemma IsBlocked_trim [simp]: "ids_IsBlocked uni s (trim_space x) = ids_IsBlocked uni s x"
  by (simp add: ids_IsBlocked_def)

lemma IsBlocked_Block:
  assumes "normKey uni x \<noteq> []"
  shows "ids_IsBlocked uni (ids_Block uni x s) y \<longleftrightarrow>
    ids_IsBlocked uni s y \<or> trim_space x \<noteq> [] \<and> normKey uni y = normKey uni x"
  using assms by (auto simp: ids_IsBlocked_def ids_Block_def Let_def)

lemma contacts_Block [simp]: "ids_contacts (ids_Block uni x s) = ids_contacts s"
  by (simp add: ids_Block_def Let_def)

text \<open>A name with a dot in it is not an address.\<close>

lemma ValidateName_not_address:
  assumes "dero_ValidateName uni s" shows "\<not> dero_ValidateAddress s"
proof
  assume a: "dero_ValidateAddress s"
  then have "list_all is_ascii (trim_space s)" "CHR ''.'' \<notin> set (trim_space s)"
    using ValidateAddress_ascii(1) [OF a]
    by (auto simp: dero_ValidateAddress_def Let_def list_all_iff is_alnum_def is_digit_def is_lower_def is_upper_def split: if_splits)
  moreover have "ascii_lower c \<noteq> CHR ''.'' \<or> c = CHR ''.''" for c
    by (auto simp: ascii_lower_def is_upper_def dest: arg_cong [of _ _ code])
  ultimately have "CHR ''.'' \<notin> set (dero_NormalizeName uni s)"
    by (force simp: dero_NormalizeName_def to_lower_def)
  with assms show False by (auto simp: dero_ValidateName_def namePattern_def has_suffix_iff)
qed


section \<open>Resolving\<close>

text \<open>The orders in which Go may visit the map.\<close>

definition visits :: "(contact dir \<Rightarrow> contact dir) \<Rightarrow> bool" where
  "visits order \<longleftrightarrow> (\<forall>d. mset (order d) = mset d)"

lemma find_visits:
  assumes "List.find Q (order d) = Some x" "visits order"
  shows "x \<in> set d" "Q x"
  using assms mset_eq_setD [of "order d" d] by (auto simp: find_Some_iff visits_def)

text \<open>What a daemon's answer to \<^verbatim>\<open>resolve_name\<close> must be for the mapping to count as verified.\<close>

lemma ResolveNameOrAddress_verified:
  assumes "dero_ResolveNameOrAddress env endpoint x w = (Inr (addr, ver), w')"
  shows "(addr = trim_space x \<and> \<not> ver \<and> w' = w) \<or>
    (\<exists>v. posted env endpoint ''resolve_name'' (JsObj [(''name'', JsStr (dero_NormalizeName (env_lower env) x))]) w =
       (AnsBody (Some v), w') \<and> reply_gives env name_fields ([], False) v = Some (addr, ver))"
proof (cases "dero_ValidateAddress x")
  case True
  then show ?thesis
    using assms ValidateAddress_ascii(2) [OF True] by (auto simp: dero_ResolveNameOrAddress_def)
next
  case False
  then have na: "\<not> dero_ValidateAddress (trim_space x)" by (simp add: dero_ValidateAddress_def)
  have norm: "dero_NormalizeName uni (trim_space x) = dero_NormalizeName uni x" for uni
    by (simp add: dero_NormalizeName_def)
  from assms na obtain raw where
    "dero_call env endpoint ''resolve_name'' (JsObj [(''name'', JsStr (dero_NormalizeName (env_lower env) x))]) w = (Inr raw, w')"
    "dec_result (env_fold env) name_fields ([], False) raw = Some (addr, ver)"
    by (auto simp: dero_ResolveNameOrAddress_def Let_def norm
        split: if_splits prod.splits sum.splits option.splits dero_err.splits)
  then have "\<exists>raw. dero_call env endpoint ''resolve_name'' (JsObj [(''name'', JsStr (dero_NormalizeName (env_lower env) x))]) w
      = (Inr raw, w') \<and> dec_result (env_fold env) name_fields ([], False) raw = Some (addr, ver)" by blast
  then show ?thesis unfolding dero_call_decodes by blast
qed

lemma ids_Resolve_Inr:
  assumes "ids_Resolve uni order lookup x s w = (Inr (addr, ver), w')" "visits order"
  shows "\<not> ids_IsBlocked uni s x \<and> \<not> ids_IsBlocked uni s addr \<and>
    ((\<not> ver \<or> (\<exists>(k, c) \<in> set (ids_contacts s). normKey uni (ct_Address c) = normKey uni addr \<and> ct_Trust c = TrustVerified)) \<and> w' = w \<or>
     (\<exists>look. lookup = Some look \<and> look (trim_space x) w = (Inr (addr, ver), w')))"
proof -
  let ?hit = "List.find (\<lambda>(_, c). normKey uni (ct_DeroName c) = normKey uni x \<and> normKey uni x \<noteq> [] \<or>
      normKey uni (ct_Name c) = normKey uni x) (order (ids_contacts s))"
  have hit: "(k, c) \<in> set (ids_contacts s)" if "?hit = Some (k, c)" for k c
    using find_visits(1) [OF that assms(2)] .
  show ?thesis
  proof (cases "dero_ValidateAddress (trim_space x)")
    case True
    with assms(1) have "addr = trim_space x" "ver = ids_LocallyVerified uni s x" "w' = w" "\<not> ids_IsBlocked uni s x"
      by (auto simp: ids_Resolve_def Let_def ids_LocallyVerified_def split: if_splits)
    then show ?thesis by (auto simp: ids_LocallyVerified_def list_ex_iff Let_def split: if_splits)
  next
    case False
    show ?thesis
    proof (cases ?hit)
      case None
      then show ?thesis using assms(1) False
        by (auto simp: ids_Resolve_def Let_def split: if_splits option.splits prod.splits sum.splits)
    next
      case (Some kc)
      obtain k c where kc: "kc = (k, c)" by fastforce
      from Some assms(1) False kc have "addr = ct_Address c" "ver = (ct_Trust c = TrustVerified)" "w' = w"
        "\<not> ids_IsBlocked uni s x" "\<not> ids_IsBlocked uni s addr"
        by (auto simp: ids_Resolve_def Let_def split: if_splits)
      with hit [OF Some [unfolded kc]] show ?thesis by blast
    qed
  qed
qed

section \<open>Properties\<close>

text \<open>
  C21 Resolving over the daemon, in any reachable state of the store and whatever order the map is
  visited in: a blocked identity is refused without a request; an address that is returned is never a
  blocked one; and it is called verified only if a stored contact with this address is marked verified
  by the user, or the daemon's answer says so for exactly this address. No other path, and no failure,
  fabricates a verification.
\<close>

theorem identity_resolve_sound:
  fixes uni :: "string \<Rightarrow> string" and ops :: "id_op list"
  defines "s \<equiv> fold (ids_apply uni) ops ids_NewStore"
  assumes "ids_Resolve uni order (Some (dero_ResolveNameOrAddress env endpoint)) x s w = (r, w')" "visits order"
  shows "(\<not> ids_IsBlocked uni s x \<or> (\<exists>e. r = Inl e) \<and> w' = w) \<and>
    (\<forall>addr ver. r \<noteq> Inr (addr, ver) \<or> \<not> ids_IsBlocked uni s addr \<and>
      (\<not> ver \<or>
       (\<exists>c. dget (ids_contacts s) (normKey uni (ct_Name c)) = Some c \<and> normKey uni (ct_Address c) = normKey uni addr \<and>
          ct_Trust c = TrustVerified) \<or>
       (\<exists>v. env_post env (dero_rpcURL endpoint) (rpc_request ''resolve_name''
            (JsObj [(''name'', JsStr (dero_NormalizeName (env_lower env) x))])) w = (AnsBody (Some v), w') \<and>
          reply_gives env name_fields ([], False) v = Some (addr, True))))"
proof -
  have ok: "ids_ok uni s" unfolding s_def by (rule ids_reachable_ok)
  have refused: "(\<exists>e. r = Inl e) \<and> w' = w" if "ids_IsBlocked uni s x"
    using assms(2) that by (auto simp: ids_Resolve_def Let_def split: if_splits)
  have sound: "\<not> ids_IsBlocked uni s addr \<and>
      (\<not> ver \<or>
       (\<exists>c. dget (ids_contacts s) (normKey uni (ct_Name c)) = Some c \<and> normKey uni (ct_Address c) = normKey uni addr \<and>
          ct_Trust c = TrustVerified) \<or>
       (\<exists>v. env_post env (dero_rpcURL endpoint) (rpc_request ''resolve_name''
            (JsObj [(''name'', JsStr (dero_NormalizeName (env_lower env) x))])) w = (AnsBody (Some v), w') \<and>
          reply_gives env name_fields ([], False) v = Some (addr, True)))" if "r = Inr (addr, ver)" for addr ver
  proof -
    have filed: "dget (ids_contacts s) (normKey uni (ct_Name c)) = Some c" if "(k, c) \<in> set (ids_contacts s)" for k c
      using ok map_of_is_SomeI [OF _ that] by (force simp: ids_ok_def simp del: map_of_eq_Some_iff)
    have norm: "dero_NormalizeName u (trim_space x) = dero_NormalizeName u x" for u by (simp add: dero_NormalizeName_def)
    note found = ids_Resolve_Inr [OF assms(2) [unfolded that] assms(3)]
    show ?thesis
    proof (cases "ver \<and> (\<forall>(k, c) \<in> set (ids_contacts s). normKey uni (ct_Address c) \<noteq> normKey uni addr \<or> ct_Trust c \<noteq> TrustVerified)")
      case True
      with found have "dero_ResolveNameOrAddress env endpoint (trim_space x) w = (Inr (addr, True), w')" by auto
      from ResolveNameOrAddress_verified [OF this] found show ?thesis unfolding norm posted_def by simp
    next
      case False
      then show ?thesis using found filed by fast
    qed
  qed
  show ?thesis using refused sound by blast
qed


lemma trim_letters [simp]:
  "trim_space ''bob'' = ''bob''" "trim_space ''Bob'' = ''Bob''" "trim_space ''pay.dero'' = ''pay.dero''"
  "trim_space ''ann'' = ''ann''"
  by (rule trim_space_id; simp add: is_graph_def)+

lemma lower_letters [simp]:
  "normKey (\<lambda>s. s) ''bob'' = ''bob''" "normKey (\<lambda>s. s) ''Bob'' = ''bob''" "normKey (\<lambda>s. s) ''pay.dero'' = ''pay.dero''"
  "normKey (\<lambda>s. s) ''ann'' = ''ann''"
  by (simp_all add: normKey_def to_lower_def is_ascii_def ascii_lower_def is_upper_def) code_simp

lemma not_addresses [simp]:
  "\<not> dero_ValidateAddress ''bob''" "\<not> dero_ValidateAddress ''Bob''" "\<not> dero_ValidateAddress ''pay.dero''"
  "\<not> dero_ValidateAddress ''ann''"
  by (simp_all add: dero_ValidateAddress_def has_prefix_def)

theorem identity_resolve_sound_witness:
  "ids_IsBlocked (\<lambda>s. s) (fold (ids_apply (\<lambda>s. s)) [OpBlock ''bob''] ids_NewStore) ''Bob'' \<and>
   snd (ids_Resolve (\<lambda>s. s) (\<lambda>d. d) (Some (dero_ResolveNameOrAddress demo_env ''http://x'')) ''Bob''
     (fold (ids_apply (\<lambda>s. s)) [OpBlock ''bob''] ids_NewStore) 0) = 0"
proof -
  have "ids_IsBlocked (\<lambda>s. s) (fold (ids_apply (\<lambda>s. s)) [OpBlock ''bob''] ids_NewStore) ''Bob''"
    by (simp add: IsBlocked_Block)
  moreover obtain r w' where r: "ids_Resolve (\<lambda>s. s) (\<lambda>d. d) (Some (dero_ResolveNameOrAddress demo_env ''http://x'')) ''Bob''
     (fold (ids_apply (\<lambda>s. s)) [OpBlock ''bob''] ids_NewStore) 0 = (r, w')" by fastforce
  moreover have "visits (\<lambda>d. d)" by (simp add: visits_def)
  ultimately show ?thesis using identity_resolve_sound [OF r] by simp
qed

text \<open>Resolving a handle or a name that the contacts know.\<close>

lemma ids_Resolve_hit:
  assumes "\<not> ids_IsBlocked uni s x" "\<not> dero_ValidateAddress x" "normKey uni x \<noteq> []" "trim_space x \<noteq> []"
    and "List.find (\<lambda>(_, c). normKey uni (ct_DeroName c) = normKey uni x \<or> normKey uni (ct_Name c) = normKey uni x)
      (order (ids_contacts s)) = Some (k, c)"
    and "\<not> ids_IsBlocked uni s (ct_Address c)"
  shows "ids_Resolve uni order lookup x s w = (Inr (ct_Address c, ct_Trust c = TrustVerified), w)"
  using assms by (simp add: ids_Resolve_def Let_def dero_ValidateAddress_def)

text \<open>
  Blocking a contact by display name blocks the display name only. For every contact with a handle
  of its own that can be added to an empty store: once its name is blocked, resolving the name is
  refused, but resolving its handle, or its bare address, still gives the address of the contact.
\<close>

theorem identity_block_bypass:
  assumes "ids_Add uni c ids_NewStore = (None, s1)" "ct_DeroName c \<noteq> []" "normKey uni (ct_Name c) \<noteq> []"
    and "normKey uni (ct_DeroName c) \<noteq> normKey uni (ct_Name c)" "normKey uni (ct_Address c) \<noteq> normKey uni (ct_Name c)"
  defines "s \<equiv> ids_Block uni (ct_Name c) s1"
  shows "ids_Resolve uni (\<lambda>d. d) lookup (ct_Name c) s w = (Inl (IdBlocked (trim_space (ct_Name c))), w) \<and>
    ids_Resolve uni (\<lambda>d. d) lookup (ct_DeroName c) s w = (Inr (ct_Address c, ct_Trust c = TrustVerified), w) \<and>
    fst (ids_Resolve uni (\<lambda>d. d) lookup (ct_Address c) s w) = Inr (trim_space (ct_Address c), ct_Trust c = TrustVerified)"
proof (intro conjI)
  have valid: "trim_space (ct_Name c) \<noteq> []" "dero_ValidateAddress (ct_Address c)" "dero_ValidateName uni (ct_DeroName c)"
    and s1: "ids_contacts s1 = [(normKey uni (ct_Name c), c)]" "\<And>y. \<not> ids_IsBlocked uni s1 y"
    using assms(1,2) by (auto simp: ids_Add_def contact_Validate_def ids_NewStore_def Let_def ids_IsBlocked_def
        split: if_splits)
  have blocked: "ids_IsBlocked uni s y \<longleftrightarrow> normKey uni y = normKey uni (ct_Name c)" for y
    using IsBlocked_Block [OF assms(3)] s1(2) valid(1) by (simp add: s_def)
  have contacts: "ids_contacts s = [(normKey uni (ct_Name c), c)]" by (simp add: s_def s1(1))
  have handle: "dero_NormalizeName uni (ct_DeroName c) \<noteq> []"
    using valid(3) by (auto simp: dero_ValidateName_def namePattern_def has_suffix_iff)
  then have "normKey uni (ct_DeroName c) \<noteq> []" "trim_space (ct_DeroName c) \<noteq> []"
    by (auto simp: dero_NormalizeName_def normKey_def to_lower_def)
  then show "ids_Resolve uni (\<lambda>d. d) lookup (ct_DeroName c) s w = (Inr (ct_Address c, ct_Trust c = TrustVerified), w)"
    by (intro ids_Resolve_hit [of _ _ _ _ "normKey uni (ct_Name c)"])
      (use ValidateName_not_address [OF valid(3)] assms(4,5) in \<open>simp_all add: blocked contacts\<close>)
  show "ids_Resolve uni (\<lambda>d. d) lookup (ct_Name c) s w = (Inl (IdBlocked (trim_space (ct_Name c))), w)"
    using valid(1) by (simp add: ids_Resolve_def Let_def blocked)
  have "trim_space (ct_Address c) \<noteq> []" "dero_ValidateAddress (trim_space (ct_Address c))"
    using valid(2) ValidateAddress_ascii(2) by (auto simp: dero_ValidateAddress_def has_prefix_def Let_def split: if_splits)
  moreover from this have "normKey uni (ct_Address c) \<noteq> []"
    using ValidateAddress_ascii(1) [OF valid(2)] by (simp add: normKey_def to_lower_def)
  ultimately show "fst (ids_Resolve uni (\<lambda>d. d) lookup (ct_Address c) s w) = Inr (trim_space (ct_Address c), ct_Trust c = TrustVerified)"
    using assms(5) by (simp add: ids_Resolve_def Let_def blocked ids_LocallyVerified_def contacts)
qed

definition demo_contact :: contact where
  "demo_contact = \<lparr>ct_Name = ''bob'', ct_DeroName = ''pay.dero'', ct_Address = demo_address, ct_Trust = 0, ct_Notes = []\<rparr>"

lemma demo_contact_valid: "contact_Validate (\<lambda>s. s) (demo_contact\<lparr>ct_Name := n, ct_Address := a, ct_DeroName := d\<rparr>) = None"
  if "n \<in> {''bob'', ''ann''}" "dero_ValidateAddress a" "d \<in> {[], ''pay.dero''}"
  using that by (auto simp: contact_Validate_def demo_contact_def TrustNone_def TrustVerified_def dero_ValidateName_def
      dero_NormalizeName_def to_lower_def is_ascii_def ascii_lower_def is_upper_def namePattern_def has_suffix_def has_prefix_def Let_def
      name_char_def is_lower_def)

theorem identity_block_bypass_witness:
  "\<exists>s1. ids_Resolve (\<lambda>s. s) (\<lambda>d. d) None ''pay.dero'' (ids_Block (\<lambda>s. s) ''bob'' s1) () = (Inr (demo_address, False), ())"
proof -
  have "normKey (\<lambda>s. s) demo_address = demo_address"
    by (simp add: normKey_def to_lower_def) (simp add: demo_address_def is_ascii_def ascii_lower_def is_upper_def)
  moreover have "demo_address \<noteq> ''bob''" by (simp add: demo_address_def)
  moreover have "contact_Validate (\<lambda>s. s) demo_contact = None"
    using demo_contact_valid [of "''bob''" demo_address "''pay.dero''"] by (simp add: demo_contact_def)
  moreover from this have "fst (ids_Add (\<lambda>s. s) demo_contact ids_NewStore) = None"
    by (simp add: ids_Add_def ids_NewStore_def ids_IsBlocked_def Let_def)
  moreover from this obtain s1 where "ids_Add (\<lambda>s. s) demo_contact ids_NewStore = (None, s1)"
    by (metis prod.collapse)
  ultimately show ?thesis
    using identity_block_bypass [of "\<lambda>s. s" demo_contact s1 None "()"] by (auto simp: demo_contact_def TrustVerified_def)
qed


lemma ids_Add_None:
  assumes "ids_Add uni c s = (None, s')"
  shows "contact_Validate uni c = None" "dget (ids_contacts s) (normKey uni (ct_Name c)) = None"
    "ids_contacts s' = dput (normKey uni (ct_Name c)) c (ids_contacts s)" "ids_IsBlocked uni s' y = ids_IsBlocked uni s y"
  using assms by (auto simp: ids_Add_def Let_def ids_IsBlocked_def split: option.splits if_splits)

text \<open>
  The address an identity resolves to can depend on the order in which Go happens to visit the
  map: when the display name of one contact is the handle of another with another address, both
  are added without an objection, and there are two orders under which resolving that name gives the
  one address and the other.
\<close>

theorem identity_resolve_ambiguous:
  assumes "ids_Add uni c1 ids_NewStore = (None, s1)" "ids_Add uni c2 s1 = (None, s)"
    and "normKey uni (ct_DeroName c2) = normKey uni (ct_Name c1)" "normKey uni (ct_Name c1) \<noteq> []"
    and "\<not> dero_ValidateAddress (ct_Name c1)" "ct_Address c1 \<noteq> ct_Address c2"
  shows "\<exists>o1 o2. visits o1 \<and> visits o2 \<and>
    fst (ids_Resolve uni o1 lookup (ct_Name c1) s w) = Inr (ct_Address c1, ct_Trust c1 = TrustVerified) \<and>
    fst (ids_Resolve uni o2 lookup (ct_Name c1) s w) = Inr (ct_Address c2, ct_Trust c2 = TrustVerified)"
proof -
  note a1 = ids_Add_None [OF assms(1)] and a2 = ids_Add_None [OF assms(2)]
  have empty: "ids_contacts ids_NewStore = []" "\<not> ids_IsBlocked uni ids_NewStore y" for y
    by (simp_all add: ids_NewStore_def ids_IsBlocked_def Let_def)
  have "normKey uni (ct_Name c2) \<noteq> normKey uni (ct_Name c1)" using a2(2) by (simp add: a1(3) empty split: if_splits)
  moreover have "trim_space (ct_Name c1) \<noteq> []" using a1(1) by (auto simp: contact_Validate_def)
  moreover have "\<not> ids_IsBlocked uni s y" for y by (simp add: a1(4) a2(4) empty)
  moreover from calculation(1) have "ids_contacts s = [(normKey uni (ct_Name c1), c1), (normKey uni (ct_Name c2), c2)]"
    by (simp add: a1(3) a2(3) empty)
  ultimately have "ids_Resolve uni (\<lambda>d. d) lookup (ct_Name c1) s w = (Inr (ct_Address c1, ct_Trust c1 = TrustVerified), w)"
    "ids_Resolve uni rev lookup (ct_Name c1) s w = (Inr (ct_Address c2, ct_Trust c2 = TrustVerified), w)"
    using assms(3-5)
    by (intro ids_Resolve_hit [of _ _ _ _ "normKey uni (ct_Name c1)"] ids_Resolve_hit [of _ _ _ _ "normKey uni (ct_Name c2)"];
        simp)+
  then show ?thesis by (intro exI [of _ "\<lambda>d. d"] exI [of _ rev]) (simp add: visits_def)
qed

definition demo_address2 :: string where
  "demo_address2 = ''dero1'' @ replicate 60 CHR ''b''"

lemma demo_address2_ok [simp]: "dero_ValidateAddress demo_address2" "demo_address \<noteq> demo_address2"
proof -
  have "trim_space demo_address2 = demo_address2"
    by (rule trim_space_id) (simp_all add: demo_address2_def is_graph_def last_append)
  then show "dero_ValidateAddress demo_address2"
    by (simp add: dero_ValidateAddress_def Let_def)
      (simp add: demo_address2_def has_prefix_def is_alnum_def is_lower_def is_digit_def list_all_iff)
qed (simp add: demo_address_def demo_address2_def)

theorem identity_resolve_ambiguous_witness:
  "\<exists>s o1 o2. visits o1 \<and> visits o2 \<and>
    fst (ids_Resolve (\<lambda>s. s) o1 None ''pay.dero'' s ()) = Inr (demo_address2, False) \<and>
    fst (ids_Resolve (\<lambda>s. s) o2 None ''pay.dero'' s ()) = Inr (demo_address, False)"
proof -
  let ?c1 = "demo_contact\<lparr>ct_Name := ''pay.dero'', ct_Address := demo_address2, ct_DeroName := []\<rparr>"
  have "contact_Validate (\<lambda>s. s) ?c1 = None" "contact_Validate (\<lambda>s. s) demo_contact = None"
    using demo_contact_valid [of "''bob''" demo_address "''pay.dero''"]
    by (simp_all add: demo_contact_def contact_Validate_def TrustNone_def TrustVerified_def)
  then have "fst (ids_Add (\<lambda>s. s) ?c1 ids_NewStore) = None"
    "fst (ids_Add (\<lambda>s. s) demo_contact (snd (ids_Add (\<lambda>s. s) ?c1 ids_NewStore))) = None"
    by (simp_all add: ids_Add_def ids_NewStore_def ids_IsBlocked_def Let_def) (simp add: demo_contact_def)
  then obtain s1 s where "ids_Add (\<lambda>s. s) ?c1 ids_NewStore = (None, s1)" "ids_Add (\<lambda>s. s) demo_contact s1 = (None, s)"
    by (metis prod.collapse)
  from identity_resolve_ambiguous [OF this, of None "()"]
  show ?thesis by (auto simp: demo_contact_def TrustVerified_def eq_commute [of demo_address2])
qed

end
