(* ===== verification/AppAccess.thy ===== *)
theory AppAccess
  imports AppManifest
begin

text \<open>
  Parts of \<^verbatim>\<open>internal/app/app.go\<close> that stand on their own: how an expiry is read, how a file key is
  locked into a manifest and recovered from it, and the envelope in which a manifest travels with its
  payload. Of \<^verbatim>\<open>time.ParseDuration\<close> all but one thing is written out: the nanoseconds of a fraction are
  computed in floating point, which is the parameter \<open>frac\<close> (digits, their number, unit). Decoding the
  JSON of a manifest is a parameter, too.
\<close>

section \<open>Durations\<close>

text \<open>\<^verbatim>\<open>leadingInt\<close>: \<open>None\<close> on an overflow.\<close>

fun leading_int :: "nat \<Rightarrow> string \<Rightarrow> (nat \<times> string) option" where
  "leading_int x [] = Some (x, [])"
| "leading_int x (c # cs) =
     (if \<not> is_digit c then Some (x, c # cs)
      else if x > 2 ^ 63 div 10 then None
      else let y = x * 10 + digit_val c in if y > 2 ^ 63 then None else leading_int y cs)"

text \<open>\<^verbatim>\<open>leadingFraction\<close>: the digits and how many of them count; those after an overflow are skipped.\<close>

fun leading_fraction :: "nat \<Rightarrow> nat \<Rightarrow> bool \<Rightarrow> string \<Rightarrow> nat \<times> nat \<times> string" where
  "leading_fraction x k over [] = (x, k, [])"
| "leading_fraction x k over (c # cs) =
     (if \<not> is_digit c then (x, k, c # cs)
      else if over \<or> x > (2 ^ 63 - 1) div 10 then leading_fraction x k True cs
      else let y = x * 10 + digit_val c in
        if y > 2 ^ 63 then leading_fraction x k True cs else leading_fraction y (k + 1) False cs)"

definition unit_map :: "string \<Rightarrow> nat option" where
  "unit_map u =
     (if u = ''ns'' then Some 1
      else if u = ''us'' \<or> map code u = [0xC2, 0xB5, 0x73] \<or> map code u = [0xCE, 0xBC, 0x73] then Some (10 ^ 3)
      else if u = ''ms'' then Some (10 ^ 6)
      else if u = ''s'' then Some (10 ^ 9)
      else if u = ''m'' then Some (60 * 10 ^ 9)
      else if u = ''h'' then Some (3600 * 10 ^ 9)
      else None)"

definition unit_stop :: "char \<Rightarrow> bool" where
  "unit_stop c \<longleftrightarrow> c = CHR ''.'' \<or> is_digit c"

text \<open>One number with its unit: the nanoseconds and the rest.\<close>

definition duration_part :: "(nat \<Rightarrow> nat \<Rightarrow> nat \<Rightarrow> nat) \<Rightarrow> string \<Rightarrow> (nat \<times> string) option" where
  "duration_part frac s =
     (if s = [] \<or> \<not> unit_stop (hd s) then None
      else case leading_int 0 s of
        None \<Rightarrow> None
      | Some (v, s1) \<Rightarrow>
          (let pre = length s1 \<noteq> length s;
               dot = s1 \<noteq> [] \<and> hd s1 = CHR ''.'';
               (f, k, s2) = (if dot then leading_fraction 0 0 False (tl s1) else (0, 0, s1));
               post = dot \<and> length s2 \<noteq> length (tl s1);
               u = takeWhile (\<lambda>c. \<not> unit_stop c) s2;
               s3 = dropWhile (\<lambda>c. \<not> unit_stop c) s2
           in if \<not> pre \<and> \<not> post then None
              else if u = [] then None
              else case unit_map u of
                None \<Rightarrow> None
              | Some unit \<Rightarrow>
                  (if v > 2 ^ 63 div unit then None
                   else let w = v * unit + (if f > 0 then frac f k unit else 0) in
                     if f > 0 \<and> w > 2 ^ 63 then None else Some (w, s3))))"

lemma leading_int_length: "leading_int x s = Some (y, r) \<Longrightarrow> length r \<le> length s"
  by (induction x s rule: leading_int.induct) (auto simp: Let_def split: if_splits)

lemma leading_fraction_length: "leading_fraction x k over s = (f, j, r) \<Longrightarrow> length r \<le> length s"
  by (induction x k over s rule: leading_fraction.induct) (auto simp: Let_def split: if_splits)

lemma duration_part_shorter:
  assumes "duration_part frac s = Some (w, r)" shows "length r < length s"
proof -
  have drop: "length (dropWhile Q t) < length t" if "takeWhile Q t \<noteq> []" for Q :: "char \<Rightarrow> bool" and t
    using that length_dropWhile_le [of Q "tl t"] by (cases t) (auto split: if_splits)
  have tail: "length (tl t) \<le> length t" for t :: string by simp
  show ?thesis
    using assms leading_int_length leading_fraction_length drop [of "\<lambda>c. \<not> unit_stop c"]
    by (fastforce simp: duration_part_def Let_def split: if_splits option.splits prod.splits)
qed

function duration_parts :: "(nat \<Rightarrow> nat \<Rightarrow> nat \<Rightarrow> nat) \<Rightarrow> nat \<Rightarrow> string \<Rightarrow> nat option" where
  "duration_parts frac d s =
     (if s = [] then Some d
      else case duration_part frac s of
        None \<Rightarrow> None
      | Some (w, r) \<Rightarrow> if d + w > 2 ^ 63 then None else duration_parts frac (d + w) r)"
  by pat_completeness auto
termination
  by (relation "measure (\<lambda>(frac, d, s). length s)") (auto dest: duration_part_shorter)

declare duration_parts.simps [simp del]

definition parse_duration :: "(nat \<Rightarrow> nat \<Rightarrow> nat \<Rightarrow> nat) \<Rightarrow> string \<Rightarrow> int option" where
  "parse_duration frac s =
     (let neg = s \<noteq> [] \<and> hd s = CHR ''-'';
          t = (if s \<noteq> [] \<and> (hd s = CHR ''-'' \<or> hd s = CHR ''+'') then tl s else s)
      in if t = ''0'' then Some 0
         else if t = [] then None
         else case duration_parts frac 0 t of
           None \<Rightarrow> None
         | Some d \<Rightarrow> if neg then Some (- int d) else if d > 2 ^ 63 - 1 then None else Some (int d))"

section \<open>Expiries\<close>

definition parse_date :: "string \<Rightarrow> time option" where
  "parse_date s = do {
     (y, s) \<leftarrow> getyear s;
     s \<leftarrow> skip CHR ''-'' s;
     (m, s) \<leftarrow> getnum2 s;
     guard (1 \<le> m \<and> m \<le> 12);
     s \<leftarrow> skip CHR ''-'' s;
     (d, s) \<leftarrow> getnum2 s;
     guard (s = '''');
     guard (1 \<le> d \<and> d \<le> days_in (int y) m);
     Some (time_of (int y) m d 0 0 0 0)
   }"

definition day_ns :: int where
  "day_ns = 24 * 3600 * second_ns"

datatype expiry_err = ExNotPositive | ExDayRange | ExPast | ExBad string

text \<open>The days of \<open>7d\<close>, where they are of this form; a number out of range reads as zero.\<close>

definition day_form :: "string \<Rightarrow> int option" where
  "day_form s =
     (if s \<noteq> [] \<and> last s = CHR ''d'' \<and> butlast s \<noteq> [] \<and> list_all is_digit (butlast s)
      then Some (case parse_int (butlast s) of None \<Rightarrow> 0 | Some n \<Rightarrow> n) else None)"

definition app_ParseExpiry :: "(nat \<Rightarrow> nat \<Rightarrow> nat \<Rightarrow> nat) \<Rightarrow> time \<Rightarrow> string \<Rightarrow> expiry_err + time" where
  "app_ParseExpiry frac now s0 =
     (let s = trim_space s0 in
      if s = [] then Inr (now + day_ns)
      else case parse_duration frac s of
        Some d \<Rightarrow> if d \<le> 0 then Inl ExNotPositive else Inr (now + d)
      | None \<Rightarrow>
          (case day_form s of
             Some days \<Rightarrow> if days \<le> 0 \<or> days > 365 then Inl ExDayRange else Inr (now + days * day_ns)
           | None \<Rightarrow>
               (case parse_rfc3339 s of
                  Some t \<Rightarrow> if \<not> now < t then Inl ExPast else Inr t
                | None \<Rightarrow>
                    (case parse_date s of
                       Some t \<Rightarrow> if \<not> now < t then Inl ExPast else Inr t
                     | None \<Rightarrow> Inl (ExBad s)))))"

section \<open>Locking a file key\<close>

datatype access_err = AxRand | AxCrypto app_crypto_err | AxCorrupt | AxWrongSecret | AxPassword | AxSalt | AxPrivKey | AxEphem

definition isPubHex :: "string \<Rightarrow> bool" where
  "isPubHex s \<longleftrightarrow> length s = 64 \<and> list_all (\<lambda>c. is_digit c \<or> 97 \<le> code c \<and> code c \<le> 102 \<or> 65 \<le> code c \<and> code c \<le> 70) s"

text \<open>What is drawn: the salt, the nonce of the wrapping, the ephemeral private key.\<close>

record access_draws =
  ad_salt :: "bytes option"
  ad_nonce :: "bytes option"
  ad_epriv :: "bytes option"

definition commit_key :: "prims \<Rightarrow> string \<Rightarrow> bytes" where
  "commit_key P s = copy32 (p_sha256 P (bytes_of s))"

definition lock_sealed :: "prims \<Rightarrow> access_draws \<Rightarrow> bytes \<Rightarrow> bytes \<Rightarrow> access_err + string" where
  "lock_sealed P d fileKey kek =
     (case app_SealBytes P (ad_nonce d) fileKey kek of
        Inl e \<Rightarrow> Inl (AxCrypto e)
      | Inr (nonce, sealed) \<Rightarrow> Inr (b64_encode (nonce @ sealed)))"

definition app_lockAccess ::
  "prims \<Rightarrow> access_draws \<Rightarrow> app_manifest \<Rightarrow> bytes \<Rightarrow> string \<Rightarrow> string \<Rightarrow> access_err + app_manifest" where
  "app_lockAccess P d m fileKey password to =
     (if password \<noteq> [] then
        (case app_NewSalt (ad_salt d) of
           Inl e \<Rightarrow> Inl (AxCrypto e)
         | Inr salt \<Rightarrow>
             (case lock_sealed P d fileKey (app_DeriveKeyFromPassphrase P password salt) of
                Inl e \<Rightarrow> Inl e
              | Inr w \<Rightarrow> Inr (m\<lparr>am_Access := \<lparr>ac_WrappedKey = w, ac_EphemPub = [],
                  ac_PassphraseSalt = b64_encode salt, ac_KDF = ''argon2id''\<rparr>\<rparr>)))
      else if isPubHex to then
        (let raw = (case hex_decode to of None \<Rightarrow> [] | Some b \<Rightarrow> b); pub = copy32 raw in
         case ad_epriv d of
           None \<Rightarrow> Inl AxRand
         | Some epriv \<Rightarrow>
             (case app_WrapFileKey P (ad_nonce d) fileKey pub epriv of
                Inl e \<Rightarrow> Inl (AxCrypto e)
              | Inr (wrapped, epub) \<Rightarrow> Inr (m\<lparr>am_Access := \<lparr>ac_WrappedKey = b64_encode wrapped,
                  ac_EphemPub = b64_encode epub, ac_PassphraseSalt = [], ac_KDF = ''x25519''\<rparr>\<rparr>)))
      else if to \<noteq> [] then
        (case lock_sealed P d fileKey (commit_key P (''ghostdrop:commit:'' @ to)) of
           Inl e \<Rightarrow> Inl e
         | Inr w \<Rightarrow> Inr (m\<lparr>am_Access := \<lparr>ac_WrappedKey = w, ac_EphemPub = [], ac_PassphraseSalt = [],
             ac_KDF = ''commitment''\<rparr>\<rparr>))
      else
        (case lock_sealed P d fileKey (commit_key P (''ghostdrop:open:'' @ am_DropID m)) of
           Inl e \<Rightarrow> Inl e
         | Inr w \<Rightarrow> Inr (m\<lparr>am_Access := \<lparr>ac_WrappedKey = w, ac_EphemPub = [], ac_PassphraseSalt = [],
             ac_KDF = ''none''\<rparr>\<rparr>)))"

text \<open>The nonce is 24 bytes here, so that the AEAD does not panic.\<close>

definition unlock_sealed :: "prims \<Rightarrow> bytes \<Rightarrow> bytes \<Rightarrow> access_err + bytes" where
  "unlock_sealed P raw kek =
     (case app_OpenBytes P (take app_NonceSize raw) (drop app_NonceSize raw) kek of
        Some (Inr plain) \<Rightarrow> Inr (copy32 plain)
      | _ \<Rightarrow> Inl AxWrongSecret)"

definition app_unlockAccess :: "prims \<Rightarrow> app_manifest \<Rightarrow> string \<Rightarrow> access_err + bytes" where
  "app_unlockAccess P m secret =
     (case b64_decode (ac_WrappedKey (am_Access m)) of
        None \<Rightarrow> Inl AxCorrupt
      | Some raw \<Rightarrow>
          (if length raw < app_NonceSize then Inl AxCorrupt
           else let kdf = ac_KDF (am_Access m) in
             if kdf = ''argon2id'' then
               (if secret = [] then Inl AxPassword
                else case b64_decode (ac_PassphraseSalt (am_Access m)) of
                  None \<Rightarrow> Inl AxSalt
                | Some salt \<Rightarrow> unlock_sealed P raw (app_DeriveKeyFromPassphrase P secret salt))
             else if kdf = ''x25519'' then
               (case hex_decode (trim_space secret) of
                  None \<Rightarrow> Inl AxPrivKey
                | Some priv \<Rightarrow>
                    (if length priv \<noteq> 32 then Inl AxPrivKey
                     else case b64_decode (ac_EphemPub (am_Access m)) of
                       None \<Rightarrow> Inl AxEphem
                     | Some epub \<Rightarrow>
                         (if length epub \<noteq> 32 then Inl AxEphem
                          else case app_UnwrapFileKey P raw epub priv of
                            Inl e \<Rightarrow> Inl (AxCrypto e)
                          | Inr k \<Rightarrow> Inr k)))
             else if kdf = ''commitment''
             then unlock_sealed P raw (commit_key P (''ghostdrop:commit:'' @ am_RecipientCommitment m))
             else unlock_sealed P raw (commit_key P (''ghostdrop:open:'' @ am_DropID m))))"

section \<open>The envelope\<close>

text \<open>Length, manifest, payload.\<close>

datatype env_err = EnvShort | EnvLength u32 | EnvManifest | EnvJSON

definition app_writeEnvelope :: "app_manifest \<Rightarrow> bytes \<Rightarrow> bytes" where
  "app_writeEnvelope m sealed =
     (let mraw = bytes_of (json_print (am_json m)) in be32 (of_nat (length mraw)) @ mraw @ sealed)"

definition app_splitEnvelope :: "(bytes \<Rightarrow> app_manifest option) \<Rightarrow> bytes \<Rightarrow> env_err + app_manifest \<times> bytes" where
  "app_splitEnvelope unmarshal env =
     (if length env < 4 then Inl EnvShort
      else let mlen = rd32 env; rest = drop 4 env in
        if mlen = 0 \<or> mlen > of_nat (16 * 2 ^ 20) then Inl (EnvLength mlen)
        else if length rest < unat mlen then Inl EnvManifest
        else case unmarshal (take (unat mlen) rest) of
          None \<Rightarrow> Inl EnvJSON
        | Some m \<Rightarrow> Inr (m, drop (unat mlen) rest))"


section \<open>Round trips\<close>

lemma open_sealed:
  assumes "aead_ok P" "length fileKey = 32" "length kek = 32" "length nonce = 24"
  shows "unlock_sealed P (nonce @ p_seal P kek nonce fileKey) kek = Inr fileKey"
proof -
  have "length fileKey \<le> aead_max" using assms(2) by (simp add: aead_max_def)
  from aead_open_seal [OF assms(1) this, of kek nonce] show ?thesis
    using assms(2-4) by (simp add: unlock_sealed_def app_OpenBytes_def app_NonceSize_def)
qed

lemma length_DeriveKey [simp]: "length (app_DeriveKeyFromPassphrase P pw salt) = 32"
  by (simp add: app_DeriveKeyFromPassphrase_def Let_def)

lemma length_commit_key [simp]: "length (commit_key P s) = 32"
  by (simp add: commit_key_def)

text \<open>The two packages wrap keys in the same way.\<close>

lemma app_unwrap_wrapped:
  assumes "aead_ok P" "dh_ok P" "length fileKey = 32" "length nonce = 24" "p_x25519 P priv app_basepoint = Some pub"
    and w: "app_WrapFileKey P (Some nonce) fileKey pub epriv = Inr (wrapped, epub)"
  shows "app_UnwrapFileKey P wrapped epub priv = Inr fileKey" "length wrapped = 72" "length epub = 32"
proof -
  have b: "app_basepoint = basepoint" by (simp add: app_basepoint_def basepoint_def)
  from w obtain shared e where s: "p_x25519 P epriv pub = Some shared" "p_x25519 P epriv basepoint = Some e"
    by (auto simp: app_WrapFileKey_def b Let_def split: option.splits)
  have len: "length e = 32" "length pub = 32"
    using dh_length [OF assms(2)] s(2) assms(5) by (auto simp: b)
  with w s have out: "epub = e" "wrapped = nonce @ p_seal P (app_wrapKEK P shared e pub) nonce fileKey"
    by (auto simp: app_WrapFileKey_def b Let_def)
  have agree: "p_x25519 P priv e = Some shared"
    using dh_agree [OF assms(2) s(2), of priv pub] assms(5) s(1) by (simp add: b)
  have "length fileKey \<le> aead_max" using assms(3) by (simp add: aead_max_def)
  note aead = aead_open_seal [OF assms(1) this] aead_seal_length [OF assms(1) this]
  show "length wrapped = 72" using aead(2) assms(3,4) by (simp add: out(2))
  then show "app_UnwrapFileKey P wrapped epub priv = Inr fileKey"
    using aead(1) agree assms(3-5) len by (simp add: app_UnwrapFileKey_def app_NonceSize_def out b Let_def)
  show "length epub = 32" using len by (simp add: out)
qed

lemma isPubHex_hex [simp]: "length b = 32 \<Longrightarrow> isPubHex (hex_encode b)"
proof -
  assume "length b = 32"
  moreover have "list_all (\<lambda>c. is_digit c \<or> 97 \<le> code c \<and> code c \<le> 102 \<or> 65 \<le> code c \<and> code c \<le> 70) (hex_encode bs)" for bs
  proof (induction bs)
    case (Cons x bs)
    have h: "is_digit (hex_char n) \<or> 97 \<le> code (hex_char n) \<and> code (hex_char n) \<le> 102" if "n < 16" for n
      using that by (auto simp: hex_char_def is_digit_def)
    have "unat x div 16 < 16" by (rule less_mult_imp_div_less) simp
    with Cons h [of "unat x div 16"] h [of "unat x mod 16"] show ?case by auto
  qed simp
  ultimately show ?thesis by (simp add: isPubHex_def)
qed

text \<open>The right secret for what was locked with this password or for this recipient: any secret at all
  where the key is derived from the manifest.\<close>

definition right_secret :: "prims \<Rightarrow> string \<Rightarrow> string \<Rightarrow> string \<Rightarrow> bool" where
  "right_secret P password to secret \<longleftrightarrow>
     (if password \<noteq> [] then secret = password
      else if isPubHex to
      then (\<exists>priv pub. to = hex_encode pub \<and> p_x25519 P priv app_basepoint = Some pub \<and> length priv = 32 \<and>
         trim_space secret = hex_encode priv)
      else True)"

text \<open>What \<^verbatim>\<open>lockAccess\<close> locks, \<^verbatim>\<open>unlockAccess\<close> recovers.\<close>

lemma unlock_locked:
  assumes "aead_ok P" "dh_ok P" "length fileKey = 32" "ad_nonce d = Some nonce" "length nonce = 24"
    and "am_RecipientCommitment m = to"
    and "app_lockAccess P d m fileKey password to = Inr m'"
    and "right_secret P password to secret"
  shows "app_unlockAccess P m' secret = Inr fileKey"
proof -
  note os = open_sealed [OF assms(1,3) _ assms(5)]
  have lock: "lock_sealed P d fileKey kek = Inr (b64_encode (nonce @ p_seal P kek nonce fileKey))" if "length kek = 32" for kek
    using assms(4) that by (simp add: lock_sealed_def app_SealBytes_def)
  consider (pw) "password \<noteq> []" "secret = password"
    | (pub) priv pub where "password = []" "to = hex_encode pub" "p_x25519 P priv app_basepoint = Some pub" "length priv = 32"
        "trim_space secret = hex_encode priv"
    | (other) "password = []" "\<not> isPubHex to"
    using assms(8) unfolding right_secret_def by (auto split: if_splits)
  then show ?thesis
  proof cases
    case pw
    then show ?thesis
      using assms(7) os assms(5) lock
      by (auto simp: app_lockAccess_def app_unlockAccess_def app_NonceSize_def Let_def split: sum.splits)
  next
    case pub
    have lp: "length pub = 32" using dh_length [OF assms(2) pub(3)] .
    then have hex: "isPubHex to" "copy32 (case hex_decode to of None \<Rightarrow> [] | Some b \<Rightarrow> b) = pub"
      by (simp_all add: pub(2))
    from assms(7) pub(1) hex assms(4) obtain epriv wrapped epub where
      w: "app_WrapFileKey P (Some nonce) fileKey pub epriv = Inr (wrapped, epub)"
      and m': "m' = m\<lparr>am_Access := \<lparr>ac_WrappedKey = b64_encode wrapped, ac_EphemPub = b64_encode epub,
        ac_PassphraseSalt = [], ac_KDF = ''x25519''\<rparr>\<rparr>"
      by (auto simp: app_lockAccess_def Let_def split: option.splits sum.splits)
    from app_unwrap_wrapped [OF assms(1-3,5) pub(3) w] show ?thesis
      using pub(4,5) by (simp add: m' app_unlockAccess_def app_NonceSize_def)
  next
    case other
    then show ?thesis
      using assms(6,7) os assms(5) lock
      by (auto simp: app_lockAccess_def app_unlockAccess_def app_NonceSize_def Let_def split: if_splits)
  qed
qed

text \<open>An envelope is taken apart into what was put into it, where its manifest decodes.\<close>

lemma split_writeEnvelope:
  assumes "unmarshal (bytes_of (json_print (am_json m))) = Some m"
    and "length (json_print (am_json m)) \<le> 16 * 2 ^ 20"
  shows "app_splitEnvelope unmarshal (app_writeEnvelope m sealed) = Inr (m, sealed)"
proof -
  define n where "n = length (json_print (am_json m))"
  have n: "0 < n" "n \<le> 16 * 2 ^ 20" using assms(2) by (simp_all add: n_def am_json_def)
  then have w: "unat (of_nat n :: u32) = n" by (intro unat_u32) simp
  then have "(of_nat n :: u32) \<noteq> 0" "\<not> (of_nat n :: u32) > of_nat (16 * 2 ^ 20)"
    using n by (auto simp: word_less_nat_alt)
  then show ?thesis
    using assms(1) w by (simp add: app_splitEnvelope_def app_writeEnvelope_def Let_def n_def [symmetric])
qed


section \<open>Expiries lie in the future\<close>

lemma duration_of_date:
  assumes "n < 10000" "hd rest = CHR ''-''" "rest \<noteq> []" "tl rest \<noteq> []" "is_digit (hd (tl rest))"
  shows "parse_duration frac (pad4 n @ rest) = None"
proof -
  obtain c rest' where rest: "rest = CHR ''-'' # c # rest'" "is_digit c"
    using assms(2-5) by (metis list.exhaust_sel)
  obtain a b d e where p: "pad4 n = [a, b, d, e]" "is_digit a" "is_digit b" "is_digit d" "is_digit e"
    using assms(1) by (auto simp: pad4_def pad2_def less_mult_imp_div_less)
  have v: "digit_val x < 10" if "is_digit x" for x using that by (auto simp: digit_val_def is_digit_def)
  have "leading_int 0 ([a, b, d, e] @ rest) = Some (((digit_val a * 10 + digit_val b) * 10 + digit_val d) * 10 + digit_val e, rest)"
    using p(2-5) v [OF p(2)] v [OF p(3)] v [OF p(4)] v [OF p(5)]
    by (simp add: rest Let_def is_digit_def)
  moreover have "takeWhile (\<lambda>c. \<not> unit_stop c) rest = ''-''"
    using rest(2) by (simp add: rest(1) unit_stop_def is_digit_def)
  ultimately have "duration_part frac (pad4 n @ rest) = None"
    unfolding p(1) duration_part_def using p(2) by (simp add: rest unit_stop_def Let_def unit_map_def)
  moreover have "a \<noteq> CHR ''-''" "a \<noteq> CHR ''+''" using p(2) by (auto simp: is_digit_def)
  ultimately show ?thesis
    using p by (simp add: parse_duration_def duration_parts.simps)
qed


text \<open>
  Every expiry that is accepted lies after the present, whatever its form, and the times the
  program itself prints are read back to the second: never refused while they lie ahead, never taken
  for a duration or a number of days.
\<close>

theorem app_expiry_future:
  assumes "0 \<le> fst (civil e)" "fst (civil e) < 10000" "now < e div second_ns * second_ns"
  shows "(\<forall>s t. app_ParseExpiry frac now s \<noteq> Inr t \<or> now < t) \<and>
    app_ParseExpiry frac now (format_rfc3339 e) = Inr (e div second_ns * second_ns)"
proof
  have "now < t" if "app_ParseExpiry frac now s = Inr t" for s t
    using that by (auto simp: app_ParseExpiry_def day_ns_def Let_def split: option.splits if_splits)
  then show "\<forall>s t. app_ParseExpiry frac now s \<noteq> Inr t \<or> now < t" by blast
  obtain y m d h mi s where c: "civil e = (y, m, d, h, mi, s)" by (cases "civil e") auto
  note spec = civil_spec [OF c]
  define rest where "rest = CHR ''-'' # pad2 m @ ''-'' @ pad2 d @ ''T'' @ pad2 h @ '':'' @ pad2 mi @ '':'' @ pad2 s @ ''Z''"
  have f: "format_rfc3339 e = pad4 (nat y) @ rest"
    using assms(1) by (simp add: format_rfc3339_def c rest_def)
  have "is_digit (hd (pad4 (nat y)))" "pad4 (nat y) \<noteq> []"
    using assms(1,2) by (auto simp: c pad4_def pad2_def nat_less_iff less_mult_imp_div_less)
  then have hd: "is_digit (hd (format_rfc3339 e))" "format_rfc3339 e \<noteq> []" by (simp_all add: f)
  have last: "last (format_rfc3339 e) = CHR ''Z''" by (simp add: f rest_def)
  have trim: "trim_space (format_rfc3339 e) = format_rfc3339 e"
    using hd last is_digit_graph [OF hd(1)] by (intro trim_space_id) (simp_all add: is_graph_def)
  have "parse_duration frac (format_rfc3339 e) = None"
    unfolding f
    by (rule duration_of_date) (use assms(1,2) spec in \<open>simp_all add: rest_def c pad2_def nat_less_iff less_mult_imp_div_less\<close>)
  moreover have "day_form (format_rfc3339 e) = None" by (simp add: day_form_def last)
  ultimately show "app_ParseExpiry frac now (format_rfc3339 e) = Inr (e div second_ns * second_ns)"
    using parse_format_rfc3339 [OF assms(1,2)] assms(3) hd(2) by (simp add: app_ParseExpiry_def trim)
qed

theorem app_expiry_future_witness:
  "app_ParseExpiry (\<lambda>f k u. 0) 0 (format_rfc3339 86400000000000) = Inr 86400000000000"
proof -
  have "0 \<le> fst (civil 86400000000000)" "fst (civil 86400000000000) < 10000" by code_simp+
  then show ?thesis using app_expiry_future [of 86400000000000 0] by simp
qed

end
