(* ===== verification/AppLink.thy ===== *)
theory AppLink
  imports GoStrings
begin

text \<open>
  \<^verbatim>\<open>internal/app/uri.go\<close>: links to drops. Of \<^verbatim>\<open>net/url\<close> the parts that a link goes through are written
  out: escaping of query values, splitting into scheme, authority, path, query and fragment, and
  reading a query. The authority of a link is not used: whether it is well formed (its host, port and
  user) is the parameter \<open>aok\<close>, of which only \<open>aok ''drop''\<close> is ever assumed. \<open>uni\<close> is
  \<^verbatim>\<open>strings.ToUpper\<close> on strings that are not ASCII.
\<close>

section \<open>Escaping\<close>

definition unreserved :: "char \<Rightarrow> bool" where
  "unreserved c \<longleftrightarrow> is_digit c \<or> is_lower c \<or> is_upper c \<or> c \<in> {CHR ''-'', CHR ''_'', CHR ''.'', CHR ''~''}"

fun query_escape :: "string \<Rightarrow> string" where
  "query_escape [] = []"
| "query_escape (c # cs) =
     (if unreserved c then [c]
      else if c = CHR '' '' then ''+''
      else CHR ''%'' # map ascii_upper (hex_encode [byte_of_char c])) @ query_escape cs"

text \<open>\<^verbatim>\<open>unescape\<close>, of a query (where \<open>+\<close> is a space) or a path.\<close>

fun url_unescape :: "bool \<Rightarrow> string \<Rightarrow> string option" where
  "url_unescape q [] = Some []"
| "url_unescape q (c # cs) =
     (if c = CHR ''%'' then
        (case cs of
           a # b # rest \<Rightarrow>
             (case hex_decode [a, b] of
                None \<Rightarrow> None
              | Some bs \<Rightarrow> map_option (\<lambda>r. map char_of_byte bs @ r) (url_unescape q rest))
         | _ \<Rightarrow> None)
      else map_option (\<lambda>r. (if q \<and> c = CHR ''+'' then CHR '' '' else c) # r) (url_unescape q cs))"

text \<open>\<^verbatim>\<open>strings.Cut\<close>.\<close>

fun cut_at :: "char \<Rightarrow> string \<Rightarrow> string \<times> string \<times> bool" where
  "cut_at c [] = ([], [], False)"
| "cut_at c (x # xs) =
     (if x = c then ([], xs, True) else case cut_at c xs of (a, b, f) \<Rightarrow> (x # a, b, f))"

lemma cut_at_shorter: "cut_at c s = (a, b, True) \<Longrightarrow> length b < length s"
proof (induction s arbitrary: a)
  case (Cons x s)
  then show ?case by (cases "cut_at c s") (auto split: if_splits intro: less_SucI)
qed simp

lemma cut_at_found: "c \<notin> set a \<Longrightarrow> cut_at c (a @ c # b) = (a, b, True)"
  by (induction a) auto

lemma cut_at_missing: "c \<notin> set a \<Longrightarrow> cut_at c a = (a, [], False)"
  by (induction a) auto

text \<open>\<^verbatim>\<open>ParseQuery\<close>: pairs that cannot be read are left out; the error is ignored by the caller.\<close>

definition query_pair :: "string \<Rightarrow> (string \<times> string) list" where
  "query_pair part =
     (if CHR '';'' \<in> set part \<or> part = [] then []
      else case cut_at CHR ''='' part of (k, v, _) \<Rightarrow>
        (case url_unescape True k of
           None \<Rightarrow> []
         | Some k' \<Rightarrow> (case url_unescape True v of None \<Rightarrow> [] | Some v' \<Rightarrow> [(k', v')])))"

function parse_query :: "string \<Rightarrow> (string \<times> string) list" where
  "parse_query q =
     (case cut_at CHR ''&'' q of (part, rest, found) \<Rightarrow> query_pair part @ (if found then parse_query rest else []))"
  by pat_completeness auto
termination
  by (relation "measure length") (auto dest: cut_at_shorter simp: eq_commute [of _ "cut_at _ _"])

declare parse_query.simps [simp del]

definition query_get :: "(string \<times> string) list \<Rightarrow> string \<Rightarrow> string" where
  "query_get q k = (case map_of q k of None \<Rightarrow> [] | Some v \<Rightarrow> v)"

section \<open>Parsing a URL\<close>

record url =
  u_Scheme :: string
  u_Opaque :: string
  u_Path :: string
  u_RawQuery :: string

definition is_letter :: "char \<Rightarrow> bool" where
  "is_letter c \<longleftrightarrow> is_lower c \<or> is_upper c"

text \<open>\<^verbatim>\<open>getScheme\<close>: \<open>None\<close> where the scheme is missing.\<close>

fun scheme_end :: "nat \<Rightarrow> string \<Rightarrow> nat option option" where
  "scheme_end i [] = Some None"
| "scheme_end i (c # cs) =
     (if is_letter c then scheme_end (i + 1) cs
      else if is_digit c \<or> c \<in> {CHR ''+'', CHR ''-'', CHR ''.''}
      then (if i = 0 then Some None else scheme_end (i + 1) cs)
      else if c = CHR '':'' then (if i = 0 then None else Some (Some i))
      else Some None)"

definition get_scheme :: "string \<Rightarrow> (string \<times> string) option" where
  "get_scheme s =
     (case scheme_end 0 s of
        None \<Rightarrow> None
      | Some None \<Rightarrow> Some ([], s)
      | Some (Some i) \<Rightarrow> Some (take i s, drop (i + 1) s))"

definition is_ctl :: "char \<Rightarrow> bool" where
  "is_ctl c \<longleftrightarrow> code c < 32 \<or> code c = 127"

definition split_query :: "string \<Rightarrow> string \<times> string" where
  "split_query rest =
     (if has_suffix ''?'' rest \<and> length (filter (\<lambda>c. c = CHR ''?'') rest) = 1 then (butlast rest, [])
      else case cut_at CHR ''?'' rest of (a, b, _) \<Rightarrow> (a, b))"

definition url_Parse :: "(string \<Rightarrow> bool) \<Rightarrow> string \<Rightarrow> url option" where
  "url_Parse aok raw =
     (case cut_at CHR ''#'' raw of (u, frag, _) \<Rightarrow>
        if list_ex is_ctl u then None
        else if u = ''*'' then Some \<lparr>u_Scheme = [], u_Opaque = [], u_Path = ''*'', u_RawQuery = []\<rparr>
        else case get_scheme u of
          None \<Rightarrow> None
        | Some (scheme0, rest0) \<Rightarrow>
            (let scheme = map ascii_lower scheme0 in
             case split_query rest0 of (rest, query) \<Rightarrow>
               if url_unescape False frag = None then None
               else if \<not> has_prefix ''/'' rest \<and> scheme \<noteq> []
               then Some \<lparr>u_Scheme = scheme, u_Opaque = rest, u_Path = [], u_RawQuery = query\<rparr>
               else if \<not> has_prefix ''/'' rest \<and> CHR '':'' \<in> set (fst (cut_at CHR ''/'' rest)) then None
               else if (scheme \<noteq> [] \<or> \<not> has_prefix ''///'' rest) \<and> has_prefix ''//'' rest
               then (let r = drop 2 rest; authority = takeWhile (\<lambda>c. c \<noteq> CHR ''/'') r in
                     if \<not> aok authority then None
                     else map_option (\<lambda>p. \<lparr>u_Scheme = scheme, u_Opaque = [], u_Path = p, u_RawQuery = query\<rparr>)
                       (url_unescape False (dropWhile (\<lambda>c. c \<noteq> CHR ''/'') r)))
               else map_option (\<lambda>p. \<lparr>u_Scheme = scheme, u_Opaque = [], u_Path = p, u_RawQuery = query\<rparr>)
                      (url_unescape False rest)))"

section \<open>Links\<close>

definition app_FormatDropURI :: "string \<Rightarrow> string \<Rightarrow> string \<Rightarrow> string" where
  "app_FormatDropURI did relay token =
     (let v = (if relay \<noteq> [] then [''relay='' @ query_escape relay] else []) @
              (if token \<noteq> [] then [''token='' @ query_escape token] else []);
          u = ''ghostdrop://drop/'' @ did
      in case v of [] \<Rightarrow> u | [a] \<Rightarrow> u @ ''?'' @ a | a # b # _ \<Rightarrow> u @ ''?'' @ a @ ''&'' @ b)"

definition validDropID :: "string \<Rightarrow> bool" where
  "validDropID did \<longleftrightarrow> length did = 15 \<and> has_prefix ''GD-'' did \<and>
     list_all (\<lambda>c. is_digit c \<or> code CHR ''A'' \<le> code c \<and> code c \<le> code CHR ''F'') (drop 3 did)"

record drop_ref =
  dr_ID :: string
  dr_Relay :: string
  dr_Token :: string

datatype uri_err = UriBadID string | UriBadURL | UriBadScheme string

definition trim_both :: "char \<Rightarrow> string \<Rightarrow> string" where
  "trim_both c s = rev (dropWhile (\<lambda>x. x = c) (rev (dropWhile (\<lambda>x. x = c) s)))"

definition app_ParseDropURI :: "(string \<Rightarrow> string) \<Rightarrow> (string \<Rightarrow> bool) \<Rightarrow> string \<Rightarrow> uri_err + drop_ref" where
  "app_ParseDropURI uni aok s0 =
     (let s = trim_space s0 in
      if has_prefix ''GD-'' s \<and> \<not> contains ''://'' s then
        (if \<not> validDropID s then Inl (UriBadID s)
         else Inr \<lparr>dr_ID = to_upper uni s, dr_Relay = [], dr_Token = []\<rparr>)
      else case url_Parse aok s of
             None \<Rightarrow> Inl UriBadURL
           | Some u \<Rightarrow>
               (if u_Scheme u \<noteq> ''ghostdrop'' then Inl (UriBadScheme (u_Scheme u))
                else let rest = (if u_Opaque u = [] then trim_prefix ''drop/'' (trim_prefix ''/'' (u_Path u))
                         else trim_prefix ''drop/'' (u_Opaque u));
                         did = to_upper uni (trim_both CHR ''/'' rest)
                     in if \<not> validDropID did then Inl (UriBadID rest)
                        else let q = parse_query (u_RawQuery u) in
                          Inr \<lparr>dr_ID = did, dr_Relay = query_get q ''relay'', dr_Token = query_get q ''token''\<rparr>))"

section \<open>Escaping round trip\<close>

text \<open>The delimiters of a link.\<close>

definition delimiters :: "char set" where
  "delimiters = {CHR ''&'', CHR ''='', CHR '';'', CHR ''#'', CHR ''?'', CHR ''/'', CHR '':''}"

lemma unreserved_plain:
  assumes "unreserved c"
  shows "c \<noteq> CHR ''%''" "c \<noteq> CHR ''+''" "c \<notin> delimiters" "is_graph c" "\<not> is_ctl c"
  using assms
  by (auto simp: unreserved_def delimiters_def is_digit_def is_lower_def is_upper_def is_graph_def is_ctl_def)

lemma hex_byte:
  obtains a b where "hex_encode [byte_of_char c] = [a, b]" "hex_decode [ascii_upper a, ascii_upper b] = Some [byte_of_char c]"
  using that [OF _ hex_decode_upper [of "[byte_of_char c]", unfolded hex_encode.simps list.map]] by simp

lemma unescape_escape: "url_unescape True (query_escape s) = Some s"
proof (induction s)
  case (Cons c s)
  show ?case
  proof (cases "unreserved c")
    case True
    then show ?thesis using Cons unreserved_plain [OF True] by simp
  next
    case False
    obtain a b where "hex_encode [byte_of_char c] = [a, b]" "hex_decode [ascii_upper a, ascii_upper b] = Some [byte_of_char c]"
      by (rule hex_byte)
    then show ?thesis using Cons False by (simp del: hex_decode.simps hex_encode.simps)
  qed
qed simp

text \<open>What can occur in an escaped string.\<close>

lemma hex_unreserved: "d \<in> set (map ascii_upper (hex_encode bs)) \<Longrightarrow> unreserved d"
proof (induction bs)
  case (Cons b bs)
  have u: "unreserved (ascii_upper (hex_char n))" if "n < 16" for n
    using that by (auto simp: unreserved_def hex_char_def ascii_upper_def is_digit_def is_lower_def is_upper_def)
  have "unat b div 16 < 16" by (rule less_mult_imp_div_less) simp
  moreover have "unat b mod 16 < 16" by simp
  ultimately have "unat b div 16 < 16" "unat b mod 16 < 16" .
  with Cons u show ?case by auto
qed simp

lemma escape_chars: "d \<in> set (query_escape s) \<Longrightarrow> unreserved d \<or> d = CHR ''+'' \<or> d = CHR ''%''"
proof (induction s)
  case (Cons c s)
  then show ?case
    using hex_unreserved [of d "[byte_of_char c]"] by (auto simp del: hex_encode.simps split: if_splits)
qed simp

lemma escape_plain:
  assumes "d \<in> set (query_escape s)"
  shows "d \<notin> delimiters" "is_graph d" "\<not> is_ctl d"
  using escape_chars [OF assms] unreserved_plain [of d] by (auto simp: delimiters_def is_graph_def is_ctl_def)


section \<open>Links round trip\<close>

lemma validDropID_chars:
  assumes "validDropID did" "c \<in> set did"
  shows "unreserved c" "ascii_upper c = c" "is_ascii c"
proof -
  obtain r where r: "did = ''GD-'' @ r" "list_all (\<lambda>c. is_digit c \<or> code CHR ''A'' \<le> code c \<and> code c \<le> code CHR ''F'') r"
    using assms(1) by (auto simp: validDropID_def has_prefix_iff)
  have "is_digit c \<or> is_upper c \<or> c = CHR ''-''"
    using assms(2) r by (auto simp: list_all_iff is_digit_def is_upper_def)
  then show "unreserved c" "ascii_upper c = c" "is_ascii c"
    by (auto simp: unreserved_def ascii_upper_def is_lower_def is_digit_def is_upper_def is_ascii_def)
qed

lemma validDropID_plain:
  assumes "validDropID did"
  shows "did \<noteq> []" "to_upper uni did = did" "url_unescape False did = Some did" "set did \<inter> delimiters = {}"
    "\<not> list_ex is_ctl did" "is_graph (last did)" "last did \<noteq> CHR ''?''"
proof -
  note ch = validDropID_chars [OF assms] and un = unreserved_plain [OF validDropID_chars(1) [OF assms]]
  show ne: "did \<noteq> []" using assms by (auto simp: validDropID_def)
  show "to_upper uni did = did" using ch(2,3) by (auto simp: to_upper_def list_all_iff map_idI)
  have "\<forall>c \<in> set s. c \<noteq> CHR ''%'' \<Longrightarrow> url_unescape False s = Some s" for s by (induction s) auto
  then show "url_unescape False did = Some did" using un(1) by blast
  show "set did \<inter> delimiters = {}" "\<not> list_ex is_ctl did" using un(3,5) by (auto simp: list_ex_iff)
  show "is_graph (last did)" using un(4) last_in_set [OF ne] by blast
  show "last did \<noteq> CHR ''?''" using un(3) [OF last_in_set [OF ne]] by (auto simp: delimiters_def)
qed

lemma query_escape_Nil [simp]: "query_escape s = [] \<longleftrightarrow> s = []"
  by (cases s) auto

lemma query_pair_ok:
  assumes "set k \<inter> delimiters = {}" "url_unescape True k = Some k" "k \<noteq> []"
  shows "query_pair (k @ CHR ''='' # query_escape v) = [(k, v)]"
proof -
  have "CHR ''='' \<notin> set k" "CHR '';'' \<notin> set (k @ CHR ''='' # query_escape v)"
    using assms(1) escape_plain(1) [of _ v] by (auto simp: delimiters_def)
  then show ?thesis using assms(2,3) by (simp add: query_pair_def cut_at_found unescape_escape)
qed

definition link_query :: "string \<Rightarrow> string \<Rightarrow> string" where
  "link_query relay token =
     (if relay = [] then (if token = [] then [] else ''token='' @ query_escape token)
      else ''relay='' @ query_escape relay @ (if token = [] then [] else ''&token='' @ query_escape token))"

lemma FormatDropURI_query:
  "app_FormatDropURI did relay token =
     ''ghostdrop://drop/'' @ did @ (if relay = [] \<and> token = [] then [] else CHR ''?'' # link_query relay token)"
  by (simp add: app_FormatDropURI_def link_query_def Let_def)

lemma parse_link_query:
  "query_get (parse_query (link_query relay token)) ''relay'' = relay"
  "query_get (parse_query (link_query relay token)) ''token'' = token"
proof -
  have r: "query_pair (''relay='' @ query_escape v) = [(''relay'', v)]" for v
    using query_pair_ok [of "''relay''" v] by (simp add: delimiters_def)
  have t: "query_pair (''token='' @ query_escape v) = [(''token'', v)]" for v
    using query_pair_ok [of "''token''" v] by (simp add: delimiters_def)
  have amp: "CHR ''&'' \<notin> set (query_escape v)" for v using escape_plain(1) [of "CHR ''&''" v] by (auto simp: delimiters_def)
  have one: "parse_query (k @ query_escape v) = query_pair (k @ query_escape v)" if "CHR ''&'' \<notin> set k" for k v
    using amp that by (subst parse_query.simps) (simp add: cut_at_missing)
  have two: "parse_query (k @ query_escape v @ CHR ''&'' # rest) = query_pair (k @ query_escape v) @ parse_query rest"
    if "CHR ''&'' \<notin> set k" for k v rest
    using amp that cut_at_found [of "CHR ''&''" "k @ query_escape v" rest] by (subst parse_query.simps) simp
  have e: "parse_query [] = []" by (subst parse_query.simps) (simp add: query_pair_def)
  have "parse_query (link_query relay token) =
      (if relay = [] then [] else [(''relay'', relay)]) @ (if token = [] then [] else [(''token'', token)])"
    using one [of "''token=''" token] one [of "''relay=''" relay] two [of "''relay=''" relay "''token='' @ query_escape token"] r t e
    by (simp add: link_query_def)
  then show "query_get (parse_query (link_query relay token)) ''relay'' = relay"
    "query_get (parse_query (link_query relay token)) ''token'' = token"
    by (simp_all add: query_get_def)
qed

lemma link_query_chars:
  assumes "d \<in> set (link_query relay token)"
  shows "is_graph d" "\<not> is_ctl d" "d \<noteq> CHR ''#''" "d \<noteq> CHR ''?''"
proof -
  have "d \<in> set ''relay=&token'' \<or> d \<in> set (query_escape relay) \<or> d \<in> set (query_escape token)"
    using assms by (auto simp: link_query_def split: if_splits)
  then show "is_graph d" "\<not> is_ctl d" "d \<noteq> CHR ''#''" "d \<noteq> CHR ''?''"
    using escape_plain [of d relay] escape_plain [of d token] by (auto simp: is_graph_def is_ctl_def delimiters_def)
qed


lemma link_query_last: "link_query relay token \<noteq> [] \<Longrightarrow> last (link_query relay token) \<in> set (query_escape (if token = [] then relay else token))"
  using last_in_set [of "query_escape relay"] last_in_set [of "query_escape token"] by (auto simp: link_query_def split: if_splits)

text \<open>How \<^verbatim>\<open>url.Parse\<close> takes a link apart.\<close>

lemma url_Parse_link:
  assumes "validDropID did" "aok ''drop''" "q = [] \<or> q = CHR ''?'' # link_query relay token \<and> link_query relay token \<noteq> []"
  shows "url_Parse aok (''ghostdrop://drop/'' @ did @ q) =
    Some \<lparr>u_Scheme = ''ghostdrop'', u_Opaque = [], u_Path = CHR ''/'' # did, u_RawQuery = drop 1 q\<rparr>"
proof -
  note did = validDropID_plain [OF assms(1)]
  have qch: "d = CHR ''?'' \<or> (is_graph d \<and> \<not> is_ctl d \<and> d \<noteq> CHR ''#'' \<and> d \<noteq> CHR ''?'')" if "d \<in> set q" for d
    using assms(3) that link_query_chars [of d relay token] by auto
  have "CHR ''#'' \<notin> set (''ghostdrop://drop/'' @ did @ q)"
    using did(4) qch by (auto simp: delimiters_def)
  then have frag: "cut_at CHR ''#'' (''ghostdrop://drop/'' @ did @ q) = (''ghostdrop://drop/'' @ did @ q, [], False)"
    by (rule cut_at_missing)
  have ctl: "\<not> list_ex is_ctl (''ghostdrop://drop/'' @ did @ q)"
  proof -
    have "\<not> is_ctl CHR ''?''" by (simp add: is_ctl_def)
    then have "\<not> list_ex is_ctl q" using qch by (auto simp: list_ex_iff)
    moreover have "\<not> list_ex is_ctl ''ghostdrop://drop/''" by (simp add: is_ctl_def)
    ultimately show ?thesis using did(5) by (simp only: list_ex_append) simp
  qed
  have scheme: "get_scheme (''ghostdrop://drop/'' @ did @ q) = Some (''ghostdrop'', ''//drop/'' @ did @ q)"
    by (simp add: get_scheme_def is_letter_def is_lower_def is_upper_def is_digit_def)
  have q1: "CHR ''?'' \<notin> set (''//drop/'' @ did)" using did(4) by (auto simp: delimiters_def)
  have query: "split_query (''//drop/'' @ did @ q) = (''//drop/'' @ did, drop 1 q)"
  proof (cases "q = []")
    case True
    have "last (''//drop/'' @ did) \<noteq> CHR ''?''" using did(1,7) by simp
    then have "\<not> has_suffix ''?'' (''//drop/'' @ did)" by (metis has_suffix_iff last_snoc)
    with True q1 show ?thesis by (simp add: split_query_def cut_at_missing [OF q1, simplified])
  next
    case False
    then have q: "q = CHR ''?'' # link_query relay token" "link_query relay token \<noteq> []" using assms(3) by auto
    have "last (link_query relay token) \<noteq> CHR ''?''" using link_query_chars(4) [OF last_in_set [OF q(2)]] .
    then have "last (''//drop/'' @ did @ q) \<noteq> CHR ''?''" using q by simp
    then have "\<not> has_suffix ''?'' (''//drop/'' @ did @ q)" by (metis has_suffix_iff last_snoc)
    then show ?thesis using cut_at_found [OF q1, of "link_query relay token"] by (simp add: split_query_def q(1))
  qed
  define L R B where LRB: "L = ''ghostdrop://drop/'' @ did @ q" "R = ''//drop/'' @ did @ q" "B = ''//drop/'' @ did"
  have B: "has_prefix ''/'' B" "has_prefix ''//'' B" "takeWhile (\<lambda>c. c \<noteq> CHR ''/'') (drop 2 B) = ''drop''"
    "dropWhile (\<lambda>c. c \<noteq> CHR ''/'') (drop 2 B) = CHR ''/'' # did"
    by (simp_all add: LRB(3) has_prefix_def)
  have "map ascii_lower ''ghostdrop'' = ''ghostdrop''" by (simp add: ascii_lower_def is_upper_def)
  moreover have "L \<noteq> ''*''" by (simp add: LRB)
  ultimately have "url_Parse aok L = Some \<lparr>u_Scheme = ''ghostdrop'', u_Opaque = [], u_Path = CHR ''/'' # did, u_RawQuery = drop 1 q\<rparr>"
    using assms(2) did(3) ctl frag scheme query unfolding LRB(1,2,3) [symmetric]
    by (simp add: url_Parse_def B)
  then show ?thesis by (simp only: LRB(1))
qed

lemma parse_link:
  assumes "validDropID did" "aok ''drop''"
  shows "app_ParseDropURI uni aok (app_FormatDropURI did relay token) = Inr \<lparr>dr_ID = did, dr_Relay = relay, dr_Token = token\<rparr>"
    "app_ParseDropURI uni aok did = Inr \<lparr>dr_ID = did, dr_Relay = [], dr_Token = []\<rparr>"
proof -
  note did = validDropID_plain [OF assms(1)]
  define q where "q = (if relay = [] \<and> token = [] then [] else CHR ''?'' # link_query relay token)"
  have q: "q = [] \<or> q = CHR ''?'' # link_query relay token \<and> link_query relay token \<noteq> []"
    by (auto simp: q_def link_query_def)
  define link where "link = ''ghostdrop://drop/'' @ did @ q"
  have link: "app_FormatDropURI did relay token = link" by (simp add: FormatDropURI_query link_def q_def)
  have "is_graph (last link)"
    using q did(1,6) link_query_last link_query_chars(1) [OF last_in_set] by (auto simp: link_def)
  then have trim: "trim_space link = link" by (intro trim_space_id) (simp_all add: link_def is_graph_def)
  have slash: "CHR ''/'' \<notin> set did" using did(4) by (auto simp: delimiters_def)
  have tb: "trim_both CHR ''/'' did = did"
  proof -
    have "dropWhile (\<lambda>x. x = CHR ''/'') s = s" if "CHR ''/'' \<notin> set s" for s using that by (cases s) auto
    then show ?thesis using slash by (simp add: trim_both_def)
  qed
  have "\<not> has_prefix ''drop/'' did" using assms(1) by (auto simp: validDropID_def has_prefix_iff)
  then have rest: "trim_prefix ''drop/'' (trim_prefix ''/'' (CHR ''/'' # did)) = did"
    by (simp add: trim_prefix_def has_prefix_def)
  have dq: "query_get (parse_query (drop 1 q)) ''relay'' = relay" "query_get (parse_query (drop 1 q)) ''token'' = token"
    using parse_link_query [of relay token] by (auto simp: q_def link_query_def)
  have "\<not> has_prefix ''GD-'' link" by (simp add: link_def has_prefix_def)
  then show "app_ParseDropURI uni aok (app_FormatDropURI did relay token) = Inr \<lparr>dr_ID = did, dr_Relay = relay, dr_Token = token\<rparr>"
    using url_Parse_link [of did aok q relay token, OF assms q, folded link_def] dq assms(1)
    by (simp add: app_ParseDropURI_def link trim rest tb did(2))
  have "is_graph (hd did)" using assms(1) by (auto simp: validDropID_def has_prefix_iff is_graph_def)
  then have "trim_space did = did" using did(1,6) by (intro trim_space_id)
  moreover have "\<not> contains ''://'' s" if "CHR ''/'' \<notin> set s" for s
    using that by (induction s) (auto simp: has_prefix_iff)
  moreover have "has_prefix ''GD-'' did" using assms(1) by (simp add: validDropID_def)
  ultimately show "app_ParseDropURI uni aok did = Inr \<lparr>dr_ID = did, dr_Relay = [], dr_Token = []\<rparr>"
    using slash assms(1) by (simp add: app_ParseDropURI_def did(2))
qed

text \<open>
  C33 A link round trip: a link made for any drop identifier, relay address and token (arbitrary byte
  strings, so every character that has to be escaped) parses back to exactly these three; and a bare
  identifier parses to itself.
\<close>

theorem app_link_roundtrip:
  assumes "validDropID did" "aok ''drop''"
  shows "app_ParseDropURI uni aok (app_FormatDropURI did relay token) = Inr \<lparr>dr_ID = did, dr_Relay = relay, dr_Token = token\<rparr> \<and>
    app_ParseDropURI uni aok did = Inr \<lparr>dr_ID = did, dr_Relay = [], dr_Token = []\<rparr>"
  using parse_link [where aok = aok, OF assms] by blast

theorem app_link_roundtrip_witness:
  "app_ParseDropURI (\<lambda>s. s) (\<lambda>h. h = ''drop'') (app_FormatDropURI ''GD-00112233AABB'' ''http://r:8080/a b&c'' ''50%'') =
     Inr \<lparr>dr_ID = ''GD-00112233AABB'', dr_Relay = ''http://r:8080/a b&c'', dr_Token = ''50%''\<rparr>"
proof -
  have "validDropID ''GD-00112233AABB''" by (simp add: validDropID_def has_prefix_def is_digit_def)
  from app_link_roundtrip [OF this, of "\<lambda>h. h = ''drop''"] show ?thesis by blast
qed

end
