(* ===== verification/AppService.thy ===== *)
theory AppService
  imports AppAccess AppLink AppStore Archive RelayClients "HOL-Library.List_Lexorder" "HOL-Library.Char_ord"
begin

text \<open>
  The application's service, \<^verbatim>\<open>internal/app/app.go\<close>: sending, receiving, inspecting, verifying, revoking
  and listing drops, over the local store or a relay. The metadata of a drop is a document of a
  directory, kept as the manifest and the token (its JSON text is read back as it was written); the
  history is the list of its lines. A relay is a function \<open>client\<close> that performs requests and threads
  its state. Draws of random bytes, the user's name, the QR encoder, the zip writer and reader and the
  decoder of manifests are parameters; staging directories are private and fresh, so what is staged is
  passed as values. The clock stands still within a call. A panic ends a call (\<open>ApPanic\<close>). That a path
  is taken by a directory is not modelled, and progress callbacks have no effect on a drop.
\<close>

section \<open>State and results\<close>

record app =
  ap_drops :: "(app_manifest \<times> string) dir"
  ap_store :: fs_dir
  ap_history :: "json list"
  ap_relayURL :: string

record send_opts =
  so_Paths :: "zip_source list"
  so_To :: string
  so_Expire :: string
  so_Mode :: string
  so_Anonymous :: bool
  so_Password :: string
  so_Price :: u64
  so_PaidTo :: string
  so_Relay :: string
  so_OneTime :: bool
  so_Demo :: bool

record send_result =
  sn_DropID :: string
  sn_Link :: string
  sn_QRpng :: bytes
  sn_Size :: int
  sn_Manifest :: app_manifest

record send_draws =
  sd_id :: "bytes option"
  sd_token :: "bytes option"
  sd_key :: "bytes option"
  sd_header :: "bytes option"
  sd_names :: "nat \<Rightarrow> bytes option"
  sd_access :: access_draws
  sd_sign :: "bytes option"

datatype app_err =
    ApPanic | ApNoPaths | ApStat | ApExpiry expiry_err | ApPriceNeedsPayee | ApZip zip_err | ApEmpty
  | ApCrypto app_crypto_err | ApManifest am_err | ApAccess access_err | ApRelayCreate arl_err
  | ApRelayUpload arl_err | ApRelay arl_err | ApStore st_err | ApQR | ApLink uri_err | ApNotFound | ApExpired
  | ApPayloadSize | ApPayloadHash | ApEnvelope env_err | ApPlaintextHash | ApFileHash string | ApSignature

text \<open>What the process finds around it.\<close>

record app_env =
  ae_prims :: prims
  ae_frac :: "nat \<Rightarrow> nat \<Rightarrow> nat \<Rightarrow> nat"
  ae_user :: string
  ae_qr :: "string \<Rightarrow> bytes option"
  ae_zipw :: "zip_content \<Rightarrow> bytes"
  ae_unzip :: "bytes \<Rightarrow> zip_item list option"
  ae_unmarshal :: "bytes \<Rightarrow> app_manifest option"
  ae_upper :: "string \<Rightarrow> string"
  ae_authority :: "string \<Rightarrow> bool"

definition app_randToken :: "bytes option \<Rightarrow> string option" where
  "app_randToken rnd = map_option hex_encode rnd"

section \<open>Metadata\<close>

definition app_saveDrop :: "string \<Rightarrow> string \<Rightarrow> app_manifest \<Rightarrow> app \<Rightarrow> app" where
  "app_saveDrop did token m a = a\<lparr>ap_drops := dput did (m, token) (ap_drops a)\<rparr>"

definition app_loadDrop :: "string \<Rightarrow> app \<Rightarrow> app_err + app_manifest" where
  "app_loadDrop did a = (case dget (ap_drops a) did of None \<Rightarrow> Inl ApNotFound | Some (m, _) \<Rightarrow> Inr m)"

definition history_line :: "string \<Rightarrow> app_manifest \<Rightarrow> json" where
  "history_line action m =
     JsObj [(''action'', JsStr action), (''drop'', JsStr (am_DropID m)), (''mode'', JsStr (am_Mode m)),
       (''size'', JsInt (am_PayloadSize m)), (''ts'', JsStr (am_CreatedAt m))]"

definition app_appendHistory :: "string \<Rightarrow> app_manifest \<Rightarrow> app \<Rightarrow> app" where
  "app_appendHistory action m a = a\<lparr>ap_history := ap_history a @ [history_line action m]\<rparr>"

section \<open>Sending\<close>

text \<open>The plaintext that is sent: a single file as it is, anything else as an archive; with the names,
  sizes and hashes for the manifest.\<close>

record plaintext =
  pt_data :: bytes
  pt_hash :: string
  pt_names :: "string list"
  pt_sizes :: "int list"
  pt_hashes :: "string list"

definition send_zip :: "app_env \<Rightarrow> zip_source list \<Rightarrow> app_err + plaintext" where
  "send_zip E paths =
     (case app_ZipSources (ae_prims E) (ae_zipw E) paths ''payload.zip'' Map.empty of
        (Inl e, _) \<Rightarrow> Inl (ApZip e)
      | (Inr (entries, zh), staged) \<Rightarrow>
          (if entries = [] then Inl ApEmpty
           else Inr \<lparr>pt_data = the (staged ''payload.zip''), pt_hash = zh, pt_names = map ze_Name entries,
             pt_sizes = map ze_Size entries, pt_hashes = map ze_Hash entries\<rparr>))"

definition send_plain :: "app_env \<Rightarrow> zip_source list \<Rightarrow> app_err + plaintext" where
  "send_plain E paths =
     (case paths of
        [SFile p r] \<Rightarrow>
          (case app_Sha256HexReader (ae_prims E) r of
             None \<Rightarrow> Inl (ApCrypto ANoSuchFile)
           | Some (h, _) \<Rightarrow> Inr \<lparr>pt_data = rd_data r, pt_hash = h, pt_names = [filepath_Base p],
               pt_sizes = [int (length (rd_data r))], pt_hashes = [h]\<rparr>)
      | _ \<Rightarrow> send_zip E paths)"

definition is_missing :: "zip_source \<Rightarrow> bool" where
  "is_missing s = (case s of SMissing _ \<Rightarrow> True | _ \<Rightarrow> False)"

definition send_mode :: "send_opts \<Rightarrow> string" where
  "send_mode o' =
     (if so_Mode o' \<noteq> [] then so_Mode o'
      else if so_Demo o' then ''demo''
      else if so_Password o' \<noteq> [] then ''password''
      else if so_Price o' > 0 then ''paid''
      else if so_To o' \<noteq> [] then ''recipient''
      else ''open'')"

definition send_sender :: "app_env \<Rightarrow> send_opts \<Rightarrow> string" where
  "send_sender E o' = (if so_Demo o' then ''DEMO'' else if so_Anonymous o' then ''anonymous'' else ae_user E)"

text \<open>The address of the relay, if one is used.\<close>

definition send_relay :: "app \<Rightarrow> send_opts \<Rightarrow> string option" where
  "send_relay a o' =
     (let r1 = trim_space (so_Relay o');
          relayAddr = (if r1 = [] then trim_space (ap_relayURL a) else r1)
      in if relayAddr \<noteq> [] \<and> relayAddr \<noteq> ''local'' then Some relayAddr else None)"

text \<open>The unsigned manifest of a sealed payload.\<close>

definition send_manifest ::
  "app_env \<Rightarrow> time \<Rightarrow> send_draws \<Rightarrow> send_opts \<Rightarrow> string option \<Rightarrow> string \<Rightarrow> time \<Rightarrow> bytes \<Rightarrow> plaintext \<Rightarrow> string \<Rightarrow> int \<Rightarrow>
    app_err + app_manifest" where
  "send_manifest E now d o' relay did expiry key pt cipherHash sealedSize =
     (let m0 = (am_NewManifest now did (send_mode o') expiry)\<lparr>am_SenderIdentity := send_sender E o',
            am_RecipientCommitment := so_To o', am_PayloadHash := cipherHash, am_PlaintextHash := pt_hash pt,
            am_PayloadSize := sealedSize\<rparr>
      in case am_EncryptFilenames (ae_prims E) (sd_names d) key (pt_names pt) (pt_sizes pt) (pt_hashes pt) m0 of
           None \<Rightarrow> Inl ApPanic
         | Some (Some e, _) \<Rightarrow> Inl (ApManifest e)
         | Some (None, m1) \<Rightarrow>
             (case app_lockAccess (ae_prims E) (sd_access d) m1 key (so_Password o') (so_To o') of
                Inl e \<Rightarrow> Inl (ApAccess e)
              | Inr m2 \<Rightarrow>
                  (let m3 = (if so_Price o' > 0
                         then m2\<lparr>am_Payment := \<lparr>py_Amount = so_Price o', py_Address = so_PaidTo o', py_TxidRequired = True\<rparr>\<rparr>
                         else m2)
                   in Inr (m3\<lparr>am_OneTime := so_OneTime o',
                        am_Storage := \<lparr>sr_Backend = (if relay = None then ''local'' else ''relay''), sr_Ref = did\<rparr>\<rparr>))))"

text \<open>Signed with a key that is drawn for this drop, and validated.\<close>

definition send_signed :: "app_env \<Rightarrow> send_draws \<Rightarrow> app_manifest \<Rightarrow> app_err + app_manifest" where
  "send_signed E d m =
     (case sd_sign d of
        None \<Rightarrow> Inl (ApCrypto ARandFailed)
      | Some seed \<Rightarrow>
          (case am_Sign (ae_prims E) (seed @ p_seed_pub (ae_prims E) seed) m of
             (Some e, _) \<Rightarrow> Inl (ApManifest e)
           | (None, m') \<Rightarrow> (case am_Validate m' of Some e \<Rightarrow> Inl (ApManifest e) | None \<Rightarrow> Inr m')))"

text \<open>What is sent before it is delivered: identifier, token, manifest, sealed payload, expiry.\<close>

definition send_prepare ::
  "app_env \<Rightarrow> time \<Rightarrow> send_draws \<Rightarrow> send_opts \<Rightarrow> app \<Rightarrow> app_err + string \<times> string \<times> app_manifest \<times> bytes \<times> time" where
  "send_prepare E now d o' a =
     (if so_Paths o' = [] then Inl ApNoPaths
      else if list_ex is_missing (so_Paths o') then Inl ApStat
      else case app_ParseExpiry (ae_frac E) now (so_Expire o') of
        Inl e \<Rightarrow> Inl (ApExpiry e)
      | Inr expiry \<Rightarrow>
          (if so_Price o' > 0 \<and> so_PaidTo o' = [] then Inl ApPriceNeedsPayee
           else case (app_GenerateDropID (sd_id d), app_randToken (sd_token d)) of
             (Some did, Some token) \<Rightarrow>
               (case send_plain E (so_Paths o') of
                  Inl e \<Rightarrow> Inl e
                | Inr pt \<Rightarrow>
                    (case app_GenerateFileKey (sd_key d) of
                       Inl e \<Rightarrow> Inl (ApCrypto e)
                     | Inr key \<Rightarrow>
                         (case app_sealWithProgress (ae_prims E) (sd_header d) [''plain'' \<mapsto> pt_data pt] ''plain'' ''payload.gd'' key of
                            (Inl e, _) \<Rightarrow> Inl (ApCrypto e)
                          | (Inr (cipherHash, _), staged, _) \<Rightarrow>
                              (let sealed = the (staged ''payload.gd'') in
                               case send_manifest E now d o' (send_relay a o') did expiry key pt cipherHash (int (length sealed)) of
                                 Inl e \<Rightarrow> Inl e
                               | Inr m \<Rightarrow>
                                   (case send_signed E d m of
                                      Inl e \<Rightarrow> Inl e
                                    | Inr m' \<Rightarrow> Inr (did, token, m', sealed, expiry))))))
           | _ \<Rightarrow> Inl ApPanic))"

text \<open>Delivery to a relay, and to the local store.\<close>

definition send_upload ::
  "'s http \<Rightarrow> string \<Rightarrow> string \<Rightarrow> app_manifest \<Rightarrow> bytes \<Rightarrow> time \<Rightarrow> bool \<Rightarrow> 's \<Rightarrow> app_err option \<times> 's" where
  "send_upload client token did m sealed expiry ot s =
     (case arl_Create client token did (int (length sealed)) expiry ot s of
        (Some e, s1) \<Rightarrow> (Some (ApRelayCreate e), s1)
      | (None, s1) \<Rightarrow>
          (let env = app_writeEnvelope m sealed in
           case arl_PutData client token did (reader_of env) (int (length env)) s1 of
             (Some e, s2) \<Rightarrow> (Some (ApRelayUpload e), s2)
           | (None, s2) \<Rightarrow> (None, s2)))"

definition app_Send ::
  "app_env \<Rightarrow> 's http \<Rightarrow> ctx \<Rightarrow> time \<Rightarrow> send_draws \<Rightarrow> send_opts \<Rightarrow> app \<Rightarrow> 's \<Rightarrow> (app_err + send_result) \<times> app \<times> 's" where
  "app_Send E client ctx now d o' a s =
     (case send_prepare E now d o' a of
        Inl e \<Rightarrow> (Inl e, a, s)
      | Inr (did, token, m, sealed, expiry) \<Rightarrow>
          (case (case send_relay a o' of
                   Some relay \<Rightarrow> (case send_upload client token did m sealed expiry (so_OneTime o') s of (e, s') \<Rightarrow> (e, a, s'))
                 | None \<Rightarrow>
                     (case fs_Put ctx now did (reader_of sealed) (int (length sealed)) expiry (ap_store a) of
                        (e, d') \<Rightarrow> (map_option ApStore e, a\<lparr>ap_store := d'\<rparr>, s))) of
             (Some e, a1, s1) \<Rightarrow> (Inl e, a1, s1)
           | (None, a1, s1) \<Rightarrow>
               (let a2 = app_appendHistory ''send'' m (app_saveDrop did token m a1);
                    link = app_FormatDropURI did (case send_relay a o' of None \<Rightarrow> [] | Some r \<Rightarrow> r) token
                in case ae_qr E link of
                     None \<Rightarrow> (Inl ApQR, a2, s1)
                   | Some qr \<Rightarrow> (Inr \<lparr>sn_DropID = did, sn_Link = link, sn_QRpng = qr, sn_Size = am_PayloadSize m,
                       sn_Manifest = m\<rparr>, a2, s1))))"

section \<open>Fetching\<close>

definition manifest_expired :: "time \<Rightarrow> app_manifest \<Rightarrow> bool" where
  "manifest_expired now m \<longleftrightarrow> (case parse_rfc3339 (am_ExpiresAt m) of None \<Rightarrow> False | Some ex \<Rightarrow> ex < now)"

definition hex_sha :: "prims \<Rightarrow> bytes \<Rightarrow> string" where
  "hex_sha P b = hex_encode (p_sha256 P b)"

definition fetch_body :: "body \<Rightarrow> bytes" where
  "fetch_body b = (case b of Bytes x \<Rightarrow> x | _ \<Rightarrow> [])"

text \<open>The manifest and the sealed payload. A relay is asked from offset 0, as the staging directory is
  new.\<close>

definition app_fetchPayload ::
  "app_env \<Rightarrow> 's http \<Rightarrow> ctx \<Rightarrow> time \<Rightarrow> drop_ref \<Rightarrow> app \<Rightarrow> 's \<Rightarrow> (app_err + app_manifest \<times> bytes) \<times> 's" where
  "app_fetchPayload E client ctx now ref a s =
     (if dr_Relay ref = [] then
        ((case app_loadDrop (dr_ID ref) a of
            Inl e \<Rightarrow> Inl e
          | Inr m \<Rightarrow>
              (if manifest_expired now m then Inl ApExpired
               else case fst (fs_Stat ctx now (dr_ID ref) (ap_store a)) of
                 Inl e \<Rightarrow> Inl (ApStore e)
               | Inr (sz, _) \<Rightarrow>
                   (if sz \<noteq> am_PayloadSize m then Inl ApPayloadSize
                    else case dget (ap_store a) (fs_dataPath (dr_ID ref)) of
                      None \<Rightarrow> Inl (ApCrypto ANoSuchFile)
                    | Some sealed \<Rightarrow>
                        if hex_sha (ae_prims E) sealed \<noteq> am_PayloadHash m then Inl ApPayloadHash else Inr (m, sealed)))), s)
      else case arl_Meta client (dr_Token ref) (dr_ID ref) s of
        (Inl e, s1) \<Rightarrow> (Inl (ApRelay e), s1)
      | (Inr _, s1) \<Rightarrow>
          (case arl_GetDataRange client (dr_Token ref) (dr_ID ref) 0 s1 of
             (Inl e, s2) \<Rightarrow> (Inl (ApRelay e), s2)
           | (Inr body, s2) \<Rightarrow>
               ((case app_splitEnvelope (ae_unmarshal E) (fetch_body body) of
                   Inl e \<Rightarrow> Inl (ApEnvelope e)
                 | Inr (m, sealed) \<Rightarrow>
                     if hex_sha (ae_prims E) sealed \<noteq> am_PayloadHash m then Inl ApPayloadHash else Inr (m, sealed)), s2)))"


section \<open>Revoking\<close>

definition app_Revoke ::
  "app_env \<Rightarrow> 's http \<Rightarrow> ctx \<Rightarrow> time \<Rightarrow> string \<Rightarrow> app \<Rightarrow> 's \<Rightarrow> app_err option \<times> app \<times> 's" where
  "app_Revoke E client ctx now idOrURL a s =
     (case app_ParseDropURI (ae_upper E) (ae_authority E) idOrURL of
        Inl e \<Rightarrow> (Some (ApLink e), a, s)
      | Inr ref \<Rightarrow>
          (case app_loadDrop (dr_ID ref) a of
             Inl _ \<Rightarrow> (Some ApNotFound, a, s)
           | Inr m \<Rightarrow>
               (let s1 = (if sr_Backend (am_Storage m) = ''relay'' \<and> dr_Relay ref \<noteq> []
                      then snd (arl_DeleteDrop client (dr_Token ref) (dr_ID ref) s) else s);
                    a1 = a\<lparr>ap_store := snd (fs_Delete ctx now (dr_ID ref) (ap_store a)),
                      ap_drops := ddel (dr_ID ref) (ap_drops a)\<rparr>
                in (None, app_appendHistory ''revoke'' m a1, s1))))"

section \<open>Receiving\<close>

text \<open>The hashes the manifest records, for the files that are there after unpacking.\<close>

fun verify_files :: "prims \<Rightarrow> bytes \<Rightarrow> app_manifest \<Rightarrow> string \<Rightarrow> fs \<Rightarrow> nat list \<Rightarrow> app_err option" where
  "verify_files P key m outDir fs [] = None"
| "verify_files P key m outDir fs (i # is') =
     (case am_DecryptFilename P key (int i) m of
        None \<Rightarrow> Some ApPanic
      | Some (Inl _) \<Rightarrow> verify_files P key m outDir fs is'
      | Some (Inr name) \<Rightarrow>
          (case fs (filepath_Join outDir name) of
             None \<Rightarrow> verify_files P key m outDir fs is'
           | Some b \<Rightarrow> if hex_sha P b \<noteq> fe_Hash (am_files m ! i) then Some (ApFileHash name)
               else verify_files P key m outDir fs is'))"

definition recv_archive :: "app_env \<Rightarrow> bytes \<Rightarrow> app_manifest \<Rightarrow> bytes \<Rightarrow> string \<Rightarrow> fs \<Rightarrow> app_err option \<times> fs" where
  "recv_archive E key m plain outDir fs =
     (case ae_unzip E plain of
        None \<Rightarrow> (Some (ApZip (ZOpen [])), fs)
      | Some items \<Rightarrow>
          (case app_UnzipSafe items outDir fs of
             (Inl e, fs1) \<Rightarrow> (Some (ApZip e), fs1)
           | (Inr _, fs1) \<Rightarrow>
               (verify_files (ae_prims E) key m outDir fs1 [0..<length (am_files m)], fs1)))"

text \<open>The name of a single file; \<open>None\<close> is a panic.\<close>

definition recv_name :: "prims \<Rightarrow> bytes \<Rightarrow> app_manifest \<Rightarrow> string \<Rightarrow> string option" where
  "recv_name P key m did =
     (let dflt = did @ ''.bin'' in
      if length (am_files m) = 1
      then (case am_DecryptFilename P key 0 m of
              None \<Rightarrow> None
            | Some (Inl _) \<Rightarrow> Some (filepath_Base dflt)
            | Some (Inr dn) \<Rightarrow> Some (filepath_Base dn))
      else Some (filepath_Base dflt))"

definition recv_single :: "app_env \<Rightarrow> bytes \<Rightarrow> app_manifest \<Rightarrow> string \<Rightarrow> bytes \<Rightarrow> string \<Rightarrow> fs \<Rightarrow> app_err option \<times> fs" where
  "recv_single E key m did plain outDir fs =
     (case recv_name (ae_prims E) key m did of
        None \<Rightarrow> (Some ApPanic, fs)
      | Some name \<Rightarrow>
          (let dst = filepath_Join outDir name; fs1 = fs(dst \<mapsto> plain) in
           if length (am_files m) = 1 \<and> hex_sha (ae_prims E) plain \<noteq> fe_Hash (am_files m ! 0)
           then (Some (ApFileHash name), fs1(dst := None)) else (None, fs1)))"

definition recv_plain :: "app_env \<Rightarrow> app_manifest \<Rightarrow> bytes \<Rightarrow> bytes \<Rightarrow> app_err + bytes" where
  "recv_plain E m sealed key =
     (case app_OpenFile (ae_prims E) [''sealed'' \<mapsto> sealed] ''sealed'' ''plain.bin'' key of
        (Some e, _) \<Rightarrow> Inl (ApCrypto e)
      | (None, staged) \<Rightarrow>
          (let plain = the (staged ''plain.bin'') in
           if hex_sha (ae_prims E) plain \<noteq> am_PlaintextHash m then Inl ApPlaintextHash else Inr plain))"

definition app_Receive ::
  "app_env \<Rightarrow> 's http \<Rightarrow> ctx \<Rightarrow> time \<Rightarrow> string \<Rightarrow> string \<Rightarrow> string \<Rightarrow> fs \<Rightarrow> app \<Rightarrow> 's \<Rightarrow> app_err option \<times> fs \<times> app \<times> 's" where
  "app_Receive E client ctx now dropURL secret outDir fs a s =
     (case app_ParseDropURI (ae_upper E) (ae_authority E) dropURL of
        Inl e \<Rightarrow> (Some (ApLink e), fs, a, s)
      | Inr ref \<Rightarrow>
          (case app_fetchPayload E client ctx now ref a s of
             (Inl e, s1) \<Rightarrow> (Some e, fs, a, s1)
           | (Inr (m, sealed), s1) \<Rightarrow>
               (if manifest_expired now m then (Some ApExpired, fs, a, s1)
                else case app_unlockAccess (ae_prims E) m secret of
                  Inl e \<Rightarrow> (Some (ApAccess e), fs, a, s1)
                | Inr key \<Rightarrow>
                    (case recv_plain E m sealed key of
                       Inl e \<Rightarrow> (Some e, fs, a, s1)
                     | Inr plain \<Rightarrow>
                         (case (if app_IsZipStream plain then recv_archive E key m plain outDir fs
                                else recv_single E key m (dr_ID ref) plain outDir fs) of
                            (Some e, fs1) \<Rightarrow> (Some e, fs1, a, s1)
                          | (None, fs1) \<Rightarrow>
                              (case (if am_OneTime m then app_Revoke E client ctx now (dr_ID ref) a s1 else (None, a, s1)) of
                                 (_, a1, s2) \<Rightarrow> (None, fs1, app_appendHistory ''receive'' m a1, s2)))))))"

section \<open>Inspecting\<close>

definition app_Inspect ::
  "app_env \<Rightarrow> 's http \<Rightarrow> ctx \<Rightarrow> time \<Rightarrow> string \<Rightarrow> app \<Rightarrow> 's \<Rightarrow> (app_err + app_manifest) \<times> 's" where
  "app_Inspect E client ctx now idOrURL a s =
     (case app_ParseDropURI (ae_upper E) (ae_authority E) idOrURL of
        Inl e \<Rightarrow> (Inl (ApLink e), s)
      | Inr ref \<Rightarrow>
          (if dr_Relay ref = [] then (app_loadDrop (dr_ID ref) a, s)
           else case app_fetchPayload E client ctx now ref a s of
             (Inl e, s1) \<Rightarrow> (Inl e, s1)
           | (Inr (m, _), s1) \<Rightarrow> (Inr m, s1)))"

text \<open>The manifest that is checked and the payload that is checked come from two fetches; the payload
  is compared with the former.\<close>

definition app_VerifyDrop ::
  "app_env \<Rightarrow> 's http \<Rightarrow> ctx \<Rightarrow> time \<Rightarrow> string \<Rightarrow> app \<Rightarrow> 's \<Rightarrow> app_err option \<times> 's" where
  "app_VerifyDrop E client ctx now idOrURL a s =
     (case app_Inspect E client ctx now idOrURL a s of
        (Inl e, s1) \<Rightarrow> (Some e, s1)
      | (Inr m, s1) \<Rightarrow>
          (case am_Validate m of
             Some e \<Rightarrow> (Some (ApManifest e), s1)
           | None \<Rightarrow>
               (if am_Signature m \<noteq> None \<and> \<not> am_Verify (ae_prims E) m then (Some ApSignature, s1)
                else case app_ParseDropURI (ae_upper E) (ae_authority E) idOrURL of
                  Inl e \<Rightarrow> (Some (ApLink e), s1)
                | Inr ref \<Rightarrow>
                    (case app_fetchPayload E client ctx now ref a s1 of
                       (Inl e, s2) \<Rightarrow> (Some e, s2)
                     | (Inr (_, sealed), s2) \<Rightarrow>
                         (if hex_sha (ae_prims E) sealed \<noteq> am_PayloadHash m then (Some ApPayloadHash, s2)
                          else if manifest_expired now m then (Some ApExpired, s2) else (None, s2))))))"

text \<open>Known drops, newest first; for equal times \<^verbatim>\<open>sort.Slice\<close> promises no order.\<close>

definition app_List :: "app \<Rightarrow> app_manifest list" where
  "app_List a =
     rev (sort_key (\<lambda>m. am_CreatedAt m) (rev (map (\<lambda>(_, m, _). m) (sort_key fst (ap_drops a)))))"

definition fmt_bool :: "bool \<Rightarrow> string" where
  "fmt_bool b = (if b then ''true'' else ''false'')"

definition app_StatusLine ::
  "app_env \<Rightarrow> 's http \<Rightarrow> ctx \<Rightarrow> time \<Rightarrow> string \<Rightarrow> app \<Rightarrow> 's \<Rightarrow> (app_err + string) \<times> 's" where
  "app_StatusLine E client ctx now idOrURL a s =
     (case app_Inspect E client ctx now idOrURL a s of
        (Inl e, s1) \<Rightarrow> (Inl e, s1)
      | (Inr m, s1) \<Rightarrow>
          (let present = (if sr_Backend (am_Storage m) = ''local''
                 then (if fst (fs_Exists ctx now (am_DropID m) (ap_store a)) = Inr True then ''present'' else ''missing'')
                 else ''relay'')
           in (Inr (am_DropID m @ '' mode='' @ am_Mode m @ '' files='' @ format_int (am_FileCount m) @
                 '' size='' @ format_int (am_PayloadSize m) @ '' payload='' @ present @
                 '' expires='' @ am_ExpiresAt m @ '' one_time='' @ fmt_bool (am_OneTime m)), s1)))"

end
