(* ===== verification/AppServiceProps.thy ===== *)
theory AppServiceProps
  imports AppService RelayEnd2End
begin

text \<open>
  What the application's service does end to end: a drop sent over the local store is received, by
  everyone it is meant for, and a one-time drop is gone afterwards.
\<close>

section \<open>Sealing and opening\<close>

lemma seal_payload:
  assumes "length h = 24"
  obtains calls where "app_sealWithProgress P (Some h) [''plain'' \<mapsto> b] ''plain'' ''payload.gd'' key =
    (Inr (hex_sha P (gd01_file P h key b), hex_sha P b, int (length b)),
     [''plain'' \<mapsto> b, ''payload.gd'' \<mapsto> gd01_file P h key b], calls)"
proof -
  have m: "bytes_of app_FileMagic = Magic" by (simp add: app_FileMagic_def Magic_def)
  show thesis
    using that
    by (auto simp: app_sealWithProgress_def app_seal_progress_loop_eq [OF assms] app_seal_loop_eq [OF assms]
        crypto_seal_loop_frames gd01_file_def hex_sha_def m Let_def)
qed

lemma recv_plain_sealed:
  assumes "aead_ok (ae_prims E)" "length h = 24" "am_PlaintextHash m = hex_sha (ae_prims E) b"
  shows "recv_plain E m (gd01_file (ae_prims E) h key b) key = Inr b"
proof -
  have "app_OpenFile (ae_prims E) [''sealed'' \<mapsto> gd01_file (ae_prims E) h key b] ''sealed'' ''plain.bin'' key =
      (None, [''sealed'' \<mapsto> gd01_file (ae_prims E) h key b, ''plain.bin'' \<mapsto> concat (chunks ChunkSize b)])"
    unfolding app_OpenFile_accepts [OF assms(1)]
    using assms(2) chunks_within
    by (intro exI [of _ h] exI [of _ "chunks ChunkSize b"]) (auto simp: gd01_file_def app_ChunkSize_def ChunkSize_def
        intro: order_trans [OF chunks_within])
  then show ?thesis using assms(3) by (simp add: recv_plain_def)
qed

section \<open>What Send builds\<close>

lemma lockAccess_fields:
  assumes "app_lockAccess P d m key password to = Inr m'"
  obtains ac where "m' = m\<lparr>am_Access := ac\<rparr>"
  using assms by (auto simp: app_lockAccess_def Let_def split: if_splits option.splits sum.splits)

lemma unlockAccess_cong:
  "am_Access m = am_Access m' \<Longrightarrow> am_RecipientCommitment m = am_RecipientCommitment m' \<Longrightarrow> am_DropID m = am_DropID m' \<Longrightarrow>
    app_unlockAccess P m secret = app_unlockAccess P m' secret"
  unfolding app_unlockAccess_def by (simp only:)

lemma DecryptFilename_cong: "am_Files m = am_Files m' \<Longrightarrow> am_DecryptFilename P key i m = am_DecryptFilename P key i m'"
  unfolding am_DecryptFilename_def by (simp only:)

lemma am_Sign_fields:
  assumes "am_Sign P priv m = (None, m')"
  obtains sg where "m' = m\<lparr>am_Signature := Some sg\<rparr>"
  using assms by (auto simp: am_Sign_def Let_def split: sum.splits)

text \<open>The manifest of a single file: its one entry opens to the name, its access block to the key.\<close>

lemma send_manifest_single:
  assumes P: "P = ae_prims E" "aead_ok P" and key: "length key = 32" and nm: "sd_names d 0 = Some nonce" "length nonce = 24"
    and name: "length name \<le> aead_max"
    and run: "send_manifest E now d o' relay did expiry key
      \<lparr>pt_data = b, pt_hash = hash, pt_names = [name], pt_sizes = [sz], pt_hashes = [hash]\<rparr> ch n = Inr m"
  obtains m1 m2 where "am_DropID m = did" "am_ExpiresAt m = format_rfc3339 expiry" "am_PayloadHash m = ch" "am_PayloadSize m = n"
    "am_PlaintextHash m = hash" "am_OneTime m = so_OneTime o'" "length (am_files m) = 1" "fe_Hash (am_files m ! 0) = hash"
    "am_DecryptFilename P key 0 m = Some (Inr name)"
    "am_RecipientCommitment m1 = so_To o'" "app_lockAccess P (sd_access d) m1 key (so_Password o') (so_To o') = Inr m2"
    "app_unlockAccess P m = app_unlockAccess P m2"
proof -
  define e where "e = \<lparr>fe_NameEnc = b64_encode (p_seal P key nonce (bytes_of name)), fe_Nonce = b64_encode nonce,
    fe_Size = sz, fe_Hash = hash\<rparr>"
  define m1 where "m1 = (am_NewManifest now did (send_mode o') expiry)\<lparr>am_SenderIdentity := send_sender E o',
    am_RecipientCommitment := so_To o', am_PayloadHash := ch, am_PlaintextHash := hash, am_PayloadSize := n,
    am_Files := Some [e], am_FileCount := 1\<rparr>"
  have "am_EncryptFilenames P (sd_names d) key [name] [sz] [hash]
      ((am_NewManifest now did (send_mode o') expiry)\<lparr>am_SenderIdentity := send_sender E o',
            am_RecipientCommitment := so_To o', am_PayloadHash := ch, am_PlaintextHash := hash,
            am_PayloadSize := n\<rparr>) = Some (None, m1)"
    using nm key by (simp add: am_EncryptFilenames_def app_SealBytes_def am_NewManifest_def m1_def e_def Let_def)
  with run P(1) obtain m2 where lock: "app_lockAccess P (sd_access d) m1 key (so_Password o') (so_To o') = Inr m2"
    and m: "m = (if so_Price o' > 0
        then m2\<lparr>am_Payment := \<lparr>py_Amount = so_Price o', py_Address = so_PaidTo o', py_TxidRequired = True\<rparr>\<rparr>
        else m2)\<lparr>am_OneTime := so_OneTime o',
          am_Storage := \<lparr>sr_Backend = (if relay = None then ''local'' else ''relay''), sr_Ref = did\<rparr>\<rparr>"
    by (auto simp: send_manifest_def Let_def split: sum.splits)
  obtain ac where m2: "m2 = m1\<lparr>am_Access := ac\<rparr>" by (rule lockAccess_fields [OF lock])
  have files: "am_Files m = Some [e]" by (simp add: m m2 m1_def)
  have "p_open P key nonce (p_seal P key nonce (bytes_of name)) = Some (bytes_of name)"
    by (rule aead_open_seal [OF P(2)]) (simp add: name)
  then have dec: "am_DecryptFilename P key 0 m = Some (Inr name)"
    using nm key by (simp add: am_DecryptFilename_def files e_def app_OpenBytes_def app_NonceSize_def)
  have un: "app_unlockAccess P m = app_unlockAccess P m2"
    by (rule ext, rule unlockAccess_cong) (simp_all add: m)
  show thesis
    by (rule that [OF _ _ _ _ _ _ _ _ dec _ lock un])
      (simp_all add: files, simp_all add: m m2 m1_def e_def am_NewManifest_def)
qed

lemma GenerateDropID_valid:
  assumes "app_GenerateDropID (Some raw) = Some did" "length raw = 6"
  shows "validDropID did"
proof -
  have h: "is_digit (ascii_upper (hex_char n)) \<or> code CHR ''A'' \<le> code (ascii_upper (hex_char n)) \<and>
      code (ascii_upper (hex_char n)) \<le> code CHR ''F''" if "n < 16" for n
    using that by (auto simp: hex_char_def ascii_upper_def is_digit_def is_lower_def)
  have "list_all (\<lambda>c. is_digit c \<or> code CHR ''A'' \<le> code c \<and> code c \<le> code CHR ''F'') (map ascii_upper (hex_encode bs))" for bs
  proof (induction bs)
    case (Cons b bs)
    have "unat b div 16 < 16" by (rule less_mult_imp_div_less) simp
    with Cons h [of "unat b div 16"] h [of "unat b mod 16"] show ?case by simp
  qed simp
  moreover have "did = ''GD-'' @ map ascii_upper (hex_encode raw)" using assms(1) by (auto simp: app_GenerateDropID_def)
  ultimately show ?thesis using assms(2) by (simp add: validDropID_def has_prefix_def)
qed

lemma send_prepare_single:
  assumes run: "send_prepare E now d o' a = Inr (did, token, m, sealed, expiry)"
    and src: "so_Paths o' = [SFile p r]"
    and draws: "sd_id d = Some raw" "length raw = 6" "sd_header d = Some h" "length h = 24" "sd_key d = Some key"
  obtains m0 sg where "validDropID did" "sealed = gd01_file (ae_prims E) h key (rd_data r)"
    "send_manifest E now d o' (send_relay a o') did expiry key
      \<lparr>pt_data = rd_data r, pt_hash = hex_sha (ae_prims E) (rd_data r), pt_names = [filepath_Base p],
        pt_sizes = [int (length (rd_data r))], pt_hashes = [hex_sha (ae_prims E) (rd_data r)]\<rparr>
      (hex_sha (ae_prims E) sealed) (int (length sealed)) = Inr m0"
    "m = m0\<lparr>am_Signature := Some sg\<rparr>" "am_Validate m = None"
proof -
  let ?pt = "\<lparr>pt_data = rd_data r, pt_hash = hex_sha (ae_prims E) (rd_data r), pt_names = [filepath_Base p],
        pt_sizes = [int (length (rd_data r))], pt_hashes = [hex_sha (ae_prims E) (rd_data r)]\<rparr>"
  obtain calls where seal: "app_sealWithProgress (ae_prims E) (Some h) [''plain'' \<mapsto> rd_data r] ''plain'' ''payload.gd'' key =
    (Inr (hex_sha (ae_prims E) (gd01_file (ae_prims E) h key (rd_data r)), hex_sha (ae_prims E) (rd_data r), int (length (rd_data r))),
     [''plain'' \<mapsto> rd_data r, ''payload.gd'' \<mapsto> gd01_file (ae_prims E) h key (rd_data r)], calls)"
    by (rule seal_payload [OF draws(4)])
  from run src draws obtain m0 where
    did: "app_GenerateDropID (Some raw) = Some did"
    and plain: "send_plain E [SFile p r] = Inr ?pt"
    and s: "sealed = gd01_file (ae_prims E) h key (rd_data r)"
    and man: "send_manifest E now d o' (send_relay a o') did expiry key ?pt (hex_sha (ae_prims E) sealed) (int (length sealed)) = Inr m0"
    and sgn: "send_signed E d m0 = Inr m"
    by (auto simp: send_prepare_def app_GenerateFileKey_def seal send_plain_def app_Sha256HexReader_def hex_sha_def Let_def
        split: if_splits sum.splits option.splits)
  from sgn obtain seed where "am_Sign (ae_prims E) (seed @ p_seed_pub (ae_prims E) seed) m0 = (None, m)" "am_Validate m = None"
    by (auto simp: send_signed_def split: option.splits prod.splits)
  moreover from this(1) obtain sg where "m = m0\<lparr>am_Signature := Some sg\<rparr>" by (rule am_Sign_fields)
  ultimately show thesis using that [OF GenerateDropID_valid [OF did draws(2)] s man] by blast
qed

text \<open>What lies in the store after a put, until it expires.\<close>

lemma fs_Put_None:
  assumes "fs_Put ctx now did (reader_of b) sz expiry d = (e, d')"
  shows "e = None" "dget d' (fs_dataPath did) = Some b" "dget d' (fs_expPath did) = Some (bytes_of (format_rfc3339 expiry))"
  using assms by (auto simp: fs_Put_def drename_def Let_def)

lemma Base_idem [simp]: "filepath_Base (filepath_Base p) = filepath_Base p"
proof -
  define q where "q = rev (dropWhile (\<lambda>c. c = CHR ''/'') (rev p))"
  show ?thesis
  proof (cases "p = [] \<or> q = []")
    case True
    then show ?thesis by (auto simp: filepath_Base_def q_def [symmetric])
  next
    case False
    define c where "c = last (split_path q)"
    have b: "filepath_Base p = c" using False by (simp add: filepath_Base_def q_def [symmetric] c_def)
    have slash: "CHR ''/'' \<notin> set c" unfolding c_def by (rule split_path_no_slash [OF last_in_set]) simp
    have lq: "last q \<noteq> CHR ''/''"
      using False hd_dropWhile [of "\<lambda>c. c = CHR ''/''" "rev p"] by (simp add: q_def last_rev)
    have "c \<noteq> []"
    proof
      assume c: "c = []"
      have ps: "split_path q = butlast (split_path q) @ [c]" unfolding c_def by (rule append_butlast_last_id [symmetric]) simp
      then have "q = join_path (butlast (split_path q) @ [c])" using join_split [of q] by simp
      then show False using lq c False by (cases "butlast (split_path q) = []") (auto simp: join_append dest: arg_cong [of _ _ last])
    qed
    moreover have "dropWhile (\<lambda>x. x = CHR ''/'') (rev c) = rev c"
      using slash by (cases "rev c") (auto dest: arg_cong [of _ _ set])
    ultimately show ?thesis using slash by (simp add: b) (simp add: filepath_Base_def split_path_plain)
  qed
qed

section \<open>Receiving from the local store\<close>

text \<open>A drop of the local store that is in order.\<close>

definition stored_drop :: "prims \<Rightarrow> time \<Rightarrow> string \<Rightarrow> app_manifest \<Rightarrow> bytes \<Rightarrow> app \<Rightarrow> bool" where
  "stored_drop P now did m sealed a \<longleftrightarrow>
     (\<exists>token. dget (ap_drops a) did = Some (m, token)) \<and>
     dget (ap_store a) (fs_dataPath did) = Some sealed \<and>
     dget (ap_store a) (fs_expPath did) = Some (bytes_of (am_ExpiresAt m)) \<and>
     (\<exists>ex. parse_rfc3339 (am_ExpiresAt m) = Some ex \<and> now \<le> ex) \<and>
     am_PayloadSize m = int (length sealed) \<and> am_PayloadHash m = hex_sha P sealed"

lemma fetch_stored:
  assumes "stored_drop (ae_prims E) now (dr_ID ref) m sealed a" "dr_Relay ref = []"
  shows "app_fetchPayload E client ctx now ref a s = (Inr (m, sealed), s)" "\<not> manifest_expired now m"
  using assms by (auto simp: stored_drop_def app_fetchPayload_def app_loadDrop_def manifest_expired_def fs_Stat_def)

text \<open>What a successful receive leaves of the application: a one-time drop is revoked.\<close>

definition after_receive :: "app_env \<Rightarrow> 's http \<Rightarrow> ctx \<Rightarrow> time \<Rightarrow> string \<Rightarrow> app_manifest \<Rightarrow> app \<Rightarrow> 's \<Rightarrow> app \<times> 's" where
  "after_receive E client ctx now did m a s =
     (case (if am_OneTime m then app_Revoke E client ctx now did a s else (None, a, s)) of
        (_, a1, s2) \<Rightarrow> (app_appendHistory ''receive'' m a1, s2))"

lemma receive_stored:
  fixes fs :: fs and outDir :: string
  assumes "app_ParseDropURI (ae_upper E) (ae_authority E) url = Inr ref" "dr_Relay ref = []"
    and "stored_drop (ae_prims E) now (dr_ID ref) m sealed a"
    and "app_unlockAccess (ae_prims E) m secret = Inr key" "recv_plain E m sealed key = Inr b" "\<not> app_IsZipStream b"
    and "length (am_files m) = 1" "fe_Hash (am_files m ! 0) = hex_sha (ae_prims E) b"
    and "am_DecryptFilename (ae_prims E) key 0 m = Some (Inr name)"
  shows "app_Receive E client ctx now url secret outDir fs a s =
    (None, fs(filepath_Join outDir (filepath_Base name) \<mapsto> b), after_receive E client ctx now (dr_ID ref) m a s)"
proof -
  have "recv_single E key m (dr_ID ref) b outDir fs = (None, fs(filepath_Join outDir (filepath_Base name) \<mapsto> b))"
    using assms(7-9) by (simp add: recv_single_def recv_name_def Let_def)
  then show ?thesis
    using assms(1-6) fetch_stored(1) [OF assms(3,2), of client ctx s] fetch_stored(2) [OF assms(3,2)]
    by (simp add: app_Receive_def after_receive_def split: prod.splits)
qed

section \<open>Properties\<close>

definition good_draws :: "send_draws \<Rightarrow> bool" where
  "good_draws d \<longleftrightarrow> (\<exists>raw h key n0 n1. sd_id d = Some raw \<and> length raw = 6 \<and> sd_header d = Some h \<and> length h = 24 \<and>
     sd_key d = Some key \<and> length key = 32 \<and> sd_names d 0 = Some n0 \<and> length n0 = 24 \<and>
     ad_nonce (sd_access d) = Some n1 \<and> length n1 = 24)"

lemma Send_local:
  assumes "app_Send E client ctx now d o' a s = (Inr res, a1, s1)" "send_relay a o' = None"
  obtains did token m sealed expiry st where "send_prepare E now d o' a = Inr (did, token, m, sealed, expiry)"
    "fs_Put ctx now did (reader_of sealed) (int (length sealed)) expiry (ap_store a) = (None, st)"
    "sn_DropID res = did" "sn_Link res = app_FormatDropURI did [] token" "sn_Manifest res = m" "s1 = s"
    "a1 = app_appendHistory ''send'' m (app_saveDrop did token m (a\<lparr>ap_store := st\<rparr>))"
proof -
  obtain did token m sealed expiry where prep: "send_prepare E now d o' a = Inr (did, token, m, sealed, expiry)"
    using assms(1) by (cases "send_prepare E now d o' a") (auto simp: app_Send_def)
  obtain e st where put: "fs_Put ctx now did (reader_of sealed) (int (length sealed)) expiry (ap_store a) = (e, st)" by fastforce
  note e = fs_Put_None(1) [OF put]
  show thesis
    using that [OF prep put [unfolded e]] assms e by (auto simp: app_Send_def prep put Let_def split: option.splits)
qed

text \<open>Without the metadata of a drop there is nothing to receive.\<close>

lemma receive_missing:
  assumes "app_ParseDropURI (ae_upper E) (ae_authority E) url = Inr ref" "dr_Relay ref = []" "dget (ap_drops a) (dr_ID ref) = None"
  shows "app_Receive E client ctx now url secret outDir fs a s = (Some ApNotFound, fs, a, s)"
  using assms by (simp add: app_Receive_def app_fetchPayload_def app_loadDrop_def)

lemma send_receive:
  fixes fs :: fs and outDir :: string
  assumes P: "aead_ok (ae_prims E)" "dh_ok (ae_prims E)" "good_draws d" and aok: "ae_authority E ''drop''"
    and src: "so_Paths o' = [SFile p r]" "\<not> app_IsZipStream (rd_data r)" "length (filepath_Base p) \<le> aead_max"
    and loc: "send_relay a o' = None" and sent: "app_Send E client ctx now d o' a s = (Inr res, a1, s1)"
    and secret: "right_secret (ae_prims E) (so_Password o') (so_To o') secret"
    and live: "parse_rfc3339 (am_ExpiresAt (sn_Manifest res)) = Some ex" "now' \<le> ex"
    and url: "url = sn_Link res \<or> url = sn_DropID res"
  shows "\<exists>a2 s2. app_Receive E client ctx now' url secret outDir fs a1 s1 =
      (None, fs(filepath_Join outDir (filepath_Base p) \<mapsto> rd_data r), a2, s2) \<and>
    (\<not> so_OneTime o' \<or> (\<forall>t fs'. app_Receive E client ctx t url secret outDir fs' a2 s2 = (Some ApNotFound, fs', a2, s2)))"
proof -
  let ?P = "ae_prims E" and ?b = "rd_data r"
  obtain raw h key n0 n1 where dr: "sd_id d = Some raw" "length raw = 6" "sd_header d = Some h" "length h = 24"
    "sd_key d = Some key" "length key = 32" "sd_names d 0 = Some n0" "length n0 = 24"
    "ad_nonce (sd_access d) = Some n1" "length n1 = 24"
    using P(3) unfolding good_draws_def by blast
  obtain did token m sealed expiry st where
    prep: "send_prepare E now d o' a = Inr (did, token, m, sealed, expiry)"
    and put: "fs_Put ctx now did (reader_of sealed) (int (length sealed)) expiry (ap_store a) = (None, st)"
    and res: "sn_DropID res = did" "sn_Link res = app_FormatDropURI did [] token" "sn_Manifest res = m" "s1 = s"
    and a1: "a1 = app_appendHistory ''send'' m (app_saveDrop did token m (a\<lparr>ap_store := st\<rparr>))"
    by (rule Send_local [OF sent loc])
  obtain m0 sg where vid: "validDropID did" and sealed: "sealed = gd01_file ?P h key ?b"
    and man: "send_manifest E now d o' (send_relay a o') did expiry key
      \<lparr>pt_data = ?b, pt_hash = hex_sha ?P ?b, pt_names = [filepath_Base p], pt_sizes = [int (length ?b)],
       pt_hashes = [hex_sha ?P ?b]\<rparr> (hex_sha ?P sealed) (int (length sealed)) = Inr m0"
    and m: "m = m0\<lparr>am_Signature := Some sg\<rparr>"
    by (rule send_prepare_single [OF prep src(1) dr(1-5)])
  obtain m1 m2 where f: "am_DropID m0 = did" "am_ExpiresAt m0 = format_rfc3339 expiry" "am_PayloadHash m0 = hex_sha ?P sealed"
    "am_PayloadSize m0 = int (length sealed)" "am_PlaintextHash m0 = hex_sha ?P ?b" "am_OneTime m0 = so_OneTime o'"
    "length (am_files m0) = 1" "fe_Hash (am_files m0 ! 0) = hex_sha ?P ?b"
    "am_DecryptFilename ?P key 0 m0 = Some (Inr (filepath_Base p))"
    and lock: "am_RecipientCommitment m1 = so_To o'" "app_lockAccess ?P (sd_access d) m1 key (so_Password o') (so_To o') = Inr m2"
      "app_unlockAccess ?P m0 = app_unlockAccess ?P m2"
    by (rule send_manifest_single [OF refl P(1) dr(6-8) src(3) man])
  have key: "app_unlockAccess ?P m secret = Inr key"
    using unlock_locked [OF P(1,2) dr(6,9,10) lock(1,2) secret] lock(3) unlockAccess_cong [of m m0 ?P secret] by (simp add: m)
  have plain: "recv_plain E m sealed key = Inr ?b"
    unfolding sealed by (rule recv_plain_sealed [OF P(1) dr(4)]) (simp add: m f)
  have name: "am_DecryptFilename ?P key 0 m = Some (Inr (filepath_Base p))"
    using f(9) DecryptFilename_cong [of m m0] by (simp add: m)
  obtain ref where ref: "app_ParseDropURI (ae_upper E) (ae_authority E) url = Inr ref" "dr_Relay ref = []" "dr_ID ref = did"
    using url res(1,2) parse_link(1) [where uni = "ae_upper E" and aok = "ae_authority E" and relay = "[]" and token = token, OF vid aok]
      parse_link(2) [where uni = "ae_upper E" and aok = "ae_authority E", OF vid aok] by auto
  have st: "stored_drop ?P now' (dr_ID ref) m sealed a1"
    using live fs_Put_None(2,3) [OF put] res(3) f by (auto simp: stored_drop_def a1 app_appendHistory_def app_saveDrop_def ref(3) m)
  note recv = receive_stored [where fs = fs and outDir = outDir, OF ref(1,2) st key plain src(2) _ _ name, of client ctx s]
  obtain a2 s2 where a2: "after_receive E client ctx now' did m a1 s = (a2, s2)" by fastforce
  have gone: "dget (ap_drops a2) did = None" if "so_OneTime o'"
    using a2 that st parse_link(2) [where uni = "ae_upper E" and aok = "ae_authority E", OF vid aok]
    by (auto simp: after_receive_def app_Revoke_def app_loadDrop_def app_appendHistory_def stored_drop_def ref(3) m f Let_def)
  show ?thesis
    using recv a2 receive_missing [OF ref(1,2), of a2] gone f by (auto simp: ref(3) res(4) m)
qed

section \<open>An example\<close>

definition app_demo_env :: app_env where
  "app_demo_env = \<lparr>ae_prims = sample_prims, ae_frac = (\<lambda>_ _ _. 0), ae_user = ''me'', ae_qr = (\<lambda>_. Some []),
     ae_zipw = (\<lambda>_. []), ae_unzip = (\<lambda>_. None), ae_unmarshal = (\<lambda>_. None), ae_upper = (\<lambda>s. s),
     ae_authority = (\<lambda>h. h = ''drop'')\<rparr>"

definition app_demo_draws :: send_draws where
  "app_demo_draws = \<lparr>sd_id = Some (replicate 6 0), sd_token = Some (replicate 16 0), sd_key = Some (replicate 32 1),
     sd_header = Some (replicate 24 2), sd_names = (\<lambda>_. Some (replicate 24 3)),
     sd_access = \<lparr>ad_salt = Some (replicate 16 4), ad_nonce = Some (replicate 24 5), ad_epriv = Some (replicate 32 6)\<rparr>,
     sd_sign = Some (replicate 32 7)\<rparr>"

definition app_demo_opts :: send_opts where
  "app_demo_opts = \<lparr>so_Paths = [SFile ''/home/me/notes.txt'' \<lparr>rd_data = [1, 2, 3], rd_fails = False\<rparr>], so_To = [],
     so_Expire = [], so_Mode = [], so_Anonymous = True, so_Password = [], so_Price = 0, so_PaidTo = [],
     so_Relay = [], so_OneTime = True, so_Demo = False\<rparr>"

definition app_demo :: app where
  "app_demo = \<lparr>ap_drops = [], ap_store = [], ap_history = [], ap_relayURL = []\<rparr>"

lemma app_demo_draws_good: "good_draws app_demo_draws"
  by (simp add: good_draws_def app_demo_draws_def)

lemma hex_sha_demo [simp]: "length (hex_sha sample_prims b) = 64"
  by (simp add: hex_sha_def sample_prims_def)

lemma app_demo_prepared:
  obtains token m b where "send_prepare app_demo_env 0 app_demo_draws app_demo_opts app_demo =
      Inr (''GD-000000000000'', token, m, b, day_ns)"
    "am_ExpiresAt m = format_rfc3339 day_ns"
proof -
  obtain calls where seal: "app_sealWithProgress sample_prims (Some (replicate 24 2)) [''plain'' \<mapsto> [1, 2, 3]] ''plain'' ''payload.gd'' (replicate 32 1) =
    (Inr (hex_sha sample_prims (gd01_file sample_prims (replicate 24 2) (replicate 32 1) [1, 2, 3]), hex_sha sample_prims [1, 2, 3], int (length ([1, 2, 3] :: bytes))),
     [''plain'' \<mapsto> [1, 2, 3], ''payload.gd'' \<mapsto> gd01_file sample_prims (replicate 24 2) (replicate 32 1) [1, 2, 3]], calls)"
    by (rule seal_payload [OF length_replicate])
  define g where "g = gd01_file sample_prims (replicate 24 2) (replicate 32 1) [1, 2, 3]"
  have g: "g \<noteq> []" by (simp add: g_def gd01_file_def Magic_def)
  have base: "filepath_Base ''/home/me/notes.txt'' = ''notes.txt''" by code_simp
  have times: "parse_rfc3339 (format_rfc3339 0) = Some 0" "parse_rfc3339 (format_rfc3339 day_ns) = Some day_ns" "0 < day_ns"
    by code_simp+
  have did: "app_GenerateDropID (Some (replicate 6 0)) = Some ''GD-000000000000''" by code_simp
  have tok: "app_randToken (Some (replicate 16 0)) \<noteq> None" by (simp add: app_randToken_def)
  have expiry: "app_ParseExpiry f 0 [] = Inr day_ns" for f by (simp add: app_ParseExpiry_def)
  define pt where "pt = \<lparr>pt_data = [1, 2, 3], pt_hash = hex_sha sample_prims [1, 2, 3], pt_names = [''notes.txt''],
    pt_sizes = [3], pt_hashes = [hex_sha sample_prims [1, 2, 3]]\<rparr>"
  have plain: "send_plain app_demo_env (so_Paths app_demo_opts) = Inr pt"
    by (simp add: send_plain_def app_demo_opts_def app_demo_env_def app_Sha256HexReader_def base pt_def hex_sha_def)
  define e where "e = \<lparr>fe_NameEnc = b64_encode (p_seal sample_prims (replicate 32 1) (replicate 24 3) (bytes_of ''notes.txt'')),
    fe_Nonce = b64_encode (replicate 24 3), fe_Size = 3, fe_Hash = hex_sha sample_prims [1, 2, 3]\<rparr>"
  obtain w where w: "lock_sealed sample_prims (sd_access app_demo_draws) (replicate 32 1)
      (commit_key sample_prims (''ghostdrop:open:'' @ ''GD-000000000000'')) = Inr w"
    by (auto simp: lock_sealed_def app_demo_draws_def app_SealBytes_def commit_key_def sample_prims_def Let_def)
  define m where "m = (am_NewManifest 0 ''GD-000000000000'' ''open'' day_ns)\<lparr>am_SenderIdentity := ''anonymous'',
    am_PayloadHash := hex_sha sample_prims g, am_PlaintextHash := hex_sha sample_prims [1, 2, 3], am_PayloadSize := int (length g),
    am_Files := Some [e], am_FileCount := 1,
    am_Access := \<lparr>ac_WrappedKey = w, ac_EphemPub = [], ac_PassphraseSalt = [], ac_KDF = ''none''\<rparr>,
    am_OneTime := True, am_Storage := \<lparr>sr_Backend = ''local'', sr_Ref = ''GD-000000000000''\<rparr>\<rparr>"
  have "send_mode app_demo_opts = ''open''" "send_sender app_demo_env app_demo_opts = ''anonymous''"
    by (simp_all add: send_mode_def send_sender_def app_demo_opts_def)
  moreover have "am_EncryptFilenames sample_prims (\<lambda>_. Some (replicate 24 3)) (replicate 32 1) [''notes.txt''] [3]
      [hex_sha sample_prims [1, 2, 3]] k = Some (None, k\<lparr>am_Files := Some [e], am_FileCount := 1\<rparr>)" if "am_Files k = None" for k
    using that by (simp add: am_EncryptFilenames_def app_SealBytes_def e_def Let_def)
  moreover have "\<not> isPubHex []" by (simp add: isPubHex_def)
  ultimately have man: "send_manifest app_demo_env 0 app_demo_draws app_demo_opts None ''GD-000000000000'' day_ns (replicate 32 1) pt
      (hex_sha sample_prims g) (int (length g)) = Inr m"
    using w by (simp add: send_manifest_def pt_def m_def am_NewManifest_def app_lockAccess_def app_demo_opts_def app_demo_draws_def
        app_demo_env_def Let_def)
  have ne: "b64_encode bs \<noteq> []" if "bs \<noteq> []" for bs using that by (cases bs rule: b64_encode.cases) (simp_all add: Let_def)
  have "replicate 24 3 \<noteq> ([] :: bytes)" "p_seal sample_prims (replicate 32 1) (replicate 24 3) (bytes_of ''notes.txt'') \<noteq> []"
    by (simp_all add: sample_prims_def bytes_of_def)
  then have "am_entry_ok e" by (simp add: am_entry_ok_def e_def ne)
  then have ok: "am_Validate (m\<lparr>am_Signature := sg\<rparr>) = None" for sg
    using g times by (simp add: am_Validate_def m_def am_NewManifest_def has_prefix_def)
  have ex: "am_ExpiresAt m = format_rfc3339 day_ns" by (simp add: m_def am_NewManifest_def)
  obtain m' where "send_signed app_demo_env app_demo_draws m = Inr m'" "am_ExpiresAt m' = format_rfc3339 day_ns"
    using ok ex by (auto simp: send_signed_def app_demo_draws_def app_demo_env_def am_Sign_def app_Sign_def sample_prims_def Let_def)
  moreover have "send_relay app_demo app_demo_opts = None" "so_Paths app_demo_opts \<noteq> []" "\<not> list_ex is_missing (so_Paths app_demo_opts)"
    "so_Expire app_demo_opts = []" "so_Price app_demo_opts = 0"
    by (simp_all add: send_relay_def app_demo_def app_demo_opts_def is_missing_def)
  moreover have "sd_id app_demo_draws = Some (replicate 6 0)" "sd_token app_demo_draws = Some (replicate 16 0)"
    "sd_key app_demo_draws = Some (replicate 32 1)" "sd_header app_demo_draws = Some (replicate 24 2)"
    "ae_prims app_demo_env = sample_prims" "pt_data pt = [1, 2, 3]"
    by (simp_all add: app_demo_draws_def app_demo_env_def pt_def)
  ultimately show thesis
    using that did tok expiry plain man seal [folded g_def]
    by (auto simp: send_prepare_def app_GenerateFileKey_def Let_def)
qed

lemma app_demo_sent:
  obtains res a1 where "app_Send app_demo_env (\<lambda>r s. (None, s :: unit)) live_ctx 0 app_demo_draws app_demo_opts app_demo () = (Inr res, a1, ())"
    "sn_DropID res = ''GD-000000000000''" "parse_rfc3339 (am_ExpiresAt (sn_Manifest res)) = Some day_ns"
proof -
  let ?E = app_demo_env
  obtain token m b where prep: "send_prepare ?E 0 app_demo_draws app_demo_opts app_demo = Inr (''GD-000000000000'', token, m, b, day_ns)"
    and ex: "am_ExpiresAt m = format_rfc3339 day_ns" by (rule app_demo_prepared)
  obtain e st where put: "fs_Put live_ctx 0 ''GD-000000000000'' (reader_of b) (int (length b)) day_ns (ap_store app_demo) = (e, st)" by fastforce
  have loc: "send_relay app_demo app_demo_opts = None" by (simp add: send_relay_def app_demo_def app_demo_opts_def)
  have "parse_rfc3339 (format_rfc3339 day_ns) = Some day_ns" by code_simp
  then show thesis
    using that prep put fs_Put_None(1) [OF put] loc ex by (auto simp: app_Send_def app_demo_env_def Let_def)
qed

lemma app_demo_facts:
  "aead_ok (ae_prims app_demo_env)" "dh_ok (ae_prims app_demo_env)" "good_draws app_demo_draws" "ae_authority app_demo_env ''drop''"
  "so_Paths app_demo_opts = [SFile ''/home/me/notes.txt'' \<lparr>rd_data = [1, 2, 3], rd_fails = False\<rparr>]"
  "\<not> app_IsZipStream (rd_data \<lparr>rd_data = [1, 2, 3], rd_fails = False\<rparr>)" "length (filepath_Base ''/home/me/notes.txt'') \<le> aead_max"
  "send_relay app_demo app_demo_opts = None"
  "right_secret (ae_prims app_demo_env) (so_Password app_demo_opts) (so_To app_demo_opts) []"
  "7 \<le> day_ns" "filepath_Join dir (filepath_Base ''/home/me/notes.txt'') = filepath_Join dir ''notes.txt''" "so_OneTime app_demo_opts"
proof -
  show base: "filepath_Join dir (filepath_Base ''/home/me/notes.txt'') = filepath_Join dir ''notes.txt''"
    by (rule arg_cong [of _ _ "filepath_Join dir"]) code_simp
  have "filepath_Base ''/home/me/notes.txt'' = ''notes.txt''" by code_simp
  then show "length (filepath_Base ''/home/me/notes.txt'') \<le> aead_max" by (simp add: aead_max_def)
  show "send_relay app_demo app_demo_opts = None" by (simp add: send_relay_def app_demo_def app_demo_opts_def)
  show "7 \<le> day_ns" by (simp add: day_ns_def)
qed (simp_all add: app_demo_env_def sample_aead_ok sample_dh_ok app_demo_draws_good app_demo_opts_def right_secret_def isPubHex_def app_IsZipStream_def)

section \<open>The property\<close>



end
