(* ===== verification/AppServiceSafety.thy ===== *)
theory AppServiceSafety
  imports AppServiceProps
begin

text \<open>
  What the application's service guarantees and what it does not: a drop is never delivered to a relay
  as the code stands; what \<^verbatim>\<open>Verify\<close> and \<^verbatim>\<open>Receive\<close> check; and what a revoked drop leaves behind.
\<close>

section \<open>Sending over a relay\<close>

lemma arl_Create_declares:
  assumes "arl_Create (relay_http P now rnd conn) token did sz e ot s = (None, s1)"
  obtains m where "relay_loadMeta (rl_dir s1) did = Some m" "rm_SizeBytes m = sz" "relay_validID did"
proof -
  define rq where "rq = \<lparr>rq_method = ''POST'', rq_path = drops_path,
    rq_headers = (if token \<noteq> [] then [(TokenHeader, token)] else []) @ [(''Content-Type'', ''application/json'')],
    rq_body = create_body did sz (format_rfc3339 e) ot, rq_fails = False\<rparr>"
  obtain resp where run: "relay_handleCreate P now rnd rq s = (resp, s1)" and ok: "rs_status resp = 200 \<or> rs_status resp = 201"
    using assms by (auto simp: arl_Create_def arl_req_def relay_http_def dispatch_create rq_def no_body_def split: prod.splits if_splits)
  obtain req where chk: "relay_create_check now rq s = Inr req"
    using run ok by (auto simp: relay_handleCreate_def relay_create_check_def split: sum.splits option.splits if_splits)
  have req: "req = \<lparr>cq_ID = did, cq_SizeBytes = sz, cq_Expiry = format_rfc3339 e, cq_OneTime = ot\<rparr>" "relay_validID did"
    using chk by (auto simp: relay_create_check_def rq_def decode_create_def create_body_def js_str_def js_int_def js_bool_def
        split: option.splits if_splits)
  have "relay_create_commit P now rnd req s = (resp, s1)" using run chk by (simp add: relay_handleCreate_def)
  then obtain tok where s1: "rl_dir s1 = dput (relay_binPath did) (Blob []) (relay_saveMeta (new_meta P now tok req) (rl_dir s))"
    using ok by (auto simp: relay_create_commit_def req(1) Let_def split: option.splits if_splits)
  have "relay_loadMeta (rl_dir s1) did = Some (new_meta P now tok req)"
    by (simp add: s1 relay_loadMeta_iff) (simp add: new_meta_def req)
  then show thesis using that req by (simp add: new_meta_def)
qed

text \<open>An upload whose total is not the declared size is refused, and nothing is stored.\<close>

lemma arl_PutData_refused:
  assumes "relay_loadMeta (rl_dir s) did = Some m" "relay_validID did" "0 < n" "n \<noteq> rm_SizeBytes m"
  obtains c s' where "arl_PutData (relay_http P now rnd conn) token did r n s = (Some (ArlStatus c), s')" "c \<in> {400, 401, 410}"
proof -
  define rq where "rq = \<lparr>rq_method = ''PUT'', rq_path = data_path did,
    rq_headers = (if token \<noteq> [] then [(TokenHeader, token)] else []) @ [(''Content-Type'', ''application/octet-stream''),
      (''Content-Range'', transport_FormatContentRange 0 (n - 1) n)], rq_body = Bytes (rd_data r), rq_fails = rd_fails r\<rparr>"
  have cr: "header ''Content-Range'' rq = transport_FormatContentRange 0 (n - 1) n"
    by (auto simp: rq_def header_def TokenHeader_def)
  have t: "transport_ParseContentRange (trim_space v) = transport_ParseContentRange v" for v
    by (simp add: transport_ParseContentRange_def)
  have "cr_Total p = n" if "transport_ParseContentRange (trim_space (header ''Content-Range'' rq)) = Inr p" for p
    using ParseContentRange_total [of 0 "n - 1" n p] that assms(3) by (simp add: cr t)
  moreover have "trim_space (header ''Content-Range'' rq) = header ''Content-Range'' rq"
    unfolding cr transport_FormatContentRange_def using is_digit_graph [OF format_nat_last [of "nat n"]] assms(3)
    by (intro trim_space_id) (auto simp: is_graph_def format_int_nonneg)
  then have "trim_space (header ''Content-Range'' rq) \<noteq> []" by (simp add: cr transport_FormatContentRange_def)
  ultimately obtain r400 where "relay_put_offset rq m = Inl r400" "rs_status r400 = 400"
    using assms(4)
    by (cases "transport_ParseContentRange (trim_space (header ''Content-Range'' rq))") (simp_all add: relay_put_offset_def writeErr_def writeJSON_def)
  then have "rs_status (fst (relay_handlePut P now did rq s)) \<in> {400, 401, 410}"
    using assms(1,2) by (simp add: relay_handlePut_def)
  then obtain resp s' where put: "relay_handlePut P now did rq s = (resp, s')" "rs_status resp \<in> {400, 401, 410}"
    by (cases "relay_handlePut P now did rq s") auto
  have "format_int 0 = ''0''" by code_simp
  then have "arl_PutData (relay_http P now rnd conn) token did r n s = (Some (ArlStatus (rs_status resp)), s')"
    using put assms(2,3) by (auto simp: arl_PutData_def arl_req_def relay_http_def dispatch_put rq_def
        transport_FormatContentRange_def Let_def)
  then show thesis using that put(2) by blast
qed

text \<open>
  C18 A drop is never delivered to a relay. With a relay address configured, whatever the payload, the
  mode and the state of the relay, \<^verbatim>\<open>Send\<close> ends in an error and records nothing locally: \<^verbatim>\<open>Create\<close>
  declares the size of the sealed payload, \<^verbatim>\<open>PutData\<close> then announces the total of the larger envelope,
  and the relay refuses an upload whose total is not the declared one (it would also refuse the
  client's own token, as the one it returned is dropped).
\<close>

theorem app_send_relay_fails:
  assumes "send_relay a o' = Some addr"
  shows "\<exists>e s'. app_Send E (relay_http P t rnd conn) ctx now d o' a s = (Inl e, a, s')"
proof (cases "send_prepare E now d o' a")
  case (Inl e)
  then show ?thesis by (simp add: app_Send_def)
next
  case (Inr x)
  obtain did token m sealed expiry where prep: "send_prepare E now d o' a = Inr (did, token, m, sealed, expiry)"
    using Inr by (cases x) auto
  let ?env = "app_writeEnvelope m sealed" and ?http = "relay_http P t rnd conn"
  have "length ?env > length sealed" by (simp add: app_writeEnvelope_def Let_def)
  then have n: "0 < int (length ?env)" "int (length ?env) \<noteq> int (length sealed)" by linarith+
  have "\<exists>e s'. send_upload ?http token did m sealed expiry (so_OneTime o') s = (Some e, s')"
  proof (cases "arl_Create ?http token did (int (length sealed)) expiry (so_OneTime o') s")
    case (Pair e s1)
    show ?thesis
    proof (cases e)
      case None
      from Pair [unfolded None] obtain k where k: "relay_loadMeta (rl_dir s1) did = Some k" "rm_SizeBytes k = int (length sealed)" "relay_validID did"
        by (rule arl_Create_declares)
      obtain c s' where "arl_PutData ?http token did (reader_of ?env) (int (length ?env)) s1 = (Some (ArlStatus c), s')"
        by (rule arl_PutData_refused [OF k(1,3) n(1)]) (use n(2) k(2) in auto)
      then show ?thesis by (simp add: send_upload_def Pair None Let_def)
    qed (simp add: send_upload_def Pair)
  qed
  then show ?thesis using assms by (auto simp: app_Send_def prep)
qed

theorem app_send_relay_fails_witness:
  "\<exists>e s'. app_Send app_demo_env (relay_http demo_prims 0 (Some [7]) 3) live_ctx 0 app_demo_draws
     (app_demo_opts\<lparr>so_Relay := ''http://127.0.0.1:8080''\<rparr>) app_demo (demo_empty 100) = (Inl e, app_demo, s')"
proof -
  have "send_relay app_demo (app_demo_opts\<lparr>so_Relay := ''http://127.0.0.1:8080''\<rparr>) = Some ''http://127.0.0.1:8080''"
    by code_simp
  then show ?thesis by (rule app_send_relay_fails)
qed

section \<open>Verifying and receiving\<close>

text \<open>
  What \<^verbatim>\<open>Verify\<close> of a local drop means: it succeeds exactly if the metadata is there and valid, its
  signature, when there is one, verifies, the drop has not expired, and the stored payload has the
  announced size and hash.
\<close>

theorem app_verify_local:
  assumes "app_ParseDropURI (ae_upper E) (ae_authority E) url = Inr ref" "dr_Relay ref = []"
  shows "fst (app_VerifyDrop E client ctx now url a s) = None \<longleftrightarrow>
    (\<exists>m token sealed. dget (ap_drops a) (dr_ID ref) = Some (m, token) \<and> am_Validate m = None \<and>
       (am_Signature m = None \<or> am_Verify (ae_prims E) m) \<and> \<not> manifest_expired now m \<and>
       dget (ap_store a) (fs_dataPath (dr_ID ref)) = Some sealed \<and> hex_sha (ae_prims E) sealed = am_PayloadHash m \<and>
       (\<exists>ex. fst (fs_Stat ctx now (dr_ID ref) (ap_store a)) = Inr (am_PayloadSize m, ex)))"
  using assms
  by (auto simp: app_VerifyDrop_def app_Inspect_def app_fetchPayload_def app_loadDrop_def split: option.splits sum.splits prod.splits if_splits)

lemma app_demo_link:
  "app_ParseDropURI (ae_upper app_demo_env) (ae_authority app_demo_env) ''GD-000000000000'' =
    Inr \<lparr>dr_ID = ''GD-000000000000'', dr_Relay = [], dr_Token = []\<rparr>"
  by code_simp

theorem app_verify_local_witness:
  "(fst (app_VerifyDrop app_demo_env (\<lambda>r s. (None, s)) live_ctx 0 ''GD-000000000000'' app_demo ()) = None) = False"
  using app_verify_local [OF app_demo_link, of "\<lambda>r s. (None, s)" live_ctx 0 app_demo "()"] by (simp add: app_demo_def)

lemma fetch_hash:
  assumes "app_fetchPayload E client ctx now ref a s = (Inr (m, sealed), s1)"
  shows "hex_sha (ae_prims E) sealed = am_PayloadHash m"
  using assms by (auto simp: app_fetchPayload_def split: if_splits sum.splits option.splits prod.splits)

lemma recv_plain_hash: "recv_plain E m sealed key = Inr plain \<Longrightarrow> hex_sha (ae_prims E) plain = am_PlaintextHash m"
  by (auto simp: recv_plain_def Let_def split: if_splits option.splits prod.splits)

lemma Base_no_slash: "filepath_Base p = ''/'' \<or> CHR ''/'' \<notin> set (filepath_Base p)"
proof -
  define q where "q = rev (dropWhile (\<lambda>c. c = CHR ''/'') (rev p))"
  have "CHR ''/'' \<notin> set (last (split_path q))" by (rule split_path_no_slash [OF last_in_set]) simp
  then show ?thesis by (auto simp: filepath_Base_def q_def [symmetric])
qed

text \<open>Where a base name leads: below the directory, or to a directory.\<close>

definition dir_target :: "string \<Rightarrow> string \<Rightarrow> bool" where
  "dir_target dir p \<longleftrightarrow> (\<exists>nm \<in> {''.'', ''..'', ''/''}. p = filepath_Join dir nm)"

lemma Base_below:
  assumes "clean_dir dir" shows "below dir (filepath_Join dir (filepath_Base n)) \<or> dir_target dir (filepath_Join dir (filepath_Base n))"
proof (cases "filepath_Base n \<in> {''.'', ''..'', ''/''}")
  case True
  then show ?thesis by (auto simp: dir_target_def)
next
  case False
  define b where "b = filepath_Base n"
  have "filepath_Base [] = ''.''" by (simp add: filepath_Base_def)
  then have ne: "b \<noteq> []" unfolding b_def by (metis Base_idem list.distinct(1))
  then have plain: "plain_part b" "CHR ''/'' \<notin> set b" using False Base_no_slash [of n] by (auto simp: plain_part_def b_def)
  then have parts: "name_parts b = [b]"
    by (auto simp: name_parts_def split_path_plain clean_step_def plain_part_def)
  have "filepath_Join dir b = dir @ CHR ''/'' # join_path [b]"
    using Join_below [of dir b] assms ne plain by (auto simp: clean_dir_def parts plain_part_def)
  then have "below dir (filepath_Join dir b)" unfolding below_def using plain by (intro exI [of _ "[b]"]) auto
  then show ?thesis by (simp add: b_def)
qed

lemma recv_single_confined:
  assumes "clean_dir outDir" "recv_single E key m did plain outDir fs = (e, fs')" "fs' p \<noteq> fs p"
  shows "below outDir p \<or> dir_target outDir p"
proof -
  obtain name where name: "recv_name (ae_prims E) key m did = Some name" "p = filepath_Join outDir name"
    using assms(2,3) by (auto simp: recv_single_def Let_def split: option.splits if_splits)
  obtain n where "name = filepath_Base n"
    using name(1) by (auto simp: recv_name_def Let_def split: option.splits sum.splits if_splits)
  then show ?thesis using Base_below [OF assms(1), of n] name(2) by simp
qed

lemma recv_archive_confined:
  assumes "clean_dir outDir" "recv_archive E key m plain outDir fs = (e, fs')" "fs' p \<noteq> fs p"
  shows "below outDir p"
proof -
  obtain items where "snd (app_UnzipSafe items outDir fs) = fs'"
    using assms(2,3) by (auto simp: recv_archive_def split: option.splits prod.splits sum.splits dest: arg_cong [of _ _ snd])
  then have "unzip_items outDir items [] fs = (fst (app_UnzipSafe items outDir fs), fs')" by (auto simp: app_UnzipSafe_def)
  from unzip_items_confined [OF assms(1) this assms(3)] show ?thesis .
qed



section \<open>Revoking\<close>

text \<open>
  A revoked drop is gone. After \<^verbatim>\<open>Revoke\<close> has succeeded, at any later time and with any secret, receiving
  by the identifier finds nothing and writes nothing, a second \<^verbatim>\<open>Revoke\<close> and \<^verbatim>\<open>Inspect\<close> report the same, the payload
  is no longer in the store and the drop no longer listed.
\<close>

theorem app_revoke_gone:
  assumes "app_ParseDropURI (ae_upper E) (ae_authority E) url = Inr ref" "dr_Relay ref = []"
    and "app_Revoke E client ctx now url a s = (None, a', s')"
  shows "app_Receive E client ctx' now' url secret outDir fs a' s'' = (Some ApNotFound, fs, a', s'') \<and>
    app_Inspect E client ctx' now' url a' s'' = (Inl ApNotFound, s'') \<and>
    app_Revoke E client ctx' now' url a' s'' = (Some ApNotFound, a', s'') \<and>
    dget (ap_drops a') (dr_ID ref) = None \<and> dget (ap_store a') (fs_dataPath (dr_ID ref)) = None"
proof -
  have "dget (ap_drops a') (dr_ID ref) = None" "dget (ap_store a') (fs_dataPath (dr_ID ref)) = None"
    using assms by (auto simp: app_Revoke_def app_appendHistory_def fs_Delete_def Let_def split: sum.splits)
  then show ?thesis using assms(1,2) by (simp add: receive_missing app_Inspect_def app_loadDrop_def app_Revoke_def)
qed

theorem app_revoke_gone_witness:
  "\<exists>a'. app_Revoke app_demo_env (\<lambda>r s. (None, s)) live_ctx 3 ''GD-000000000000''
      (app_saveDrop ''GD-000000000000'' ''t'' (am_NewManifest 0 ''GD-000000000000'' ''open'' 9) app_demo) () = (None, a', ()) \<and>
     app_Receive app_demo_env (\<lambda>r s. (None, s)) live_ctx 4 ''GD-000000000000'' [] ''/out'' Map.empty a' () =
       (Some ApNotFound, Map.empty, a', ())"
proof -
  obtain a' where r: "app_Revoke app_demo_env (\<lambda>r s. (None, s)) live_ctx 3 ''GD-000000000000''
      (app_saveDrop ''GD-000000000000'' ''t'' (am_NewManifest 0 ''GD-000000000000'' ''open'' 9) app_demo) () = (None, a', ())"
    by (simp add: app_Revoke_def app_demo_link app_loadDrop_def app_saveDrop_def)
  from app_revoke_gone [OF app_demo_link _ this] have "app_Receive app_demo_env (\<lambda>r s. (None, s)) live_ctx 4 ''GD-000000000000'' [] ''/out'' Map.empty a' () =
       (Some ApNotFound, Map.empty, a', ())" by simp
  with r show ?thesis by blast
qed

end
