(* ===== verification/Events.thy ===== *)
theory Events
  imports Json "HOL-Library.Sublist"
begin

text \<open>
  The progress bus, \<^verbatim>\<open>internal/events/bus.go\<close>. A channel is its buffer with its capacity and a flag for
  \<^verbatim>\<open>close\<close>; the bus is the list of the channels it has ever made (a channel outlives its subscription, as the
  subscriber still holds it), each marked as subscribed or not. Sending on a closed channel and closing one twice
  panic (\<open>None\<close>). A step relation has the critical sections of subscribers and publishers and the
  receives in any order.
\<close>

section \<open>Quoting\<close>

text \<open>\<^verbatim>\<open>%q\<close>, that is \<^verbatim>\<open>strconv.Quote\<close>. How a rune that is not ASCII is shown (as it is when printable, escaped
  otherwise) is the parameter \<open>uni\<close>.\<close>

definition quote_ascii :: "char \<Rightarrow> string" where
  "quote_ascii c =
     (if c = quote \<or> c = backslash then [backslash, c]
      else if 32 \<le> code c \<and> code c < 127 then [c]
      else if code c = 7 then [backslash, CHR ''a'']
      else if code c = 8 then [backslash, CHR ''b'']
      else if code c = 12 then [backslash, CHR ''f'']
      else if code c = 10 then [backslash, CHR ''n'']
      else if code c = 13 then [backslash, CHR ''r'']
      else if code c = 9 then [backslash, CHR ''t'']
      else if code c = 11 then [backslash, CHR ''v'']
      else backslash # CHR ''x'' # hex_encode [byte_of_char c])"

function quote_body :: "(string \<Rightarrow> string) \<Rightarrow> string \<Rightarrow> string" where
  "quote_body uni [] = []"
| "quote_body uni (c # cs) =
     (if is_ascii c then quote_ascii c @ quote_body uni cs
      else case utf8_width (c # cs) of
             None \<Rightarrow> backslash # CHR ''x'' # hex_encode [byte_of_char c] @ quote_body uni cs
           | Some w \<Rightarrow> uni (take w (c # cs)) @ quote_body uni (drop (w - 1) cs))"
  by pat_completeness auto
termination by (relation "measure (\<lambda>(_, s). length s)") auto

definition go_quote :: "(string \<Rightarrow> string) \<Rightarrow> string \<Rightarrow> string" where
  "go_quote uni s = quote # quote_body uni s @ [quote]"

section \<open>The bus\<close>

record event =
  ev_Type :: string
  ev_DropID :: string
  ev_Done :: int
  ev_Total :: int
  ev_Message :: string
  ev_At :: time

record chan =
  ch_buf :: "event list"
  ch_cap :: nat
  ch_closed :: bool
  ch_subscribed :: bool

record bus =
  bs_chans :: "chan list"

definition bus_New :: bus where
  "bus_New = \<lparr>bs_chans = []\<rparr>"

text \<open>The channel is the index.\<close>

definition bus_Subscribe :: "int \<Rightarrow> bus \<Rightarrow> nat \<times> bus" where
  "bus_Subscribe buffer b =
     (let n = (if buffer \<le> 0 then 32 else nat buffer);
          c = \<lparr>ch_buf = [], ch_cap = n, ch_closed = False, ch_subscribed = True\<rparr>
      in (length (bs_chans b), b\<lparr>bs_chans := bs_chans b @ [c]\<rparr>))"

text \<open>The function \<^verbatim>\<open>Subscribe\<close> returns. Its \<^verbatim>\<open>once\<close> has been used exactly when the channel is no longer subscribed.\<close>

definition bus_unsub :: "nat \<Rightarrow> bus \<Rightarrow> bus option" where
  "bus_unsub i b =
     (let c = bs_chans b ! i in
      if \<not> ch_subscribed c then Some b
      else if ch_closed c then None
      else Some (b\<lparr>bs_chans := (bs_chans b)[i := c\<lparr>ch_closed := True, ch_subscribed := False\<rparr>]\<rparr>))"

text \<open>The \<^verbatim>\<open>select\<close> with a default: a full buffer drops the event.\<close>

definition bus_offer :: "event \<Rightarrow> chan \<Rightarrow> chan option" where
  "bus_offer e c =
     (if \<not> ch_subscribed c then Some c
      else if ch_closed c then None
      else Some (if length (ch_buf c) < ch_cap c then c\<lparr>ch_buf := ch_buf c @ [e]\<rparr> else c))"

definition bus_stamp :: "time \<Rightarrow> event \<Rightarrow> event" where
  "bus_stamp now e = (if ev_At e = 0 then e\<lparr>ev_At := now\<rparr> else e)"

definition bus_Publish :: "time \<Rightarrow> event \<Rightarrow> bus \<Rightarrow> bus option" where
  "bus_Publish now e b =
     (case those (map (bus_offer (bus_stamp now e)) (bs_chans b)) of
        None \<Rightarrow> None
      | Some cs \<Rightarrow> Some (b\<lparr>bs_chans := cs\<rparr>))"

definition bus_event :: "string \<Rightarrow> string \<Rightarrow> int \<Rightarrow> int \<Rightarrow> string \<Rightarrow> event" where
  "bus_event typ did don tot msg =
     \<lparr>ev_Type = typ, ev_DropID = did, ev_Done = don, ev_Total = tot, ev_Message = msg, ev_At = 0\<rparr>"

definition bus_Progress :: "time \<Rightarrow> string \<Rightarrow> int \<Rightarrow> int \<Rightarrow> bus \<Rightarrow> bus option" where
  "bus_Progress now did don tot b = bus_Publish now (bus_event ''progress'' did don tot []) b"

definition bus_Status :: "time \<Rightarrow> string \<Rightarrow> string \<Rightarrow> string \<Rightarrow> bus \<Rightarrow> bus option" where
  "bus_Status now typ did msg b = bus_Publish now (bus_event typ did 0 0 msg) b"

text \<open>Receiving: the next event, or \<open>None\<close> within from a drained closed channel; without either it blocks.\<close>

definition bus_receive :: "nat \<Rightarrow> bus \<Rightarrow> (event option \<times> bus) option" where
  "bus_receive i b =
     (let c = bs_chans b ! i in
      case ch_buf c of
        e # es \<Rightarrow> Some (Some e, b\<lparr>bs_chans := (bs_chans b)[i := c\<lparr>ch_buf := es\<rparr>]\<rparr>)
      | [] \<Rightarrow> if ch_closed c then Some (None, b) else None)"

section \<open>Server-sent events\<close>

definition literal_key :: "string \<Rightarrow> string" where
  "literal_key k = quote # k @ [quote, CHR '':'']"

definition sse_frame :: "(string \<Rightarrow> string) \<Rightarrow> event \<Rightarrow> string" where
  "sse_frame uni e =
     ''event: '' @ ev_Type e @ [CHR 0x0A] @ ''data: {'' @ literal_key ''type'' @ go_quote uni (ev_Type e) @ '','' @
     literal_key ''drop_id'' @ go_quote uni (ev_DropID e) @ '','' @ literal_key ''done'' @ format_int (ev_Done e) @ '','' @
     literal_key ''total'' @ format_int (ev_Total e) @ '','' @ literal_key ''message'' @ go_quote uni (ev_Message e) @ ''}'' @ [CHR 0x0A, CHR 0x0A]"

datatype sse_input = SseDone | SseEvent event | SseTick

text \<open>What is written for the cases that \<^verbatim>\<open>select\<close> chooses.\<close>

fun sse_loop :: "(string \<Rightarrow> string) \<Rightarrow> sse_input list \<Rightarrow> string" where
  "sse_loop uni [] = []"
| "sse_loop uni (SseDone # _) = []"
| "sse_loop uni (SseEvent e # ins) = sse_frame uni e @ sse_loop uni ins"
| "sse_loop uni (SseTick # ins) = '': keepalive'' @ [CHR 0x0A, CHR 0x0A] @ sse_loop uni ins"

text \<open>\<open>others\<close> is what happens to the bus while the stream is open.\<close>

definition bus_ServeSSE ::
  "(string \<Rightarrow> string) \<Rightarrow> bool \<Rightarrow> sse_input list \<Rightarrow> (bus \<Rightarrow> bus) \<Rightarrow> bus \<Rightarrow> ((string + string) \<times> bus) option" where
  "bus_ServeSSE uni flusher ins others b =
     (if \<not> flusher then Some (Inl ''streaming unsupported'', b)
      else let (ch, b1) = bus_Subscribe 64 b;
               out = '': hello'' @ [CHR 0x0A, CHR 0x0A] @ sse_loop uni ins
           in map_option (\<lambda>b2. (Inr out, b2)) (bus_unsub ch (others b1)))"

section \<open>Steps\<close>

datatype bus_act = ASub int | AUnsub nat | APub event | ARecv nat event | AClosed nat

inductive bus_step :: "bus \<Rightarrow> bus_act \<Rightarrow> bus \<Rightarrow> bool" where
  Sub: "bus_Subscribe buffer b = (i, b') \<Longrightarrow> bus_step b (ASub buffer) b'"
| Unsub: "i < length (bs_chans b) \<Longrightarrow> bus_unsub i b = Some b' \<Longrightarrow> bus_step b (AUnsub i) b'"
| Pub: "bus_Publish now e b = Some b' \<Longrightarrow> bus_step b (APub (bus_stamp now e)) b'"
| Recv: "i < length (bs_chans b) \<Longrightarrow> bus_receive i b = Some (Some e, b') \<Longrightarrow> bus_step b (ARecv i e) b'"
| Closed: "i < length (bs_chans b) \<Longrightarrow> bus_receive i b = Some (None, b') \<Longrightarrow> bus_step b (AClosed i) b'"

inductive_cases bus_stepE [elim]:
  "bus_step b (ASub n) b'" "bus_step b (AUnsub i) b'" "bus_step b (APub e) b'" "bus_step b (ARecv i e) b'" "bus_step b (AClosed i) b'"

inductive bus_run :: "bus \<Rightarrow> bus_act list \<Rightarrow> bus \<Rightarrow> bool" where
  Stop: "bus_run b [] b"
| Go: "bus_step b a b1 \<Longrightarrow> bus_run b1 as b2 \<Longrightarrow> bus_run b (a # as) b2"

inductive_cases bus_runE: "bus_run b (a # as) b'"

text \<open>A channel is open exactly while it is subscribed, and its buffer is within its positive capacity.\<close>

definition chan_ok :: "chan \<Rightarrow> bool" where
  "chan_ok c \<longleftrightarrow> (ch_closed c \<longleftrightarrow> \<not> ch_subscribed c) \<and> length (ch_buf c) \<le> ch_cap c \<and> 0 < ch_cap c"

definition bus_ok :: "bus \<Rightarrow> bool" where
  "bus_ok b \<longleftrightarrow> list_all chan_ok (bs_chans b)"

definition offered :: "event \<Rightarrow> chan \<Rightarrow> chan" where
  "offered e c = (if ch_subscribed c \<and> length (ch_buf c) < ch_cap c then c\<lparr>ch_buf := ch_buf c @ [e]\<rparr> else c)"

lemma bus_offer_ok: "chan_ok c \<Longrightarrow> bus_offer e c = Some (offered e c) \<and> chan_ok (offered e c)"
  by (auto simp: bus_offer_def chan_ok_def offered_def)

lemma bus_New_ok: "bus_ok bus_New"
  by (simp add: bus_ok_def bus_New_def)

lemma Publish_ok:
  assumes "bus_ok b"
  shows "bus_Publish now e b = Some (b\<lparr>bs_chans := map (offered (bus_stamp now e)) (bs_chans b)\<rparr>)"
    and "bus_ok (b\<lparr>bs_chans := map (offered (bus_stamp now e)) (bs_chans b)\<rparr>)"
proof -
  have "those (map (bus_offer (bus_stamp now e)) cs) = Some (map (offered (bus_stamp now e)) cs)" if "list_all chan_ok cs" for cs
    using that by (induction cs) (auto simp: bus_offer_ok)
  with assms show "bus_Publish now e b = Some (b\<lparr>bs_chans := map (offered (bus_stamp now e)) (bs_chans b)\<rparr>)"
    by (simp add: bus_Publish_def bus_ok_def)
  show "bus_ok (b\<lparr>bs_chans := map (offered (bus_stamp now e)) (bs_chans b)\<rparr>)"
    using assms bus_offer_ok by (auto simp: bus_ok_def list_all_iff)
qed

lemma unsub_ok: "bus_ok b \<Longrightarrow> i < length (bs_chans b) \<Longrightarrow> bus_unsub i b \<noteq> None"
  by (auto simp: bus_unsub_def bus_ok_def chan_ok_def list_all_length Let_def)

lemma bus_ok_update:
  assumes "bus_ok b" "i < length (bs_chans b) \<Longrightarrow> chan_ok (bs_chans b ! i) \<Longrightarrow> chan_ok c"
  shows "bus_ok (b\<lparr>bs_chans := (bs_chans b)[i := c]\<rparr>)"
  using assms by (cases "i < length (bs_chans b)") (auto simp: bus_ok_def list_all_length nth_list_update)

lemma bus_step_ok:
  assumes "bus_step b a b'" "bus_ok b" shows "bus_ok b'"
  using assms(1)
proof (cases rule: bus_step.cases)
  case (Sub n i)
  then show ?thesis using assms(2) by (auto simp: bus_Subscribe_def bus_ok_def chan_ok_def Let_def)
next
  case (Unsub i)
  then show ?thesis using assms(2)
    by (auto simp: bus_unsub_def Let_def chan_ok_def split: if_splits intro!: bus_ok_update)
next
  case (Pub now e)
  then show ?thesis using Publish_ok [OF assms(2), of now e] by simp
next
  case (Recv i e)
  then show ?thesis using assms(2)
    by (auto simp: bus_receive_def Let_def chan_ok_def split: if_splits list.splits intro!: bus_ok_update)
qed (use assms(2) in \<open>auto simp: bus_receive_def Let_def split: list.splits if_splits\<close>)

lemma bus_run_ok: "bus_run b as b' \<Longrightarrow> bus_ok b \<Longrightarrow> bus_ok b'"
  by (induction rule: bus_run.induct) (auto dest: bus_step_ok)

text \<open>What one step does to a channel.\<close>

definition got :: "nat \<Rightarrow> bus_act list \<Rightarrow> event list" where
  "got i as = concat (map (\<lambda>a. case a of ARecv j e \<Rightarrow> if i = j then [e] else [] | _ \<Rightarrow> []) as)"

definition published :: "bus_act list \<Rightarrow> event list" where
  "published as = concat (map (\<lambda>a. case a of APub e \<Rightarrow> [e] | _ \<Rightarrow> []) as)"

abbreviation buffered :: "bus \<Rightarrow> nat \<Rightarrow> event list" where
  "buffered b i \<equiv> ch_buf (bs_chans b ! i)"

definition chan_step :: "bus_act \<Rightarrow> nat \<Rightarrow> chan \<Rightarrow> chan \<Rightarrow> bool" where
  "chan_step a i c c' \<longleftrightarrow> ch_cap c' = ch_cap c \<and> (a \<noteq> AUnsub i \<and> ch_subscribed c \<longrightarrow> ch_subscribed c') \<and>
     (case a of
        APub e \<Rightarrow> ch_buf c' = (if ch_subscribed c \<and> length (ch_buf c) < ch_cap c then ch_buf c @ [e] else ch_buf c)
      | ARecv j e \<Rightarrow> if i = j then ch_buf c = e # ch_buf c' else ch_buf c' = ch_buf c
      | _ \<Rightarrow> ch_buf c' = ch_buf c)"

lemma bus_step_chan:
  assumes "bus_step b a b'" "bus_ok b" "i < length (bs_chans b)"
  shows "i < length (bs_chans b') \<and> chan_step a i (bs_chans b ! i) (bs_chans b' ! i)"
  using assms(1)
proof (cases rule: bus_step.cases)
  case (Pub now e)
  then have b': "b' = b\<lparr>bs_chans := map (offered (bus_stamp now e)) (bs_chans b)\<rparr>" using Publish_ok(1) [OF assms(2)] by simp
  show ?thesis using assms(3) by (simp add: b' offered_def Pub chan_step_def)
qed (use assms(3) in \<open>auto simp: bus_Subscribe_def bus_unsub_def bus_receive_def nth_append nth_list_update chan_step_def Let_def split: if_splits list.splits\<close>)

lemma subseq_skip: "subseq (l @ xs) (l @ x # xs)"
  by (induction l) auto

lemma bus_run_delivery:
  assumes "bus_run b as b'" "bus_ok b" "i < length (bs_chans b)"
  shows "i < length (bs_chans b') \<and> subseq (got i as @ buffered b' i) (buffered b i @ published as) \<and>
    (AUnsub i \<notin> set as \<and> ch_subscribed (bs_chans b ! i) \<and> length (buffered b i) + length (published as) \<le> ch_cap (bs_chans b ! i)
       \<longrightarrow> got i as @ buffered b' i = buffered b i @ published as)"
  using assms
proof (induction rule: bus_run.induct)
  case (Stop b)
  then show ?case by (simp add: got_def published_def)
next
  case (Go b a b1 as b2)
  let ?c = "bs_chans b ! i" and ?c1 = "bs_chans b1 ! i"
  have s: "i < length (bs_chans b1)" "chan_step a i ?c ?c1" using bus_step_chan [OF Go(1,4,5)] by blast+
  have IH: "i < length (bs_chans b2)" "subseq (got i as @ buffered b2 i) (ch_buf ?c1 @ published as)"
    "AUnsub i \<notin> set as \<and> ch_subscribed ?c1 \<and> length (ch_buf ?c1) + length (published as) \<le> ch_cap ?c1
       \<longrightarrow> got i as @ buffered b2 i = ch_buf ?c1 @ published as"
    using Go(3) bus_step_ok [OF Go(1,4)] s(1) by blast+
  show ?case
  proof (cases a)
    case (APub e)
    have p: "published (a # as) = e # published as" "got i (a # as) = got i as" by (simp_all add: published_def got_def APub)
    have "subseq (ch_buf ?c1 @ published as) (ch_buf ?c @ e # published as)"
      using s(2) subseq_skip by (auto simp: chan_step_def APub)
    with IH s(2) show ?thesis unfolding p by (auto simp: chan_step_def APub intro: subseq_order.trans)
  next
    case (ARecv j e)
    have p: "published (a # as) = published as" "got i (a # as) = (if i = j then [e] else []) @ got i as"
      by (simp_all add: published_def got_def ARecv)
    show ?thesis unfolding p using IH s(2) by (auto simp: chan_step_def ARecv split: if_splits)
  qed (use IH s(2) in \<open>auto simp: chan_step_def published_def got_def\<close>)
qed

section \<open>Properties\<close>

text \<open>
  C25 The bus never panics and never blocks a publisher. However subscriptions, their ends, publishing and
  receiving interleave, a channel is open exactly while it is subscribed and its buffer is within its
  capacity; so publishing always succeeds (no send on a closed channel), as does the end of any subscription, a second time too
  (no double close).
\<close>

theorem bus_safe:
  "bus_run bus_New as b \<Longrightarrow> bus_ok b \<and> bus_Publish now e b \<noteq> None \<and>
    (\<forall>i b1. i < length (bs_chans b) \<longrightarrow> bus_unsub i b \<noteq> None \<and> (bus_unsub i b = Some b1 \<longrightarrow> bus_unsub i b1 = Some b1))"
proof -
  assume "bus_run bus_New as b"
  then have ok: "bus_ok b" by (rule bus_run_ok [OF _ bus_New_ok])
  then show ?thesis
    using Publish_ok(1) [OF ok] unsub_ok [OF ok] by (auto simp: bus_unsub_def Let_def split: if_splits)
qed

theorem bus_safe_witness:
  "bus_ok (snd (bus_Subscribe 0 bus_New)) \<and> bus_Publish 5 (bus_event ''created'' ''x'' 0 0 []) (snd (bus_Subscribe 0 bus_New)) \<noteq> None"
proof -
  have "bus_step bus_New (ASub 0) (snd (bus_Subscribe 0 bus_New))" by (rule bus_step.Sub [OF prod.collapse [symmetric]])
  then have "bus_run bus_New [ASub 0] (snd (bus_Subscribe 0 bus_New))" by (rule bus_run.Go [OF _ bus_run.Stop])
  from bus_safe [OF this] show ?thesis by blast
qed

text \<open>
  C24 What a subscriber sees. In any run what it has received, followed by what is still in its buffer,
  is a subsequence, in order, of what its buffer held at the start and what was published since: nothing is
  invented, doubled or reordered. And as long as it stays subscribed, nothing is lost if no more was published than fits its buffer.
\<close>

theorem bus_delivery:
  assumes "bus_run bus_New as b" "bus_run b bs b'" "i < length (bs_chans b)"
  shows "subseq (got i bs @ buffered b' i) (buffered b i @ published bs) \<and>
    (AUnsub i \<notin> set bs \<and> ch_subscribed (bs_chans b ! i) \<and> length (buffered b i) + length (published bs) \<le> ch_cap (bs_chans b ! i)
       \<longrightarrow> got i bs @ buffered b' i = buffered b i @ published bs)"
  using bus_run_delivery [OF assms(2) bus_run_ok [OF assms(1) bus_New_ok] assms(3)] by blast

definition demo_event :: "nat \<Rightarrow> event" where
  "demo_event n = \<lparr>ev_Type = ''progress'', ev_DropID = ''x'', ev_Done = int n, ev_Total = 9, ev_Message = [], ev_At = 1\<rparr>"

theorem bus_delivery_witness:
  "\<exists>b'. bus_run (snd (bus_Subscribe 1 bus_New)) [APub (demo_event 1), APub (demo_event 2), ARecv 0 (demo_event 1)] b' \<and>
     subseq (got 0 [APub (demo_event 1), APub (demo_event 2), ARecv 0 (demo_event 1)] @ buffered b' 0)
       (buffered (snd (bus_Subscribe 1 bus_New)) 0 @ published [APub (demo_event 1), APub (demo_event 2), ARecv 0 (demo_event 1)])"
proof -
  define b0 where "b0 = snd (bus_Subscribe 1 bus_New)"
  define b1 where "b1 = b0\<lparr>bs_chans := map (offered (demo_event 1)) (bs_chans b0)\<rparr>"
  define b2 where "b2 = b1\<lparr>bs_chans := map (offered (demo_event 2)) (bs_chans b1)\<rparr>"
  have "bus_step bus_New (ASub 1) b0" unfolding b0_def by (rule bus_step.Sub [OF prod.collapse [symmetric]])
  then have run0: "bus_run bus_New [ASub 1] b0" by (rule bus_run.Go [OF _ bus_run.Stop])
  have st: "bus_stamp 5 (demo_event n) = demo_event n" for n by (simp add: bus_stamp_def demo_event_def)
  have ok0: "bus_ok b0" by (rule bus_run_ok [OF run0 bus_New_ok])
  then have ok1: "bus_ok b1" using Publish_ok(2) [of b0 5 "demo_event 1"] by (simp add: st b1_def)
  have p1: "bus_step b0 (APub (demo_event 1)) b1"
    using bus_step.Pub [OF Publish_ok(1) [OF ok0, of 5 "demo_event 1"]] by (simp add: st b1_def)
  have p2: "bus_step b1 (APub (demo_event 2)) b2"
    using bus_step.Pub [OF Publish_ok(1) [OF ok1, of 5 "demo_event 2"]] by (simp add: st b2_def)
  have "bs_chans b2 = [\<lparr>ch_buf = [demo_event 1], ch_cap = 1, ch_closed = False, ch_subscribed = True\<rparr>]"
    by (simp add: b2_def b1_def b0_def bus_Subscribe_def bus_New_def offered_def)
  then obtain b3 where "bus_step b2 (ARecv 0 (demo_event 1)) b3"
    by (intro that bus_step.Recv) (simp_all add: bus_receive_def)
  with p1 p2 have run: "bus_run b0 [APub (demo_event 1), APub (demo_event 2), ARecv 0 (demo_event 1)] b3"
    by (intro bus_run.Go [OF p1] bus_run.Go [OF p2] bus_run.Go [OF _ bus_run.Stop])
  have "0 < length (bs_chans b0)" by (simp add: b0_def bus_Subscribe_def bus_New_def)
  from bus_delivery [OF run0 run this] run show ?thesis unfolding b0_def by blast
qed

text \<open>Quoting adds no line break.\<close>

lemma hex_encode_line: "CHR 0x0A \<notin> set (hex_encode bs)"
proof -
  have "is_graph (hex_char n)" if "n < 16" for n using that by (auto simp: hex_char_def is_graph_def)
  then have "is_graph c" if "c \<in> set (hex_encode bs)" for c
    using that by (induction bs) (auto simp: less_mult_imp_div_less)
  moreover have "\<not> is_graph (CHR 0x0A)" by (simp add: is_graph_def)
  ultimately show ?thesis by blast
qed

lemma quote_body_line: "(\<And>r. CHR 0x0A \<notin> set (uni r)) \<Longrightarrow> CHR 0x0A \<notin> set (quote_body uni s)"
proof (induction uni s rule: quote_body.induct)
  case (2 uni c cs)
  have "CHR 0x0A \<notin> set (quote_ascii c)"
    using hex_encode_line [of "[byte_of_char c]"] by (auto simp: quote_ascii_def quote_def backslash_def)
  moreover have "backslash \<noteq> CHR 0x0A" by (simp add: backslash_def)
  ultimately show ?case using 2 hex_encode_line [of "[byte_of_char c]"] by (auto split: option.splits)
qed simp

definition json_plain :: "string \<Rightarrow> bool" where
  "json_plain s \<longleftrightarrow> list_all (\<lambda>c. 32 \<le> code c \<and> code c < 127 \<and> c \<notin> {CHR ''<'', CHR ''>'', CHR ''&''}) s"

lemma quote_body_json: "json_plain s \<Longrightarrow> quote_body uni s = json_esc s"
  by (induction s) (auto simp: json_plain_def is_ascii_def quote_ascii_def json_esc1_def)

text \<open>
  A frame cannot be forged through its contents. Whatever the identifier and the message of an event are, its frame is the
  line with the type, one data line and an empty line; and if its strings are printable ASCII without \<open><\<close>, \<open>>\<close> and \<open>&\<close>,
  the data is the JSON object of the event. (For a message with a control character it is not JSON: \<^verbatim>\<open>%q\<close>
  writes a bell as \<open>\a\<close>.)
\<close>

theorem sse_frame_shape:
  assumes "\<And>r. CHR 0x0A \<notin> set (uni r)"
  shows "\<exists>d. sse_frame uni e = ''event: '' @ ev_Type e @ [CHR 0x0A] @ ''data: '' @ d @ [CHR 0x0A, CHR 0x0A] \<and> CHR 0x0A \<notin> set d \<and>
    (json_plain (ev_Type e) \<and> json_plain (ev_DropID e) \<and> json_plain (ev_Message e) \<longrightarrow>
       d = json_print (JsObj [(''type'', JsStr (ev_Type e)), (''drop_id'', JsStr (ev_DropID e)), (''done'', JsInt (ev_Done e)),
         (''total'', JsInt (ev_Total e)), (''message'', JsStr (ev_Message e))]))"
proof -
  define d where "d = CHR ''{'' # literal_key ''type'' @ go_quote uni (ev_Type e) @ '','' @
     literal_key ''drop_id'' @ go_quote uni (ev_DropID e) @ '','' @ literal_key ''done'' @ format_int (ev_Done e) @ '','' @
     literal_key ''total'' @ format_int (ev_Total e) @ '','' @ literal_key ''message'' @ go_quote uni (ev_Message e) @ ''}''"
  have f: "sse_frame uni e = ''event: '' @ ev_Type e @ [CHR 0x0A] @ ''data: '' @ d @ [CHR 0x0A, CHR 0x0A]"
    by (simp add: sse_frame_def d_def)
  have n: "CHR 0x0A \<notin> set (format_int k)" for k
  proof -
    have "\<not> is_digit (CHR 0x0A)" by (simp add: is_digit_def)
    then have "CHR 0x0A \<notin> set (format_nat m)" for m using format_nat_digits by blast
    then show ?thesis by (simp add: format_int_def)
  qed
  have q: "CHR 0x0A \<notin> set (go_quote uni s)" for s
    using quote_body_line [of uni s] assms by (simp add: go_quote_def quote_def)
  have "CHR 0x0A \<notin> set d" using n q by (simp add: d_def literal_key_def quote_def)
  moreover have "d = json_print (JsObj [(''type'', JsStr (ev_Type e)), (''drop_id'', JsStr (ev_DropID e)), (''done'', JsInt (ev_Done e)),
         (''total'', JsInt (ev_Total e)), (''message'', JsStr (ev_Message e))])"
    if "json_plain (ev_Type e)" "json_plain (ev_DropID e)" "json_plain (ev_Message e)"
    using that by (simp add: d_def literal_key_def go_quote_def quote_body_json json_esc1_def is_ascii_def quote_def backslash_def)
  ultimately show ?thesis using f by blast
qed

theorem sse_frame_shape_witness:
  "\<exists>d. sse_frame (\<lambda>r. backslash # ''ufffd'') (demo_event 1) = ''event: '' @ ''progress'' @ [CHR 0x0A] @ ''data: '' @ d @ [CHR 0x0A, CHR 0x0A] \<and>
     CHR 0x0A \<notin> set d"
proof -
  have "CHR 0x0A \<notin> set (backslash # ''ufffd'')" by (simp add: backslash_def)
  from sse_frame_shape [of "\<lambda>r. backslash # ''ufffd''" "demo_event 1", OF this] show ?thesis by (auto simp: demo_event_def)
qed

end
