(* ===== verification/UiServer.thy ===== *)
theory UiServer
  imports Events Relay Paths Crypto "HOL-Library.Monad_Syntax"
begin

text \<open>
  The desktop server, \<^verbatim>\<open>internal/ui/server.go\<close> and \<^verbatim>\<open>internal/ui/model.go\<close>, with the console lines of
  \<^verbatim>\<open>internal/notifications/notify.go\<close>. A request is what the multiplexer hands to a handler: the route with its
  path values and the decoded body (the handlers ignore decoding errors, so a body is the record that decoding leaves).
  The bus is that of \<^verbatim>\<open>Events\<close>. Times are instants: the zone an expiry was given in, and is shown in, is not kept.
  Random bytes, the QR encoder and the product of a fractional number of hours are parameters. Creating and writing files
  does not fail, and notices of the operating system are not modelled.
\<close>

section \<open>Notices\<close>

record notifier =
  nt_Redact :: bool
  nt_out :: string

definition notify_New :: "bool \<Rightarrow> notifier" where
  "notify_New redact = \<lparr>nt_Redact = redact, nt_out = []\<rparr>"

definition notify_DisplayName :: "notifier \<Rightarrow> string \<Rightarrow> string" where
  "notify_DisplayName n name = (if nt_Redact n then ''[redacted]'' else name)"

definition notify_Notify :: "string \<Rightarrow> string \<Rightarrow> string \<Rightarrow> notifier \<Rightarrow> notifier" where
  "notify_Notify kind title text n =
     n\<lparr>nt_out := nt_out n @ ''NOTIFY ['' @ kind @ ''] '' @ title @ '': '' @ text @ [CHR 0x0A]\<rparr>"

definition notify_DropReceived :: "string \<Rightarrow> string \<Rightarrow> notifier \<Rightarrow> notifier" where
  "notify_DropReceived did filename n =
     notify_Notify ''DROP RECEIVED'' ''Ghostdrop'' (''Incoming drop '' @ did @ '' ('' @ notify_DisplayName n filename @ '')'') n"

definition notify_Complete :: "string \<Rightarrow> notifier \<Rightarrow> notifier" where
  "notify_Complete did n = notify_Notify ''DROP COMPLETE'' ''Ghostdrop'' (''Drop '' @ did @ '' complete'') n"

definition notify_Expiring :: "string \<Rightarrow> notifier \<Rightarrow> notifier" where
  "notify_Expiring did n = notify_Notify ''DROP EXPIRING'' ''Ghostdrop'' (''Drop '' @ did @ '' expiring soon'') n"

definition notify_Failed :: "string \<Rightarrow> string \<Rightarrow> notifier \<Rightarrow> notifier" where
  "notify_Failed did reason n = notify_Notify ''DROP FAILED'' ''Ghostdrop'' (''Drop '' @ did @ '' failed: '' @ reason) n"

section \<open>View models\<close>

record drop_info =
  di_ID :: string
  di_Recipient :: string
  di_Mode :: string
  di_Expiry :: time
  di_Size :: int
  di_Uploaded :: int
  di_Status :: string
  di_Verified :: bool
  di_Signed :: bool
  di_CreatedAt :: time

definition ui_ClassifyDrop :: "time \<Rightarrow> time \<Rightarrow> bool \<Rightarrow> bool \<Rightarrow> string" where
  "ui_ClassifyDrop now expiry verified incoming =
     (if expiry \<noteq> 0 \<and> expiry < now then ''expired''
      else if verified then ''verified''
      else if incoming then ''incoming''
      else ''outgoing'')"

definition ui_GhostdropURL :: "string \<Rightarrow> string" where
  "ui_GhostdropURL did = ''ghostdrop://drop/'' @ did"

definition ui_trim_set :: "string \<Rightarrow> string \<Rightarrow> string" where
  "ui_trim_set set' s = rev (dropWhile (\<lambda>c. c \<in> set set') (rev (dropWhile (\<lambda>c. c \<in> set set') s)))"

datatype open_err = OpEmpty | OpUnsupported | OpNoID

definition ui_ParseOpenURL :: "(string \<Rightarrow> string) \<Rightarrow> string \<Rightarrow> open_err + string" where
  "ui_ParseOpenURL uni s0 =
     (let s = trim_space (ui_trim_set [CHR 0x22, CHR 0x27] s0);
          prefix = ''ghostdrop://drop/''
      in if s = [] then Inl OpEmpty
         else if \<not> has_prefix prefix (to_lower uni s) then Inl OpUnsupported
         else let did = ui_trim_set ''/'' (trim_space (drop (length prefix) s)) in
           if did = [] then Inl OpNoID else Inr did)"

text \<open>The note has an em dash, three bytes, between ASCII words.\<close>

definition ui_ClipboardNote :: string where
  "ui_ClipboardNote = ''Copied '' @ map char_of [0xE2, 0x80, 0x94 :: nat] @
     '' clipboard clears in 30s. Never share tokens in chat logs.''"

definition info_json :: "drop_info \<Rightarrow> json" where
  "info_json d = JsObj ([(''id'', JsStr (di_ID d))] @
     (if di_Recipient d = [] then [] else [(''recipient'', JsStr (di_Recipient d))]) @
     (if di_Mode d = [] then [] else [(''mode'', JsStr (di_Mode d))]) @
     [(''expiry'', JsStr (format_rfc3339nano (di_Expiry d))), (''size_bytes'', JsInt (di_Size d)),
      (''uploaded_bytes'', JsInt (di_Uploaded d)), (''status'', JsStr (di_Status d)),
      (''verified'', JsBool (di_Verified d)), (''signed'', JsBool (di_Signed d)),
      (''created_at'', JsStr (format_rfc3339nano (di_CreatedAt d)))])"

section \<open>The server\<close>

record drop_rec =
  dp_info :: drop_info
  dp_token :: string
  dp_dataPath :: string
  dp_filename :: string
  dp_incoming :: bool
  dp_declined :: bool

record ui_contact =
  ct_Name :: string
  ct_Address :: string

text \<open>\<open>ui_data\<close> and \<open>ui_web\<close> are the files the server writes and those it serves.\<close>

record ui =
  ui_bus :: bus
  ui_notifier :: notifier
  ui_demo :: bool
  ui_ghost :: bool
  ui_drops :: "drop_rec dir"
  ui_contacts :: "ui_contact dir"
  ui_filesDir :: string
  ui_webRoot :: string
  ui_data :: fs
  ui_web :: fs

definition ui_NewServer :: "bool \<Rightarrow> string \<Rightarrow> string \<Rightarrow> fs \<Rightarrow> fs \<Rightarrow> ui" where
  "ui_NewServer demo webRoot filesDir data web =
     \<lparr>ui_bus = bus_New, ui_notifier = notify_New False, ui_demo = demo, ui_ghost = False, ui_drops = [], ui_contacts = [],
      ui_filesDir = filesDir, ui_webRoot = webRoot, ui_data = data, ui_web = web\<rparr>"

datatype ui_reply =
    UJson int json
  | UPage string bytes
  | UFile string bytes
  | UContent response
  | UNotFound

definition ui_error :: "int \<Rightarrow> string \<Rightarrow> ui_reply" where
  "ui_error st msg = UJson st (JsObj [(''error'', JsStr msg)])"

text \<open>Publishing; that the bus does not panic is \<open>bus_safe\<close>.\<close>

definition ui_publish :: "(bus \<Rightarrow> bus option) \<Rightarrow> ui \<Rightarrow> ui" where
  "ui_publish f s = (case f (ui_bus s) of None \<Rightarrow> s | Some b \<Rightarrow> s\<lparr>ui_bus := b\<rparr>)"

subsection \<open>Static files\<close>

definition fallbackHTML :: string where
  "fallbackHTML = ''<!doctype html><html><head><meta charset=\"utf-8\"><title>GHOSTDROP</title></head><body><h1>GHOSTDROP</h1><p>DROP FILE HERE</p></body></html>''"

definition ui_indexBytes :: "ui \<Rightarrow> bytes" where
  "ui_indexBytes s =
     (case (if ui_webRoot s = [] then None
            else case ui_web s (filepath_Join (ui_webRoot s) ''index.html'') of
                   Some b \<Rightarrow> Some b
                 | None \<Rightarrow> ui_web s (filepath_Join (filepath_Join (ui_webRoot s) ''static'') ''index.html'')) of
        Some b \<Rightarrow> b
      | None \<Rightarrow> bytes_of fallbackHTML)"

definition ui_handleIndex :: "string \<Rightarrow> ui \<Rightarrow> ui_reply" where
  "ui_handleIndex path s = (if path \<noteq> ''/'' then UNotFound else UPage ''text/html; charset=utf-8'' (ui_indexBytes s))"

text \<open>The first of the candidates that is a file.\<close>

fun ui_first_file :: "string list \<Rightarrow> fs \<Rightarrow> ui_reply" where
  "ui_first_file [] web = UNotFound"
| "ui_first_file (p # ps) web = (case web p of Some b \<Rightarrow> UFile p b | None \<Rightarrow> ui_first_file ps web)"

definition ui_handleStatic :: "string \<Rightarrow> ui \<Rightarrow> ui_reply" where
  "ui_handleStatic path s =
     (if ui_webRoot s = [] then UNotFound
      else let rel = trim_prefix ''/static/'' path in
        if rel = [] \<or> contains ''..'' rel then UNotFound
        else ui_first_file [filepath_Join (filepath_Join (ui_webRoot s) ''static'') rel, filepath_Join (ui_webRoot s) rel] (ui_web s))"

definition ui_handleLogo :: "ui \<Rightarrow> ui_reply" where
  "ui_handleLogo s =
     (if ui_webRoot s = [] then UNotFound
      else ui_first_file [filepath_Join (filepath_Join (ui_webRoot s) ''static'') ''logo.png'', filepath_Join (ui_webRoot s) ''logo.png'']
        (ui_web s))"

subsection \<open>Settings\<close>

definition ui_handleHealth :: "ui \<Rightarrow> ui_reply" where
  "ui_handleHealth s = UJson 200 (JsObj [(''demo'', JsBool (ui_demo s)), (''ok'', JsBool True), (''version'', JsStr ''1.0.0'')])"

definition ui_handleGetSettings :: "ui \<Rightarrow> ui_reply" where
  "ui_handleGetSettings s =
     UJson 200 (JsObj [(''demo'', JsBool (ui_demo s)), (''ghost_mode'', JsBool (ui_ghost s)),
       (''simulated'', JsBool (ui_demo s)), (''version'', JsStr ''1.0.0'')])"

definition ui_handleGhost :: "bool option \<Rightarrow> ui \<Rightarrow> ui_reply \<times> ui" where
  "ui_handleGhost body s =
     (let ghost = (case body of Some b \<Rightarrow> b | None \<Rightarrow> \<not> ui_ghost s)
      in (UJson 200 (JsObj [(''ghost_mode'', JsBool ghost)]), s\<lparr>ui_ghost := ghost\<rparr>))"

subsection \<open>Drops\<close>

definition ui_newDropID :: "bytes \<Rightarrow> string" where
  "ui_newDropID raw = ''GD-'' @ map ascii_upper (hex_encode raw)"

definition ui_newToken :: "bytes \<Rightarrow> string" where
  "ui_newToken raw = hex_encode raw"

definition ui_classified :: "time \<Rightarrow> drop_rec \<Rightarrow> drop_info" where
  "ui_classified now r =
     (dp_info r)\<lparr>di_Status := ui_ClassifyDrop now (di_Expiry (dp_info r)) (di_Verified (dp_info r)) (dp_incoming r)\<rparr>"

text \<open>Listing stores the status it shows.\<close>

definition ui_handleListDrops :: "time \<Rightarrow> ui \<Rightarrow> ui_reply \<times> ui" where
  "ui_handleListDrops now s =
     (let touch = (\<lambda>r. if dp_declined r then r else r\<lparr>dp_info := ui_classified now r\<rparr>);
          shown = filter (\<lambda>(_, r). \<not> dp_declined r) (ui_drops s)
      in (UJson 200 (JsObj [(''drops'', JsArr (map (\<lambda>(_, r). info_json (ui_classified now r)) shown))]),
          s\<lparr>ui_drops := map (\<lambda>(k, r). (k, touch r)) (ui_drops s)\<rparr>))"

text \<open>The decoded body; \<open>cb_HoursNs\<close> is \<^verbatim>\<open>time.Duration(body.ExpireHours * float64(time.Hour))\<close>.\<close>

record ui_create_body =
  cb_Recipient :: string
  cb_Mode :: string
  cb_ExpiryRFC :: string
  cb_Expiry :: string
  cb_HoursPositive :: bool
  cb_HoursNs :: int
  cb_SizeBytes :: int
  cb_Incoming :: bool

fun ui_firstNonEmpty :: "string list \<Rightarrow> string" where
  "ui_firstNonEmpty [] = []"
| "ui_firstNonEmpty (s # ss) = (if s \<noteq> [] then s else ui_firstNonEmpty ss)"

definition ui_create_expiry :: "time \<Rightarrow> ui_create_body \<Rightarrow> time option" where
  "ui_create_expiry now body =
     (let expiryStr = ui_firstNonEmpty [cb_ExpiryRFC body, cb_Expiry body] in
      if expiryStr \<noteq> [] then parse_rfc3339 expiryStr
      else if cb_HoursPositive body then Some (now + cb_HoursNs body)
      else Some (now + 24 * 3600 * second_ns))"

definition ui_new_rec :: "time \<Rightarrow> string \<Rightarrow> string \<Rightarrow> time \<Rightarrow> ui_create_body \<Rightarrow> drop_rec" where
  "ui_new_rec now did token expiry body =
     (let mode = (if cb_Mode body = [] then ''standard'' else cb_Mode body)
      in \<lparr>dp_info = \<lparr>di_ID = did, di_Recipient = cb_Recipient body, di_Mode = mode, di_Expiry = expiry,
            di_Size = cb_SizeBytes body, di_Uploaded = 0,
            di_Status = (if cb_Incoming body then ''incoming'' else ''outgoing''), di_Verified = False,
            di_Signed = (cb_Recipient body \<noteq> [] \<or> mode = ''signed''), di_CreatedAt = now\<rparr>,
          dp_token = token, dp_dataPath = [], dp_filename = [], dp_incoming = cb_Incoming body, dp_declined = False\<rparr>)"

definition ui_handleCreateDrop :: "time \<Rightarrow> bytes \<Rightarrow> bytes \<Rightarrow> ui_create_body \<Rightarrow> ui \<Rightarrow> ui_reply \<times> ui" where
  "ui_handleCreateDrop now rawID rawTok body s =
     (case ui_create_expiry now body of
        None \<Rightarrow> (ui_error 400 ''bad expiry_rfc3339'', s)
      | Some expiry \<Rightarrow>
          (let did = ui_newDropID rawID;
               token = ui_newToken rawTok;
               r = ui_new_rec now did token expiry body;
               s1 = ui_publish (bus_Status now ''created'' did ''drop created'') (s\<lparr>ui_drops := dput did r (ui_drops s)\<rparr>);
               s2 = (if cb_Incoming body then s1\<lparr>ui_notifier := notify_DropReceived did [] (ui_notifier s1)\<rparr> else s1)
           in (UJson 201 (JsObj [(''drop'', info_json (dp_info r)), (''id'', JsStr did), (''note'', JsStr ui_ClipboardNote),
                 (''token'', JsStr token), (''url'', JsStr (ui_GhostdropURL did))]), s2)))"

definition ui_lookup :: "string \<Rightarrow> ui \<Rightarrow> drop_rec option" where
  "ui_lookup did s = (case dget (ui_drops s) did of None \<Rightarrow> None | Some r \<Rightarrow> if dp_declined r then None else Some r)"

definition ui_handleGetDrop :: "time \<Rightarrow> string \<Rightarrow> ui \<Rightarrow> ui_reply" where
  "ui_handleGetDrop now did s =
     (case ui_lookup did s of
        None \<Rightarrow> ui_error 404 ''not found''
      | Some r \<Rightarrow> UJson 200 (JsObj [(''drop'', info_json (ui_classified now r))]))"

text \<open>Deleting and declining differ in what is published.\<close>

definition ui_remove :: "string \<Rightarrow> drop_rec \<Rightarrow> ui \<Rightarrow> ui" where
  "ui_remove did r s =
     s\<lparr>ui_data := (if dp_dataPath r \<noteq> [] then (ui_data s)(dp_dataPath r := None) else ui_data s),
       ui_drops := ddel did (ui_drops s)\<rparr>"

definition ui_handleDeleteDrop :: "time \<Rightarrow> string \<Rightarrow> ui \<Rightarrow> ui_reply \<times> ui" where
  "ui_handleDeleteDrop now did s =
     (case dget (ui_drops s) did of
        None \<Rightarrow> (ui_error 404 ''not found'', s)
      | Some r \<Rightarrow> (UJson 200 (JsObj [(''ok'', JsBool True)]),
          ui_publish (bus_Status now ''revoked'' did ''drop revoked'') (ui_remove did r s)))"

definition ui_handleDecline :: "time \<Rightarrow> string \<Rightarrow> ui \<Rightarrow> ui_reply \<times> ui" where
  "ui_handleDecline now did s =
     (case dget (ui_drops s) did of
        None \<Rightarrow> (ui_error 404 ''not found'', s)
      | Some r \<Rightarrow> (UJson 200 (JsObj [(''ok'', JsBool True)]),
          ui_publish (bus_Status now ''declined'' did ''drop declined'') (ui_remove did r s)))"

definition ui_handleAccept :: "time \<Rightarrow> string \<Rightarrow> ui \<Rightarrow> ui_reply \<times> ui" where
  "ui_handleAccept now did s =
     (case dget (ui_drops s) did of
        None \<Rightarrow> (ui_error 404 ''not found'', s)
      | Some r \<Rightarrow>
          (UJson 200 (JsObj [(''ok'', JsBool True)]),
           ui_publish (bus_Status now ''accepted'' did ''drop accepted'')
             (s\<lparr>ui_drops := dput did (r\<lparr>dp_info := (dp_info r)\<lparr>di_Verified := True\<rparr>\<rparr>) (ui_drops s)\<rparr>)))"

definition ui_handleClipboard :: "string \<Rightarrow> string \<Rightarrow> ui \<Rightarrow> ui_reply" where
  "ui_handleClipboard did kind s =
     (case dget (ui_drops s) did of
        None \<Rightarrow> ui_error 404 ''not found''
      | Some r \<Rightarrow> UJson 200 (JsObj [(''note'', JsStr ui_ClipboardNote),
          (''value'', JsStr (if kind = ''link'' then ui_GhostdropURL did else dp_token r))]))"

definition ui_handleQR :: "(string \<Rightarrow> bytes option) \<Rightarrow> string \<Rightarrow> ui \<Rightarrow> ui_reply" where
  "ui_handleQR qr did s =
     (case ui_lookup did s of
        None \<Rightarrow> ui_error 404 ''not found''
      | Some _ \<Rightarrow> (case qr (ui_GhostdropURL did) of None \<Rightarrow> ui_error 500 ''qr failed'' | Some png \<Rightarrow> UPage ''image/png'' png))"

subsection \<open>Contents\<close>

text \<open>One underscore for every rune that is not a letter, a digit, a dash or an underscore.\<close>

function ui_sanitize :: "string \<Rightarrow> string" where
  "ui_sanitize [] = []"
| "ui_sanitize (c # cs) =
     (if is_ascii c then (if is_lower c \<or> is_upper c \<or> is_digit c \<or> c = CHR ''-'' then c else CHR ''_'') # ui_sanitize cs
      else CHR ''_'' # ui_sanitize (case utf8_width (c # cs) of None \<Rightarrow> cs | Some w \<Rightarrow> drop (w - 1) cs))"
  by pat_completeness auto
termination by (relation "measure length") (auto split: option.splits)

definition ui_sanitizeID :: "string \<Rightarrow> string" where
  "ui_sanitizeID did = (let b = ui_sanitize did in if b = [] then ''drop'' else b)"

definition ui_blobPath :: "string \<Rightarrow> ui \<Rightarrow> string" where
  "ui_blobPath did s = filepath_Join (ui_filesDir s) (''drop-'' @ ui_sanitizeID did @ ''.bin'')"

text \<open>An upload: what the multipart reader makes of the body (or the name of the query), the pieces that reading
  yields, whether reading fails after them, and the announced length.\<close>

datatype upload_part = BadMultipart | NoPart | Part string | Raw string

record upload =
  up_part :: upload_part
  up_chunks :: "bytes list"
  up_fails :: bool
  up_length :: int

text \<open>The two critical sections: finding the record, and storing the result in it. The record that was
  found is still used when it has been removed from the map meanwhile.\<close>

fun ui_copy :: "time \<Rightarrow> string \<Rightarrow> string \<Rightarrow> int \<Rightarrow> int \<Rightarrow> bytes list \<Rightarrow> ui \<Rightarrow> int \<times> ui" where
  "ui_copy now did dst tot done [] s = (done, s)"
| "ui_copy now did dst tot done (c # cs) s =
     (if c = [] then ui_copy now did dst tot done cs s
      else let done' = done + int (length c);
               s1 = s\<lparr>ui_data := (ui_data s)(dst \<mapsto> (case ui_data s dst of None \<Rightarrow> [] | Some b \<Rightarrow> b) @ c)\<rparr>
           in ui_copy now did dst tot done' cs (ui_publish (bus_Progress now did done' tot) s1))"

definition ui_upload_begin :: "time \<Rightarrow> string \<Rightarrow> upload \<Rightarrow> ui \<Rightarrow> (ui_reply + string \<times> string \<times> int) \<times> ui" where
  "ui_upload_begin now did u s =
     (case dget (ui_drops s) did of
        None \<Rightarrow> (Inl (ui_error 404 ''not found''), s)
      | Some _ \<Rightarrow>
          (let dst = ui_blobPath did s; s1 = s\<lparr>ui_data := (ui_data s)(dst \<mapsto> [])\<rparr>;
               run = (\<lambda>filename. case ui_copy now did dst (up_length u) 0 (up_chunks u) s1 of (n, s2) \<Rightarrow>
                  (if up_fails u
                   then (Inl (ui_error 500 ''upload interrupted''),
                     s2\<lparr>ui_notifier := notify_Failed did ''upload interrupted'' (ui_notifier s2)\<rparr>)
                   else (Inr (dst, filename, n), s2)))
           in case up_part u of
                BadMultipart \<Rightarrow> (Inl (ui_error 400 ''bad multipart''), s1)
              | NoPart \<Rightarrow> (Inl (ui_error 400 ''missing file part''), s1)
              | Part filename \<Rightarrow> run filename
              | Raw q \<Rightarrow> run (filepath_Base q)))"

definition ui_uploaded :: "string \<Rightarrow> string \<Rightarrow> int \<Rightarrow> drop_rec \<Rightarrow> drop_rec" where
  "ui_uploaded dst filename n r =
     r\<lparr>dp_dataPath := dst, dp_filename := filename,
       dp_info := (dp_info r)\<lparr>di_Uploaded := n, di_Size := (if di_Size (dp_info r) \<le> 0 then n else di_Size (dp_info r))\<rparr>\<rparr>"

definition ui_upload_finish :: "time \<Rightarrow> string \<Rightarrow> string \<times> string \<times> int \<Rightarrow> ui \<Rightarrow> ui_reply \<times> ui" where
  "ui_upload_finish now did res s =
     (case res of (dst, filename, n) \<Rightarrow>
        (let s1 = (case dget (ui_drops s) did of
                     None \<Rightarrow> s
                   | Some r \<Rightarrow> s\<lparr>ui_drops := dput did (ui_uploaded dst filename n r) (ui_drops s)\<rparr>);
             s2 = ui_publish (bus_Status now ''complete'' did ''upload complete'') s1
         in (UJson 200 (JsObj [(''ok'', JsBool True), (''size'', JsInt n), (''uploaded_bytes'', JsInt n)]),
             s2\<lparr>ui_notifier := notify_Complete did (ui_notifier s2)\<rparr>)))"

definition ui_handleUpload :: "time \<Rightarrow> string \<Rightarrow> upload \<Rightarrow> ui \<Rightarrow> ui_reply \<times> ui" where
  "ui_handleUpload now did u s =
     (case ui_upload_begin now did u s of
        (Inl reply, s1) \<Rightarrow> (reply, s1)
      | (Inr res, s1) \<Rightarrow> ui_upload_finish now did res s1)"

definition ui_handleDownload :: "time \<Rightarrow> string \<Rightarrow> string \<Rightarrow> bool \<Rightarrow> ui \<Rightarrow> ui_reply \<times> ui" where
  "ui_handleDownload now did rangeReq is_head s =
     (case dget (ui_drops s) did of
        None \<Rightarrow> (ui_error 404 ''no data'', s)
      | Some r \<Rightarrow>
          (if dp_dataPath r = [] then (ui_error 404 ''no data'', s)
           else case ui_data s (dp_dataPath r) of
             None \<Rightarrow> (ui_error 404 ''no data'', s)
           | Some b \<Rightarrow> (UContent (serveContent rangeReq is_head b),
               ui_publish (bus_Progress now did (int (length b)) (int (length b))) s)))"

subsection \<open>Contacts\<close>

definition contact_json :: "ui_contact \<Rightarrow> json" where
  "contact_json c = JsObj [(''name'', JsStr (ct_Name c)), (''address'', JsStr (ct_Address c))]"

definition ui_handleListContacts :: "ui \<Rightarrow> ui_reply" where
  "ui_handleListContacts s = UJson 200 (JsObj [(''contacts'', JsArr (map (\<lambda>(_, c). contact_json c) (ui_contacts s)))])"

definition ui_handleAddContact :: "ui_contact option \<Rightarrow> ui \<Rightarrow> ui_reply \<times> ui" where
  "ui_handleAddContact body s =
     (case body of
        None \<Rightarrow> (ui_error 400 ''name required'', s)
      | Some c \<Rightarrow>
          (if ct_Name c = [] then (ui_error 400 ''name required'', s)
           else (UJson 201 (JsObj [(''contact'', contact_json c), (''ok'', JsBool True)]),
             s\<lparr>ui_contacts := dput (ct_Name c) c (ui_contacts s)\<rparr>)))"

definition ui_handleDeleteContact :: "string \<Rightarrow> ui \<Rightarrow> ui_reply \<times> ui" where
  "ui_handleDeleteContact name s =
     (case dget (ui_contacts s) name of
        None \<Rightarrow> (ui_error 404 ''not found'', s)
      | Some _ \<Rightarrow> (UJson 200 (JsObj [(''ok'', JsBool True)]), s\<lparr>ui_contacts := ddel name (ui_contacts s)\<rparr>))"

subsection \<open>Doctor and statistics\<close>

definition ui_handleDoctor :: "string \<Rightarrow> string \<Rightarrow> string \<Rightarrow> ui \<Rightarrow> ui_reply \<times> ui" where
  "ui_handleDoctor os arch gover s =
     (UJson 200 (JsObj [(''arch'', JsStr arch), (''demo'', JsBool (ui_demo s)), (''go_version'', JsStr gover),
        (''issues'', JsArr []), (''os'', JsStr os), (''relay_owned'', JsBool False), (''version'', JsStr ''1.0.0''),
        (''writable'', JsBool True)]),
      s\<lparr>ui_data := (ui_data s)(filepath_Join (ui_filesDir s) ''.writetest'' := None)\<rparr>)"

definition ui_handleStats :: "ui \<Rightarrow> ui_reply" where
  "ui_handleStats s =
     UJson 200 (JsObj [(''demo'', JsBool (ui_demo s)), (''drops'', JsInt (int (length (ui_drops s)))),
       (''uploaded_bytes'', JsInt (wrap64 (dsum (\<lambda>_ r. di_Uploaded (dp_info r)) (ui_drops s))))])"

section \<open>Routes\<close>

datatype ui_request =
    QIndex string | QLogo | QStatic string | QHealth | QGetSettings | QGhost "bool option"
  | QListDrops | QCreateDrop bytes bytes ui_create_body | QGetDrop string | QDeleteDrop string
  | QUpload string upload | QDownload string string bool | QQR string | QClipboard string string
  | QAccept string | QDecline string | QListContacts | QAddContact "ui_contact option" | QDeleteContact string
  | QDoctor string string string | QStats

fun ui_route :: "(string \<Rightarrow> bytes option) \<Rightarrow> time \<Rightarrow> ui_request \<Rightarrow> ui \<Rightarrow> ui_reply \<times> ui" where
  "ui_route qr now (QIndex path) s = (ui_handleIndex path s, s)"
| "ui_route qr now QLogo s = (ui_handleLogo s, s)"
| "ui_route qr now (QStatic path) s = (ui_handleStatic path s, s)"
| "ui_route qr now QHealth s = (ui_handleHealth s, s)"
| "ui_route qr now QGetSettings s = (ui_handleGetSettings s, s)"
| "ui_route qr now (QGhost b) s = ui_handleGhost b s"
| "ui_route qr now QListDrops s = ui_handleListDrops now s"
| "ui_route qr now (QCreateDrop rawID rawTok body) s = ui_handleCreateDrop now rawID rawTok body s"
| "ui_route qr now (QGetDrop did) s = (ui_handleGetDrop now did s, s)"
| "ui_route qr now (QDeleteDrop did) s = ui_handleDeleteDrop now did s"
| "ui_route qr now (QUpload did u) s = ui_handleUpload now did u s"
| "ui_route qr now (QDownload did rg hd') s = ui_handleDownload now did rg hd' s"
| "ui_route qr now (QQR did) s = (ui_handleQR qr did s, s)"
| "ui_route qr now (QClipboard did kind) s = (ui_handleClipboard did kind s, s)"
| "ui_route qr now (QAccept did) s = ui_handleAccept now did s"
| "ui_route qr now (QDecline did) s = ui_handleDecline now did s"
| "ui_route qr now QListContacts s = (ui_handleListContacts s, s)"
| "ui_route qr now (QAddContact c) s = ui_handleAddContact c s"
| "ui_route qr now (QDeleteContact name) s = ui_handleDeleteContact name s"
| "ui_route qr now (QDoctor os arch gover) s = ui_handleDoctor os arch gover s"
| "ui_route qr now QStats s = (ui_handleStats s, s)"

end
