(* ===== verification/UiProps.thy ===== *)
theory UiProps
  imports UiServer Archive
begin

text \<open>
  The desktop server: a well-formedness invariant kept by every request; the tokens of drops are in no reply but those that
  are meant to show them; what is uploaded is downloaded; static files stay below the web root; and
  what an upload that overlaps a deletion leaves behind.
\<close>

section \<open>Well-formedness\<close>

definition rec_ok :: "ui \<Rightarrow> string \<Rightarrow> drop_rec \<Rightarrow> bool" where
  "rec_ok s did r \<longleftrightarrow> di_ID (dp_info r) = did \<and> \<not> dp_declined r \<and>
     di_Status (dp_info r) \<in> {''incoming'', ''outgoing'', ''expired'', ''verified''} \<and>
     (dp_dataPath r = [] \<or> dp_dataPath r = ui_blobPath did s)"

definition ui_ok :: "ui \<Rightarrow> bool" where
  "ui_ok s \<longleftrightarrow> dir_ok (ui_drops s) \<and> dir_ok (ui_contacts s) \<and> bus_ok (ui_bus s) \<and>
     (\<forall>did r. dget (ui_drops s) did = Some r \<longrightarrow> rec_ok s did r) \<and>
     (\<forall>name c. dget (ui_contacts s) name = Some c \<longrightarrow> ct_Name c = name \<and> name \<noteq> [])"

lemma publish_fields [simp]:
  "ui_drops (ui_publish f s) = ui_drops s" "ui_contacts (ui_publish f s) = ui_contacts s"
  "ui_filesDir (ui_publish f s) = ui_filesDir s" "ui_data (ui_publish f s) = ui_data s"
  "ui_web (ui_publish f s) = ui_web s" "ui_webRoot (ui_publish f s) = ui_webRoot s"
  by (simp_all add: ui_publish_def split: option.splits)

lemma blobPath_cong: "ui_filesDir s = ui_filesDir s' \<Longrightarrow> ui_blobPath did s = ui_blobPath did s'"
  by (simp add: ui_blobPath_def)

lemma rec_ok_cong: "ui_filesDir s = ui_filesDir s' \<Longrightarrow> rec_ok s did r = rec_ok s' did r"
  using blobPath_cong [of s s' did] by (simp add: rec_ok_def)

lemma ui_ok_parts:
  assumes "ui_ok s" "ui_filesDir s' = ui_filesDir s" "bus_ok (ui_bus s')"
    and "dir_ok (ui_drops s')" "\<And>did r. dget (ui_drops s') did = Some r \<Longrightarrow> rec_ok s did r"
    and "ui_contacts s' = ui_contacts s"
  shows "ui_ok s'"
  using assms rec_ok_cong [OF assms(2)] by (simp add: ui_ok_def)

lemma Publish_some:
  assumes "bus_ok b"
  obtains b' where "bus_Publish now e b = Some b'" "bus_ok b'"
  using Publish_ok [OF assms] by blast

lemma publish_bus_ok [intro]:
  assumes "bus_ok (ui_bus s)"
  shows "bus_ok (ui_bus (ui_publish (bus_Status now kind did msg) s))" "bus_ok (ui_bus (ui_publish (bus_Progress now did n m) s))"
proof -
  have "bus_ok (ui_bus (ui_publish (bus_Publish now e) s))" for e
    by (rule Publish_some [OF assms, of now e]) (simp add: ui_publish_def)
  then show "bus_ok (ui_bus (ui_publish (bus_Status now kind did msg) s))" "bus_ok (ui_bus (ui_publish (bus_Progress now did n m) s))"
    unfolding bus_Status_def bus_Progress_def by this+
qed

text \<open>Copying appends what is read and touches nothing else of the state but the bus.\<close>

definition only_data :: "string \<Rightarrow> ui \<Rightarrow> ui \<Rightarrow> bool" where
  "only_data dst s s' \<longleftrightarrow> ui_drops s' = ui_drops s \<and> ui_contacts s' = ui_contacts s \<and> ui_filesDir s' = ui_filesDir s \<and>
     (bus_ok (ui_bus s) \<longrightarrow> bus_ok (ui_bus s')) \<and> (\<forall>p. p \<noteq> dst \<longrightarrow> ui_data s' p = ui_data s p)"

lemma ui_copy_data:
  assumes "ui_copy now did dst tot k cs s = (n, s')" "ui_data s dst = Some b"
  shows "only_data dst s s' \<and> n = k + int (length (concat cs)) \<and> ui_data s' dst = Some (b @ concat cs)"
  using assms
proof (induction cs arbitrary: k s b)
  case (Cons c cs)
  show ?case
  proof (cases "c = []")
    case True
    with Cons show ?thesis by simp
  next
    case False
    define s1 where "s1 = ui_publish (bus_Progress now did (k + int (length c)) tot) (s\<lparr>ui_data := (ui_data s)(dst \<mapsto> b @ c)\<rparr>)"
    have run: "ui_copy now did dst tot (k + int (length c)) cs s1 = (n, s')"
      using Cons.prems False by (simp add: s1_def Let_def)
    have "ui_data s1 dst = Some (b @ c)" "only_data dst s s1"
      by (auto simp: s1_def only_data_def)
    with Cons.IH [OF run] show ?thesis by (auto simp: only_data_def)
  qed
qed (auto simp: only_data_def)

lemma upload_begin_data:
  assumes "ui_upload_begin now did u s = (res, s1)"
  shows "only_data (ui_blobPath did s) s s1 \<and>
    (case res of Inl _ \<Rightarrow> True
     | Inr (dst, filename, n) \<Rightarrow> dst = ui_blobPath did s \<and> n = int (length (concat (up_chunks u))) \<and>
         ui_data s1 dst = Some (concat (up_chunks u)) \<and> \<not> up_fails u \<and> dget (ui_drops s) did \<noteq> None)"
proof (cases "dget (ui_drops s) did")
  case None
  then show ?thesis using assms by (auto simp: ui_upload_begin_def only_data_def)
next
  case (Some r)
  define s0 where "s0 = s\<lparr>ui_data := (ui_data s)(ui_blobPath did s \<mapsto> [])\<rparr>"
  obtain n s2 where c: "ui_copy now did (ui_blobPath did s) (up_length u) 0 (up_chunks u) s0 = (n, s2)" by fastforce
  have "ui_data s0 (ui_blobPath did s) = Some []" by (simp add: s0_def)
  from ui_copy_data [OF c this] have s2: "only_data (ui_blobPath did s) s0 s2" "n = int (length (concat (up_chunks u)))"
    "ui_data s2 (ui_blobPath did s) = Some (concat (up_chunks u))" by auto
  have s0: "only_data (ui_blobPath did s) s s0" by (auto simp: only_data_def s0_def)
  show ?thesis
    using assms s0 s2 Some by (auto simp: ui_upload_begin_def Let_def c s0_def [symmetric] only_data_def split: upload_part.splits if_splits)
qed

lemma ui_ok_only_data: "ui_ok s \<Longrightarrow> only_data dst s s' \<Longrightarrow> ui_ok s'"
  by (rule ui_ok_parts [of s]) (auto simp: only_data_def ui_ok_def)

lemma ui_ok_put:
  assumes "ui_ok s" "rec_ok s did r"
  shows "ui_ok (s\<lparr>ui_drops := dput did r (ui_drops s)\<rparr>)"
  by (rule ui_ok_parts [OF assms(1)]) (use assms in \<open>auto simp: ui_ok_def split: if_splits\<close>)

lemma ui_ok_remove: "ui_ok s \<Longrightarrow> ui_ok (ui_remove did r s)"
  by (rule ui_ok_parts [of s]) (auto simp: ui_ok_def ui_remove_def split: if_splits)

lemma ui_ok_publish:
  assumes "ui_ok s"
  shows "ui_ok (ui_publish (bus_Status now kind did msg) s)" "ui_ok (ui_publish (bus_Progress now did n m) s)"
  by (rule ui_ok_parts [OF assms]; use assms in \<open>auto simp: ui_ok_def simp del: map_of_eq_Some_iff\<close>)+

lemma ui_ok_notifier [simp]: "ui_ok (s\<lparr>ui_notifier := x\<rparr>) = ui_ok s"
  using rec_ok_cong [of "s\<lparr>ui_notifier := x\<rparr>" s] by (simp add: ui_ok_def)

lemma ui_ok_rec: "ui_ok s \<Longrightarrow> dget (ui_drops s) did = Some r \<Longrightarrow> rec_ok s did r"
  by (simp add: ui_ok_def)

lemma classified_ok: "rec_ok s did r \<Longrightarrow> rec_ok s did (r\<lparr>dp_info := ui_classified now r\<rparr>)"
  by (simp add: rec_ok_def ui_classified_def ui_ClassifyDrop_def)

lemma upload_finish_ok:
  assumes "ui_ok s" "dst = ui_blobPath did s" "ui_upload_finish now did (dst, fn, n) s = (reply, s')"
  shows "ui_ok s'"
proof (cases "dget (ui_drops s) did")
  case None
  then show ?thesis using assms by (auto simp: ui_upload_finish_def Let_def ui_ok_publish)
next
  case (Some r)
  define r' where "r' = ui_uploaded dst fn n r"
  have "rec_ok s did r'" using ui_ok_rec [OF assms(1) Some] assms(2) by (simp add: rec_ok_def r'_def ui_uploaded_def)
  from ui_ok_publish(1) [OF ui_ok_put [OF assms(1) this]] show ?thesis
    using assms(3) Some by (auto simp: ui_upload_finish_def Let_def r'_def)
qed

lemma list_drops_ok:
  assumes "ui_ok s" shows "ui_ok (snd (ui_handleListDrops now s))"
proof -
  let ?f = "\<lambda>k r. if dp_declined r then r else r\<lparr>dp_info := ui_classified now r\<rparr>"
  have m: "map (\<lambda>(k, r). (k, ?f k r)) (ui_drops s) = AList.map_ran ?f (ui_drops s)" by (simp add: map_ran_def)
  show ?thesis
    by (rule ui_ok_parts [OF assms]) (use assms classified_ok in \<open>auto simp: ui_handleListDrops_def Let_def m distinct_map_ran map_ran_conv ui_ok_def split: if_splits\<close>)
qed

text \<open>
  C23 The state of the desktop server is well formed after every request, whatever was asked before: no two drops or contacts share a key,
  a drop is filed under its own identifier, has one of the four statuses, and its data path is empty or the one path
  made from its identifier; a contact is filed under its non-empty name; and the bus is in order.
\<close>

theorem ui_well_formed:
  assumes "ui_ok s" shows "ui_ok (snd (ui_route qr now q s))"
proof (cases q)
  case (QCreateDrop rawID rawTok body)
  show ?thesis
  proof (cases "ui_create_expiry now body")
    case (Some expiry)
    let ?did = "ui_newDropID rawID" and ?r = "ui_new_rec now (ui_newDropID rawID) (ui_newToken rawTok) expiry body"
    have "rec_ok s ?did ?r" by (simp add: rec_ok_def ui_new_rec_def Let_def)
    from ui_ok_publish(1) [OF ui_ok_put [OF assms this]] show ?thesis
      by (simp add: QCreateDrop ui_handleCreateDrop_def Some Let_def)
  qed (use assms in \<open>simp add: QCreateDrop ui_handleCreateDrop_def\<close>)
next
  case (QAccept did)
  show ?thesis
  proof (cases "dget (ui_drops s) did")
    case (Some r)
    have "rec_ok s did (r\<lparr>dp_info := (dp_info r)\<lparr>di_Verified := True\<rparr>\<rparr>)" using ui_ok_rec [OF assms Some] by (simp add: rec_ok_def)
    from ui_ok_publish(1) [OF ui_ok_put [OF assms this]] show ?thesis by (simp add: QAccept ui_handleAccept_def Some)
  qed (use assms in \<open>simp add: QAccept ui_handleAccept_def\<close>)
next
  case (QUpload did u)
  obtain res s1 where b: "ui_upload_begin now did u s = (res, s1)" by fastforce
  have ok1: "ui_ok s1" and r: "case res of Inl _ \<Rightarrow> True | Inr (dst, _) \<Rightarrow> dst = ui_blobPath did s1"
    using upload_begin_data [OF b] ui_ok_only_data [OF assms] blobPath_cong [of s1 s did] by (auto simp: only_data_def split: sum.splits)
  show ?thesis
  proof (cases res)
    case (Inr x)
    obtain dst fn n where x: "x = (dst, fn, n)" by (cases x)
    obtain reply s2 where f: "ui_upload_finish now did x s1 = (reply, s2)" by fastforce
    from upload_finish_ok [OF ok1 _ this [unfolded x]] r show ?thesis by (simp add: QUpload ui_handleUpload_def b Inr f) (simp add: Inr x)
  qed (use ok1 in \<open>simp add: QUpload ui_handleUpload_def b\<close>)
next
  case (QAddContact c)
  then show ?thesis
    using assms by (cases c) (auto simp: ui_handleAddContact_def ui_ok_def rec_ok_def ui_blobPath_def simp del: map_of_eq_Some_iff)
next
  case (QDeleteContact n)
  then show ?thesis
    using assms by (auto simp: ui_handleDeleteContact_def ui_ok_def rec_ok_def ui_blobPath_def simp del: map_of_eq_Some_iff split: option.splits)
next
  case (QDoctor a b c)
  then show ?thesis using assms by (simp add: ui_handleDoctor_def ui_ok_def rec_ok_def ui_blobPath_def)
next
  case (QGhost b)
  then show ?thesis using assms by (simp add: ui_handleGhost_def ui_ok_def rec_ok_def ui_blobPath_def Let_def)
next
  case (QDeleteDrop did)
  then show ?thesis using assms by (simp add: ui_handleDeleteDrop_def ui_ok_publish ui_ok_remove split: option.splits)
next
  case (QDecline did)
  then show ?thesis using assms by (simp add: ui_handleDecline_def ui_ok_publish ui_ok_remove split: option.splits)
next
  case (QDownload did rg h)
  then show ?thesis using assms by (simp add: ui_handleDownload_def ui_ok_publish split: option.splits)
qed (use assms list_drops_ok in simp_all)

theorem ui_well_formed_witness:
  "ui_ok (snd (ui_route (\<lambda>_. None) 7 (QAccept ''GD-X'') (ui_NewServer False [] ''/data'' Map.empty Map.empty)))"
proof -
  have "ui_ok (ui_NewServer False [] ''/data'' Map.empty Map.empty)" by (simp add: ui_ok_def ui_NewServer_def bus_New_ok)
  then show ?thesis by (rule ui_well_formed)
qed

section \<open>Tokens stay secret\<close>

text \<open>The same server with other tokens, and without any.\<close>

definition retok :: "(string \<Rightarrow> string) \<Rightarrow> ui \<Rightarrow> ui" where
  "retok f s = s\<lparr>ui_drops := AList.map_ran (\<lambda>k r. r\<lparr>dp_token := f k\<rparr>) (ui_drops s)\<rparr>"

abbreviation blind :: "ui \<Rightarrow> ui" where
  "blind \<equiv> retok (\<lambda>_. [])"

fun ui_run :: "(string \<Rightarrow> bytes option) \<Rightarrow> (time \<times> ui_request) list \<Rightarrow> ui \<Rightarrow> ui_reply list \<times> ui" where
  "ui_run qr [] s = ([], s)"
| "ui_run qr ((now, q) # qs) s =
     (case ui_route qr now q s of (rep, s1) \<Rightarrow> (case ui_run qr qs s1 of (reps, s2) \<Rightarrow> (rep # reps, s2)))"

definition shows_token :: "ui_request \<Rightarrow> bool" where
  "shows_token q \<longleftrightarrow> (\<exists>did kind. q = QClipboard did kind \<and> kind \<noteq> ''link'')"

lemma map_ran_update: "AList.map_ran f (dput k v d) = dput k (f k v) (AList.map_ran f d)"
  by (induction d) auto

lemma map_ran_delete: "AList.map_ran f (ddel k d) = ddel k (AList.map_ran f d)"
  by (induction d) (auto simp: AList.delete_eq)

lemma retok_sel [simp]:
  "ui_bus (retok f s) = ui_bus s" "ui_notifier (retok f s) = ui_notifier s" "ui_demo (retok f s) = ui_demo s"
  "ui_ghost (retok f s) = ui_ghost s" "ui_contacts (retok f s) = ui_contacts s" "ui_filesDir (retok f s) = ui_filesDir s"
  "ui_webRoot (retok f s) = ui_webRoot s" "ui_data (retok f s) = ui_data s" "ui_web (retok f s) = ui_web s"
  "dget (ui_drops (retok f s)) did = map_option (\<lambda>r. r\<lparr>dp_token := f did\<rparr>) (dget (ui_drops s) did)"
  "length (ui_drops (retok f s)) = length (ui_drops s)"
  by (simp_all add: retok_def map_ran_conv)

lemma retok_upd:
  "retok f s\<lparr>ui_bus := b\<rparr> = retok f (s\<lparr>ui_bus := b\<rparr>)" "retok f s\<lparr>ui_notifier := n\<rparr> = retok f (s\<lparr>ui_notifier := n\<rparr>)"
  "retok f s\<lparr>ui_ghost := g\<rparr> = retok f (s\<lparr>ui_ghost := g\<rparr>)" "retok f s\<lparr>ui_contacts := c\<rparr> = retok f (s\<lparr>ui_contacts := c\<rparr>)"
  "retok f s\<lparr>ui_data := d\<rparr> = retok f (s\<lparr>ui_data := d\<rparr>)"
  by (simp_all add: retok_def)

lemma retok_publish: "ui_publish g (retok f s) = retok f (ui_publish g s)"
  by (simp add: ui_publish_def retok_upd split: option.splits)

lemma retok_remove: "ui_remove did (r\<lparr>dp_token := t\<rparr>) (retok f s) = retok f (ui_remove did r s)"
  by (simp add: ui_remove_def retok_def map_ran_delete)

lemma retok_put: "retok f s\<lparr>ui_drops := dput did (r\<lparr>dp_token := f did\<rparr>) (ui_drops (retok f s))\<rparr> =
    retok f (s\<lparr>ui_drops := dput did r (ui_drops s)\<rparr>)"
  by (simp add: retok_def map_ran_update)

lemma retok_copy: "ui_copy now did dst tot k cs (retok f s) = (case ui_copy now did dst tot k cs s of (n, s') \<Rightarrow> (n, retok f s'))"
  by (induction cs arbitrary: k s) (auto simp: Let_def retok_upd retok_publish)

lemma retok_retok [simp]: "retok f (retok g s) = retok f s"
  by (simp add: retok_def map_ran_def comp_def case_prod_beta)

lemma token_info: "r\<lparr>dp_token := t, dp_info := x\<rparr> = r\<lparr>dp_info := x, dp_token := t\<rparr>"
  by simp

lemma retok_begin:
  "ui_upload_begin now did u (retok f s) = (case ui_upload_begin now did u s of (res, s') \<Rightarrow> (res, retok f s'))"
  by (simp add: ui_upload_begin_def ui_blobPath_def retok_upd retok_copy Let_def split: option.splits prod.splits upload_part.splits)

lemma retok_finish:
  "ui_upload_finish now did res (retok f s) = (case ui_upload_finish now did res s of (rep, s') \<Rightarrow> (rep, retok f s'))"
proof (cases res)
  case (fields dst fn n)
  show ?thesis
  proof (cases "dget (ui_drops s) did")
    case (Some r)
    have "ui_uploaded dst fn n (r\<lparr>dp_token := t\<rparr>) = (ui_uploaded dst fn n r)\<lparr>dp_token := t\<rparr>" for t
      by (simp add: ui_uploaded_def)
    then show ?thesis
      by (simp add: ui_upload_finish_def fields Some Let_def retok_put retok_publish retok_upd del: map_of_eq_Some_iff)
  qed (simp add: ui_upload_finish_def fields Let_def retok_publish retok_upd)
qed

lemma retok_list:
  "ui_handleListDrops now (retok f s) = (case ui_handleListDrops now s of (rep, s') \<Rightarrow> (rep, retok f s'))"
proof -
  have c: "ui_classified now (r\<lparr>dp_token := t\<rparr>) = ui_classified now r" for r t by (simp add: ui_classified_def)
  have "map (\<lambda>(_, r). info_json (ui_classified now r)) (filter (\<lambda>(_, r). \<not> dp_declined r) (AList.map_ran (\<lambda>k r. r\<lparr>dp_token := f k\<rparr>) d)) =
      map (\<lambda>(_, r). info_json (ui_classified now r)) (filter (\<lambda>(_, r). \<not> dp_declined r) d)" for d :: "drop_rec dir"
    by (induction d) (auto simp: c)
  moreover have "map (\<lambda>(k, r). (k, if dp_declined r then r else r\<lparr>dp_info := ui_classified now r\<rparr>)) (AList.map_ran (\<lambda>k r. r\<lparr>dp_token := f k\<rparr>) d) =
      AList.map_ran (\<lambda>k r. r\<lparr>dp_token := f k\<rparr>) (map (\<lambda>(k, r). (k, if dp_declined r then r else r\<lparr>dp_info := ui_classified now r\<rparr>)) d)" for d :: "drop_rec dir"
    by (induction d) (auto simp: c)
  ultimately show ?thesis by (simp add: ui_handleListDrops_def Let_def) (simp add: retok_def)
qed

lemma retok_stats: "ui_handleStats (retok f s) = ui_handleStats s"
proof -
  have "dsum (\<lambda>_ r. di_Uploaded (dp_info r)) (AList.map_ran (\<lambda>k r. r\<lparr>dp_token := f k\<rparr>) d) = dsum (\<lambda>_ r. di_Uploaded (dp_info r)) d" for d :: "drop_rec dir"
    by (induction d) (auto simp: dsum_def)
  then show ?thesis by (simp add: ui_handleStats_def) (simp add: retok_def)
qed

lemma classified_token: "ui_classified now (r\<lparr>dp_token := t\<rparr>) = ui_classified now r"
  by (simp add: ui_classified_def)

lemmas ui_reads = ui_handleIndex_def ui_indexBytes_def ui_handleStatic_def ui_handleLogo_def ui_handleHealth_def ui_handleGetSettings_def
  ui_handleGetDrop_def ui_handleQR_def ui_handleClipboard_def ui_handleListContacts_def ui_lookup_def

lemmas ui_writes = ui_handleGhost_def ui_handleDeleteDrop_def ui_handleDecline_def ui_handleDownload_def ui_handleAddContact_def
  ui_handleDeleteContact_def ui_handleDoctor_def

lemma route_retok:
  assumes "\<not> shows_token q" "\<And>rawID rawTok body. q \<noteq> QCreateDrop rawID rawTok body"
  shows "ui_route qr now q (retok f s) = (case ui_route qr now q s of (rep, s') \<Rightarrow> (rep, retok f s'))"
proof (cases q)
  case (QAccept did)
  then show ?thesis
    by (cases "dget (ui_drops s) did") (simp_all add: ui_handleAccept_def retok_put retok_publish token_info del: map_of_eq_Some_iff)
next
  case (QUpload did u)
  then show ?thesis by (simp add: ui_handleUpload_def retok_begin retok_finish split: prod.splits sum.splits)
next
  case (QClipboard did kind)
  then show ?thesis using assms(1) by (simp add: shows_token_def ui_reads split: option.splits)
qed (use assms(2) in \<open>simp_all add: ui_reads ui_writes retok_list retok_stats retok_publish retok_remove retok_upd classified_token Let_def split: option.splits\<close>)

lemma publish_notifier [simp]: "ui_notifier (ui_publish g s) = ui_notifier s"
  by (simp add: ui_publish_def split: option.splits)

lemma create_blind:
  "fst (ui_handleCreateDrop now rawID rawTok body (blind s)) = fst (ui_handleCreateDrop now rawID rawTok body s) \<and>
   blind (snd (ui_handleCreateDrop now rawID rawTok body (blind s))) = blind (snd (ui_handleCreateDrop now rawID rawTok body s))"
proof (cases "ui_create_expiry now body")
  case (Some expiry)
  let ?did = "ui_newDropID rawID"
  let ?r = "ui_new_rec now ?did (ui_newToken rawTok) expiry body" and ?g = "bus_Status now ''created'' ?did ''drop created''"
  define X where "X = blind s\<lparr>ui_drops := dput ?did ?r (ui_drops (blind s))\<rparr>"
  define Y where "Y = s\<lparr>ui_drops := dput ?did ?r (ui_drops s)\<rparr>"
  have "blind X = blind Y"
    by (simp add: X_def Y_def retok_def map_ran_update) (simp add: map_ran_def comp_def split_def)
  then have p: "blind (ui_publish ?g X) = blind (ui_publish ?g Y)" by (simp flip: retok_publish)
  then have "blind (ui_publish ?g X\<lparr>ui_notifier := n\<rparr>) = blind (ui_publish ?g Y\<lparr>ui_notifier := n\<rparr>)" for n
    by (simp flip: retok_upd(2))
  moreover have "ui_notifier X = ui_notifier Y" by (simp add: X_def Y_def)
  ultimately show ?thesis
    using p by (simp add: ui_handleCreateDrop_def Some Let_def X_def [symmetric] Y_def [symmetric])
qed (simp add: ui_handleCreateDrop_def)

lemma route_blind:
  assumes "\<not> shows_token q"
  shows "fst (ui_route qr now q (blind s)) = fst (ui_route qr now q s)" "blind (snd (ui_route qr now q (blind s))) = blind (snd (ui_route qr now q s))"
proof -
  have "fst (ui_route qr now q (blind s)) = fst (ui_route qr now q s) \<and> blind (snd (ui_route qr now q (blind s))) = blind (snd (ui_route qr now q s))"
  proof (cases "\<exists>rawID rawTok body. q = QCreateDrop rawID rawTok body")
    case True
    then show ?thesis using create_blind by auto
  next
    case False
    then show ?thesis using route_retok [of q qr now "\<lambda>_. []" s] assms by (simp split: prod.splits)
  qed
  then show "fst (ui_route qr now q (blind s)) = fst (ui_route qr now q s)" "blind (snd (ui_route qr now q (blind s))) = blind (snd (ui_route qr now q s))"
    by blast+
qed

lemma run_blind:
  assumes "list_all (\<lambda>(_, q). \<not> shows_token q) qs" "blind s = blind s'"
  shows "fst (ui_run qr qs s) = fst (ui_run qr qs s')"
  using assms
proof (induction qs arbitrary: s s')
  case (Cons tq qs)
  obtain now q where tq: "tq = (now, q)" by (cases tq)
  have q: "\<not> shows_token q" using Cons.prems(1) by (simp add: tq)
  have "fst (ui_route qr now q s) = fst (ui_route qr now q s')" "blind (snd (ui_route qr now q s)) = blind (snd (ui_route qr now q s'))"
    using route_blind [OF q, of qr now s] route_blind [OF q, of qr now s'] Cons.prems(2) by simp_all
  with Cons.IH [of "snd (ui_route qr now q s)" "snd (ui_route qr now q s')"] Cons.prems(1) show ?case
    by (simp add: tq case_prod_beta)
qed simp

text \<open>
  C22 Tokens stay secret. Take two servers that differ only in the tokens of their drops and send both the same requests, in any
  number and order, none of which copies a token to the clipboard: all replies agree, so nothing in them depends
  on a token that was drawn before. (The reply to a creation shows the token it has just drawn.)
\<close>

theorem ui_tokens_secret:
  assumes "list_all (\<lambda>(_, q). \<not> shows_token q) qs"
  shows "fst (ui_run qr qs (retok f s)) = fst (ui_run qr qs s)"
  by (rule run_blind [OF assms]) simp

theorem ui_tokens_secret_witness:
  "fst (ui_run (\<lambda>_. None) [(1, QGetDrop ''GD-''), (2, QListDrops), (3, QClipboard ''GD-'' ''link'')]
     (retok (\<lambda>_. ''t2'') (snd (ui_route (\<lambda>_. None) 0 (QCreateDrop [] [7]
        \<lparr>cb_Recipient = [], cb_Mode = [], cb_ExpiryRFC = [], cb_Expiry = [], cb_HoursPositive = False, cb_HoursNs = 0,
         cb_SizeBytes = 0, cb_Incoming = False\<rparr>) (ui_NewServer False [] ''/data'' Map.empty Map.empty))))) =
   fst (ui_run (\<lambda>_. None) [(1, QGetDrop ''GD-''), (2, QListDrops), (3, QClipboard ''GD-'' ''link'')]
     (snd (ui_route (\<lambda>_. None) 0 (QCreateDrop [] [7]
        \<lparr>cb_Recipient = [], cb_Mode = [], cb_ExpiryRFC = [], cb_Expiry = [], cb_HoursPositive = False, cb_HoursNs = 0,
         cb_SizeBytes = 0, cb_Incoming = False\<rparr>) (ui_NewServer False [] ''/data'' Map.empty Map.empty))))"
  by (rule ui_tokens_secret) (simp add: shows_token_def)

section \<open>Uploads and downloads\<close>

lemma clean_parts_no_Nil: "[] \<notin> set st \<Longrightarrow> [] \<notin> set (clean_parts r st cs)"
proof (induction cs arbitrary: st)
  case (Cons c cs)
  have "[] \<notin> set (clean_step r st c)" using Cons.prems by (auto simp: clean_step_def dest: list.set_sel(2))
  then show ?case using Cons.IH by simp
qed simp

lemma Clean_not_Nil: "filepath_Clean p \<noteq> []"
proof -
  have "join_path ps \<noteq> []" if "ps \<noteq> []" "[] \<notin> set ps" for ps
    using that by (induction ps rule: join_path.induct) auto
  then show ?thesis
    using clean_parts_no_Nil [of "[]" "rooted p" "split_path p"] by (cases "rooted p") (simp_all add: filepath_Clean_def Let_def)
qed

lemma blobPath_not_Nil [simp]: "ui_blobPath did s \<noteq> []"
  by (simp add: ui_blobPath_def filepath_Join_def Clean_not_Nil)

text \<open>
  C29 What is uploaded is downloaded. After an upload that was not interrupted, in whatever pieces it arrived,
  a download of the drop serves the content, in full or the range that was asked for, at any time (the expiry of the drop is not looked at),
  until another request deletes or overwrites it; and deleting the drop removes the file.
\<close>

theorem ui_upload_download:
  assumes "dget (ui_drops s) did = Some r" "\<not> up_fails u" "up_part u = Part fn \<or> up_part u = Raw fn"
    and "ui_route qr now (QUpload did u) s = (reply, s')"
  shows "fst (ui_route qr t (QDownload did rg hd') s') = UContent (serveContent rg hd' (concat (up_chunks u))) \<and>
    ui_data (snd (ui_route qr t (QDeleteDrop did) s')) (ui_blobPath did s) = None \<and>
    (\<forall>p. p \<noteq> ui_blobPath did s \<longrightarrow> ui_data s' p = ui_data s p)"
proof -
  obtain res s1 where b: "ui_upload_begin now did u s = (res, s1)" by fastforce
  have d: "only_data (ui_blobPath did s) s s1" using upload_begin_data [OF b] by blast
  obtain fn' n where res: "res = Inr (ui_blobPath did s, fn', n)" "ui_data s1 (ui_blobPath did s) = Some (concat (up_chunks u))"
    using assms(1-3) b upload_begin_data [OF b] by (auto simp: ui_upload_begin_def Let_def split: prod.splits)
  have s': "dget (ui_drops s') did = Some (ui_uploaded (ui_blobPath did s) fn' n r)" "ui_data s' = ui_data s1"
    using assms(1,4) b d by (auto simp: ui_handleUpload_def res(1) ui_upload_finish_def only_data_def Let_def simp del: map_of_eq_Some_iff)
  show ?thesis
    using s' res(2) d by (simp add: ui_handleDownload_def ui_handleDeleteDrop_def ui_remove_def ui_uploaded_def only_data_def)
qed

definition ui_example :: ui where
  "ui_example = (ui_NewServer False ''/web'' ''/data'' Map.empty [''/web/static/app.js'' \<mapsto> [1], ''/etc/passwd'' \<mapsto> [2]])
     \<lparr>ui_drops := [(''GD-1'', \<lparr>dp_info = \<lparr>di_ID = ''GD-1'', di_Recipient = [], di_Mode = ''standard'', di_Expiry = 5, di_Size = 0,
        di_Uploaded = 0, di_Status = ''outgoing'', di_Verified = False, di_Signed = False, di_CreatedAt = 1\<rparr>,
        dp_token = ''t'', dp_dataPath = [], dp_filename = [], dp_incoming = False, dp_declined = False\<rparr>)]\<rparr>"

definition ui_example_upload :: upload where
  "ui_example_upload = \<lparr>up_part = Raw ''a.txt'', up_chunks = [[1, 2], [], [3]], up_fails = False, up_length = 3\<rparr>"

theorem ui_upload_download_witness:
  "fst (ui_route (\<lambda>_. None) 9 (QDownload ''GD-1'' [] False)
     (snd (ui_route (\<lambda>_. None) 7 (QUpload ''GD-1'' ui_example_upload) ui_example))) = UContent (serveContent [] False [1, 2, 3])"
proof -
  obtain reply s' where r: "ui_route (\<lambda>_. None) 7 (QUpload ''GD-1'' ui_example_upload) ui_example = (reply, s')" by fastforce
  have "dget (ui_drops ui_example) ''GD-1'' \<noteq> None" by (simp add: ui_example_def)
  then obtain x where "dget (ui_drops ui_example) ''GD-1'' = Some x" by blast
  moreover have "\<not> up_fails ui_example_upload" "up_part ui_example_upload = Part ''a.txt'' \<or> up_part ui_example_upload = Raw ''a.txt''"
    "concat (up_chunks ui_example_upload) = [1, 2, 3]" by (simp_all add: ui_example_upload_def)
  ultimately show ?thesis using ui_upload_download [OF _ _ _ r, of x "''a.txt''" 9 "[]" False] unfolding r by simp
qed

text \<open>
  An upload that overlaps a deletion leaves its file behind. When the drop, which had no data yet, is deleted after the upload has
  found it and before it finishes, the upload still answers 200; the whole content then stays on disk
  while no drop refers to it, so that no request can download or remove it.
\<close>

theorem ui_delete_race:
  assumes "ui_upload_begin now did u s = (Inr res, s1)" "dget (ui_drops s) did = Some r" "dp_dataPath r = []" "dir_ok (ui_drops s)"
    and "ui_route qr t (QDeleteDrop did) s1 = (rep1, s2)" "ui_upload_finish t' did res s2 = (rep2, s3)"
  shows "rep1 = UJson 200 (JsObj [(''ok'', JsBool True)]) \<and> (\<exists>j. rep2 = UJson 200 j) \<and> dget (ui_drops s3) did = None \<and>
    ui_data s3 (ui_blobPath did s) = Some (concat (up_chunks u)) \<and>
    ui_route qr t'' (QDownload did rg hd') s3 = (ui_error 404 ''no data'', s3) \<and>
    ui_route qr t'' (QDeleteDrop did) s3 = (ui_error 404 ''not found'', s3)"
proof -
  obtain fn n where d: "only_data (ui_blobPath did s) s s1" "res = (ui_blobPath did s, fn, n)"
    "ui_data s1 (ui_blobPath did s) = Some (concat (up_chunks u))"
    using upload_begin_data [OF assms(1)] by (cases res) auto
  have "dget (ui_drops s1) did = Some r" using assms(2) d(1) by (simp add: only_data_def)
  then have s2: "rep1 = UJson 200 (JsObj [(''ok'', JsBool True)])" "dget (ui_drops s2) did = None"
    "ui_data s2 (ui_blobPath did s) = Some (concat (up_chunks u))"
    using assms(3,5) d(3) by (auto simp: ui_handleDeleteDrop_def ui_remove_def simp del: map_of_eq_Some_iff)
  then have s3: "\<exists>j. rep2 = UJson 200 j" "dget (ui_drops s3) did = None" "ui_data s3 (ui_blobPath did s) = Some (concat (up_chunks u))"
    using assms(6) by (auto simp: ui_upload_finish_def d(2) Let_def)
  then show ?thesis using s2(1) by (simp add: ui_handleDownload_def ui_handleDeleteDrop_def)
qed

theorem ui_delete_race_witness:
  "\<exists>res s1 s2 s3. ui_upload_begin 7 ''GD-1'' ui_example_upload ui_example = (Inr res, s1) \<and>
     s2 = snd (ui_route (\<lambda>_. None) 8 (QDeleteDrop ''GD-1'') s1) \<and> s3 = snd (ui_upload_finish 9 ''GD-1'' res s2) \<and>
     dget (ui_drops s3) ''GD-1'' = None \<and> ui_data s3 (ui_blobPath ''GD-1'' ui_example) = Some [1, 2, 3]"
proof -
  have "\<exists>res s1. ui_upload_begin 7 ''GD-1'' ui_example_upload ui_example = (Inr res, s1)"
    by (simp add: ui_upload_begin_def ui_example_def ui_example_upload_def Let_def split: prod.splits)
  then obtain res s1 where b: "ui_upload_begin 7 ''GD-1'' ui_example_upload ui_example = (Inr res, s1)" by blast
  obtain rep1 s2 where d: "ui_route (\<lambda>_. None) 8 (QDeleteDrop ''GD-1'') s1 = (rep1, s2)" by fastforce
  obtain rep2 s3 where f: "ui_upload_finish 9 ''GD-1'' res s2 = (rep2, s3)" by fastforce
  have ex: "\<exists>x. dget (ui_drops ui_example) ''GD-1'' = Some x \<and> dp_dataPath x = []" "dir_ok (ui_drops ui_example)" by (simp_all add: ui_example_def)
  then obtain x where x: "dget (ui_drops ui_example) ''GD-1'' = Some x" "dp_dataPath x = []" by blast
  from ui_delete_race [OF b x ex(2) d f] have "dget (ui_drops s3) ''GD-1'' = None"
    "ui_data s3 (ui_blobPath ''GD-1'' ui_example) = Some [1, 2, 3]" by (simp_all add: ui_example_upload_def)
  then show ?thesis using b d f by (intro exI [of _ res] exI [of _ s1] exI [of _ s2] exI [of _ s3]) simp
qed

section \<open>Static files\<close>

lemma no_dots_parts:
  assumes "\<not> contains ''..'' rel" shows "''..'' \<notin> set (split_path rel)"
proof
  assume "''..'' \<in> set (split_path rel)"
  moreover have "contains ''..'' p" if "''..'' \<in> set (split_path p)" for p
    using that
  proof (induction p)
    case (Cons x p)
    obtain y ys where y: "split_path p = y # ys" by (cases "split_path p") auto
    show ?case
    proof (cases "x = CHR ''/''")
      case False
      then consider "x # y = ''..''" | "''..'' \<in> set ys" using Cons.prems y by auto
      then show ?thesis
      proof cases
        case 1
        then have "y = ''.''" by simp
        then obtain q where "p = CHR ''.'' # q" using y by (cases p) (auto split: if_splits list.splits)
        then show ?thesis using 1 by (simp add: has_prefix_def)
      qed (use Cons.IH y in auto)
    qed (use Cons y in auto)
  qed simp
  ultimately show False using assms by blast
qed

text \<open>A file the server hands out for a static path lies below the web root; the root itself is a directory.\<close>

lemma Join_confined:
  assumes "clean_dir dir" "''..'' \<notin> set (split_path rel)" "rel \<noteq> []"
  shows "filepath_Join dir rel = dir \<or> below dir (filepath_Join dir rel)"
proof -
  have "''..'' \<notin> set (name_parts rel)" using name_parts_plain(1) [OF assms(2)] by (auto simp: plain_part_def)
  then show ?thesis
    using Join_parts [of dir rel] assms name_parts_plain [OF assms(2)] by (auto simp: clean_dir_def below_def)
qed

lemma static_dir:
  assumes "clean_dir dir"
  shows "clean_dir (filepath_Join dir ''static'')" "filepath_Join dir ''static'' = dir @ ''/static''"
proof -
  have parts: "name_parts ''static'' = [''static'']" by code_simp
  then show j: "filepath_Join dir ''static'' = dir @ ''/static''"
    using Join_parts [of dir "''static''"] assms by (simp add: clean_dir_def)
  have "filepath_Clean (dir @ ''/static'') = dir @ ''/static''"
    using j assms by (simp add: filepath_Join_def clean_dir_def)
  then show "clean_dir (filepath_Join dir ''static'')" unfolding j by (auto simp: clean_dir_def append_eq_Cons_conv)
qed

lemma below_trans:
  assumes "below (dir @ CHR ''/'' # c) p" "plain_part c" "CHR ''/'' \<notin> set c"
  shows "below dir p"
proof -
  obtain parts where p: "parts \<noteq> []" "\<forall>c \<in> set parts. plain_part c \<and> CHR ''/'' \<notin> set c" "p = (dir @ CHR ''/'' # c) @ CHR ''/'' # join_path parts"
    using assms(1) by (auto simp: below_def)
  have "join_path (c # parts) = c @ CHR ''/'' # join_path parts" using p(1) by (cases parts) auto
  then show ?thesis unfolding below_def using p assms by (intro exI [of _ "c # parts"]) auto
qed

text \<open>
  C38 Static files stay below the web root. Whatever path is requested, a file that is served lies below the web
  root, or is the root itself, which is a directory and not a file of it; without a web root nothing is served.
\<close>

theorem ui_static_confined:
  assumes "fst (ui_route qr now (QStatic path) s) = UFile p b" "clean_dir (ui_webRoot s)"
  shows "ui_web s p = Some b \<and> (below (ui_webRoot s) p \<or> p = ui_webRoot s)"
proof -
  let ?w = "ui_webRoot s"
  define rel where "rel = trim_prefix ''/static/'' path"
  have rel: "rel \<noteq> []" "\<not> contains ''..'' rel" using assms(1) by (auto simp: ui_handleStatic_def rel_def [symmetric] Let_def split: if_splits)
  have p: "ui_web s p = Some b" "p = filepath_Join (filepath_Join ?w ''static'') rel \<or> p = filepath_Join ?w rel"
    using assms(1) by (auto simp: ui_handleStatic_def rel_def [symmetric] Let_def split: if_splits option.splits)
  note dots = no_dots_parts [OF rel(2)]
  have "below ?w (?w @ ''/static'')" unfolding below_def by (intro exI [of _ "[''static'']"]) (simp add: plain_part_def)
  moreover have "below ?w q" if "below (?w @ ''/static'') q" for q
    using below_trans [of ?w "''static''" q] that by (simp add: plain_part_def)
  ultimately have "below ?w p \<or> p = ?w"
    using p(2) Join_confined [OF static_dir(1) [OF assms(2)] dots rel(1)] Join_confined [OF assms(2) dots rel(1)]
    unfolding static_dir(2) [OF assms(2)] by auto
  then show ?thesis using p(1) by blast
qed

theorem ui_static_confined_witness:
  "fst (ui_route (\<lambda>_. None) 1 (QStatic ''/static/app.js'') ui_example) = UFile ''/web/static/app.js'' [1] \<and>
   (below ''/web'' ''/web/static/app.js'' \<or> ''/web/static/app.js'' = ''/web'')"
proof -
  have "filepath_Join (filepath_Join ''/web'' ''static'') ''app.js'' = ''/web/static/app.js''" "clean_dir ''/web''"
    "trim_prefix ''/static/'' ''/static/app.js'' = ''app.js''" "\<not> contains ''..'' ''app.js''" by code_simp+
  then have "fst (ui_route (\<lambda>_. None) 1 (QStatic ''/static/app.js'') ui_example) = UFile ''/web/static/app.js'' [1]" "clean_dir (ui_webRoot ui_example)"
    by (simp_all add: ui_handleStatic_def ui_example_def ui_NewServer_def)
  from ui_static_confined [OF this] this(1) show ?thesis by (simp add: ui_example_def ui_NewServer_def)
qed

section \<open>Notices\<close>

text \<open>With redaction the notices do not depend on the names of files.\<close>

lemma notify_redacted:
  "nt_Redact n \<Longrightarrow> notify_DropReceived did name n = notify_DropReceived did name' n"
  by (simp add: notify_DropReceived_def notify_DisplayName_def)

end
