(* ===== verification/Config.thy ===== *)
theory Config
  imports Dero AppAccess Paths
begin

text \<open>
  \<^verbatim>\<open>internal/platform/platform.go\<close> and \<^verbatim>\<open>internal/config/config.go\<close>: where the program keeps its files,
  and how the configuration is put together from defaults, a file and the environment. The operating
  system (its name, environment, home directory, joining of paths) is a record. A configuration file is
  what reading it gives; \<^verbatim>\<open>json.Unmarshal\<close> is the decoding of \<^verbatim>\<open>Dero\<close> on the JSON value that a parser
  finds in the bytes.
\<close>

section \<open>Directories\<close>

datatype goos = Windows | Darwin | OtherOS

record os_env =
  oe_GOOS :: goos
  oe_getenv :: "string \<Rightarrow> string" \<comment> \<open>empty when unset\<close>
  oe_home :: "string option"
  oe_join :: "string list \<Rightarrow> string"
  oe_isAbs :: "string \<Rightarrow> bool"

definition platform_AppName :: string where
  "platform_AppName = ''Ghostdrop''"

definition platform_ConfigDir :: "os_env \<Rightarrow> string" where
  "platform_ConfigDir e =
     (let found = (case oe_GOOS e of
          Windows \<Rightarrow>
            (if oe_getenv e ''APPDATA'' \<noteq> [] then Some (oe_join e [oe_getenv e ''APPDATA'', platform_AppName])
             else map_option (\<lambda>h. oe_join e [h, ''AppData'', ''Roaming'', platform_AppName]) (oe_home e))
        | Darwin \<Rightarrow> map_option (\<lambda>h. oe_join e [h, ''Library'', ''Application Support'', platform_AppName]) (oe_home e)
        | OtherOS \<Rightarrow>
            (let v = oe_getenv e ''XDG_CONFIG_HOME'' in
             if v \<noteq> [] \<and> oe_isAbs e v then Some (oe_join e [v, ''ghostdrop''])
             else map_option (\<lambda>h. oe_join e [h, ''.config'', ''ghostdrop'']) (oe_home e)))
      in case found of Some p \<Rightarrow> p | None \<Rightarrow> oe_join e [''.'', ''ghostdrop-config''])"

definition platform_DataDir :: "os_env \<Rightarrow> string" where
  "platform_DataDir e =
     (let found = (case oe_GOOS e of
          Windows \<Rightarrow>
            (if oe_getenv e ''APPDATA'' \<noteq> [] then Some (oe_join e [oe_getenv e ''APPDATA'', platform_AppName])
             else map_option (\<lambda>h. oe_join e [h, ''AppData'', ''Roaming'', platform_AppName]) (oe_home e))
        | Darwin \<Rightarrow> map_option (\<lambda>h. oe_join e [h, ''Library'', ''Application Support'', platform_AppName]) (oe_home e)
        | OtherOS \<Rightarrow>
            (let v = oe_getenv e ''XDG_DATA_HOME'' in
             if v \<noteq> [] \<and> oe_isAbs e v then Some (oe_join e [v, ''ghostdrop''])
             else map_option (\<lambda>h. oe_join e [h, ''.local'', ''share'', ''ghostdrop'']) (oe_home e)))
      in case found of Some p \<Rightarrow> p | None \<Rightarrow> oe_join e [''.'', ''ghostdrop-data''])"

definition platform_DownloadDir :: "os_env \<Rightarrow> string" where
  "platform_DownloadDir e =
     (case oe_home e of
        Some h \<Rightarrow> if h \<noteq> [] then oe_join e [h, ''Downloads''] else oe_join e [''.'', ''downloads'']
      | None \<Rightarrow> oe_join e [''.'', ''downloads''])"

definition platform_ConfigFile :: "os_env \<Rightarrow> string" where
  "platform_ConfigFile e = oe_join e [platform_ConfigDir e, ''config.json'']"

definition platform_DBFile :: "os_env \<Rightarrow> string" where
  "platform_DBFile e = oe_join e [platform_DataDir e, ''ghostdrop.db'']"

definition platform_ManifestDir :: "os_env \<Rightarrow> string" where
  "platform_ManifestDir e = oe_join e [platform_DataDir e, ''manifests'']"

section \<open>The configuration\<close>

record config =
  cf_RelayEndpoint :: string
  cf_DefaultExpiry :: string
  cf_StorageProvider :: string
  cf_DeroEndpoint :: string
  cf_WalletEndpoint :: string
  cf_Privacy :: string
  cf_GhostDefault :: bool
  cf_DownloadDir :: string
  cf_Notifications :: bool
  cf_Theme :: string
  cf_AutoDelete :: bool

definition config_zero :: config where
  "config_zero = \<lparr>cf_RelayEndpoint = [], cf_DefaultExpiry = [], cf_StorageProvider = [], cf_DeroEndpoint = [],
     cf_WalletEndpoint = [], cf_Privacy = [], cf_GhostDefault = False, cf_DownloadDir = [], cf_Notifications = False,
     cf_Theme = [], cf_AutoDelete = False\<rparr>"

definition config_Defaults :: "os_env \<Rightarrow> config" where
  "config_Defaults e = \<lparr>cf_RelayEndpoint = ''http://127.0.0.1:8080'', cf_DefaultExpiry = ''72h'',
     cf_StorageProvider = ''local'', cf_DeroEndpoint = ''http://127.0.0.1:10102'',
     cf_WalletEndpoint = ''http://127.0.0.1:10103'', cf_Privacy = ''standard'', cf_GhostDefault = False,
     cf_DownloadDir = platform_DownloadDir e, cf_Notifications = True, cf_Theme = ''dark'', cf_AutoDelete = True\<rparr>"

text \<open>\<^verbatim>\<open>ExpiryDuration\<close>: nanoseconds, in 64 bits. \<open>frac\<close> is the floating-point part of \<^verbatim>\<open>time.ParseDuration\<close>.\<close>

definition config_ExpiryDuration :: "(nat \<Rightarrow> nat \<Rightarrow> nat \<Rightarrow> nat) \<Rightarrow> config \<Rightarrow> int option" where
  "config_ExpiryDuration frac c =
     (let s = cf_DefaultExpiry c in
      if 1 < length s \<and> (last s = CHR ''d'' \<or> last s = CHR ''D'')
      then map_option (\<lambda>n. wrap64 (wrap64 (n * 24) * (3600 * second_ns))) (parse_int (butlast s))
      else parse_duration frac s)"

definition overlay :: "string \<Rightarrow> string \<Rightarrow> string" where
  "overlay new old = (if new \<noteq> [] then new else old)"

definition config_merge :: "config \<Rightarrow> config \<Rightarrow> config" where
  "config_merge cfg fl = \<lparr>
     cf_RelayEndpoint = overlay (cf_RelayEndpoint fl) (cf_RelayEndpoint cfg),
     cf_DefaultExpiry = overlay (cf_DefaultExpiry fl) (cf_DefaultExpiry cfg),
     cf_StorageProvider = overlay (cf_StorageProvider fl) (cf_StorageProvider cfg),
     cf_DeroEndpoint = overlay (cf_DeroEndpoint fl) (cf_DeroEndpoint cfg),
     cf_WalletEndpoint = overlay (cf_WalletEndpoint fl) (cf_WalletEndpoint cfg),
     cf_Privacy = overlay (cf_Privacy fl) (cf_Privacy cfg),
     cf_GhostDefault = cf_GhostDefault fl,
     cf_DownloadDir = overlay (cf_DownloadDir fl) (cf_DownloadDir cfg),
     cf_Notifications = cf_Notifications fl,
     cf_Theme = overlay (cf_Theme fl) (cf_Theme cfg),
     cf_AutoDelete = cf_AutoDelete fl\<rparr>"

definition parse_bool :: "string \<Rightarrow> bool option" where
  "parse_bool s =
     (if s \<in> {''1'', ''t'', ''T'', ''TRUE'', ''true'', ''True''} then Some True
      else if s \<in> {''0'', ''f'', ''F'', ''FALSE'', ''false'', ''False''} then Some False else None)"

definition env_bool :: "string \<Rightarrow> bool \<Rightarrow> bool" where
  "env_bool v old = (if v \<noteq> [] then (case parse_bool v of Some b \<Rightarrow> b | None \<Rightarrow> old) else old)"

definition config_applyEnv :: "(string \<Rightarrow> string) \<Rightarrow> config \<Rightarrow> config" where
  "config_applyEnv getenv cfg = \<lparr>
     cf_RelayEndpoint = overlay (getenv ''GHOSTDROP_RELAY_ENDPOINT'') (cf_RelayEndpoint cfg),
     cf_DefaultExpiry = overlay (getenv ''GHOSTDROP_DEFAULT_EXPIRY'') (cf_DefaultExpiry cfg),
     cf_StorageProvider = overlay (getenv ''GHOSTDROP_STORAGE_PROVIDER'') (cf_StorageProvider cfg),
     cf_DeroEndpoint = overlay (getenv ''GHOSTDROP_DERO_ENDPOINT'') (cf_DeroEndpoint cfg),
     cf_WalletEndpoint = overlay (getenv ''GHOSTDROP_WALLET_ENDPOINT'') (cf_WalletEndpoint cfg),
     cf_Privacy = overlay (getenv ''GHOSTDROP_PRIVACY'') (cf_Privacy cfg),
     cf_GhostDefault = env_bool (getenv ''GHOSTDROP_GHOST_DEFAULT'') (cf_GhostDefault cfg),
     cf_DownloadDir = overlay (getenv ''GHOSTDROP_DOWNLOAD_DIR'') (cf_DownloadDir cfg),
     cf_Notifications = env_bool (getenv ''GHOSTDROP_NOTIFICATIONS'') (cf_Notifications cfg),
     cf_Theme = overlay (getenv ''GHOSTDROP_THEME'') (cf_Theme cfg),
     cf_AutoDelete = env_bool (getenv ''GHOSTDROP_AUTO_DELETE'') (cf_AutoDelete cfg)\<rparr>"

section \<open>Loading and saving\<close>

text \<open>The keys of the struct.\<close>

definition config_fields :: "config field list" where
  "config_fields =
     [(''relay_endpoint'', \<lambda>v c. map_option (\<lambda>x. c\<lparr>cf_RelayEndpoint := x\<rparr>) (dec_str (cf_RelayEndpoint c) v)),
      (''default_expiry'', \<lambda>v c. map_option (\<lambda>x. c\<lparr>cf_DefaultExpiry := x\<rparr>) (dec_str (cf_DefaultExpiry c) v)),
      (''storage_provider'', \<lambda>v c. map_option (\<lambda>x. c\<lparr>cf_StorageProvider := x\<rparr>) (dec_str (cf_StorageProvider c) v)),
      (''dero_endpoint'', \<lambda>v c. map_option (\<lambda>x. c\<lparr>cf_DeroEndpoint := x\<rparr>) (dec_str (cf_DeroEndpoint c) v)),
      (''wallet_endpoint'', \<lambda>v c. map_option (\<lambda>x. c\<lparr>cf_WalletEndpoint := x\<rparr>) (dec_str (cf_WalletEndpoint c) v)),
      (''privacy'', \<lambda>v c. map_option (\<lambda>x. c\<lparr>cf_Privacy := x\<rparr>) (dec_str (cf_Privacy c) v)),
      (''ghost_default'', \<lambda>v c. map_option (\<lambda>x. c\<lparr>cf_GhostDefault := x\<rparr>) (dec_bool (cf_GhostDefault c) v)),
      (''download_dir'', \<lambda>v c. map_option (\<lambda>x. c\<lparr>cf_DownloadDir := x\<rparr>) (dec_str (cf_DownloadDir c) v)),
      (''notifications'', \<lambda>v c. map_option (\<lambda>x. c\<lparr>cf_Notifications := x\<rparr>) (dec_bool (cf_Notifications c) v)),
      (''theme'', \<lambda>v c. map_option (\<lambda>x. c\<lparr>cf_Theme := x\<rparr>) (dec_str (cf_Theme c) v)),
      (''auto_delete'', \<lambda>v c. map_option (\<lambda>x. c\<lparr>cf_AutoDelete := x\<rparr>) (dec_bool (cf_AutoDelete c) v))]"

datatype read_result = Missing | Unreadable | Content bytes

datatype config_err = CfgJSON | CfgRead

definition config_LoadFrom ::
  "os_env \<Rightarrow> (string \<Rightarrow> string) \<Rightarrow> (bytes \<Rightarrow> rj option) \<Rightarrow> read_result \<Rightarrow> config_err + config" where
  "config_LoadFrom e fld parse rd =
     (case rd of
        Content raw \<Rightarrow>
          (if raw = [] then Inr (config_applyEnv (oe_getenv e) (config_Defaults e))
           else case Option.bind (parse raw) (dec_struct fld config_fields config_zero) of
                  None \<Rightarrow> Inl CfgJSON
                | Some fl \<Rightarrow> Inr (config_applyEnv (oe_getenv e) (config_merge (config_Defaults e) fl)))
      | Missing \<Rightarrow> Inr (config_applyEnv (oe_getenv e) (config_Defaults e))
      | Unreadable \<Rightarrow> Inl CfgRead)"

text \<open>\<^verbatim>\<open>json.MarshalIndent\<close> of the struct with two blanks, and a final newline.\<close>

definition config_members :: "config \<Rightarrow> (string \<times> json) list" where
  "config_members c =
     [(''relay_endpoint'', JsStr (cf_RelayEndpoint c)), (''default_expiry'', JsStr (cf_DefaultExpiry c)),
      (''storage_provider'', JsStr (cf_StorageProvider c)), (''dero_endpoint'', JsStr (cf_DeroEndpoint c)),
      (''wallet_endpoint'', JsStr (cf_WalletEndpoint c)), (''privacy'', JsStr (cf_Privacy c)),
      (''ghost_default'', JsBool (cf_GhostDefault c)), (''download_dir'', JsStr (cf_DownloadDir c)),
      (''notifications'', JsBool (cf_Notifications c)), (''theme'', JsStr (cf_Theme c)),
      (''auto_delete'', JsBool (cf_AutoDelete c))]"

definition indent_member :: "string \<times> json \<Rightarrow> string" where
  "indent_member kv = CHR 0x0A # ''  '' @ json_print (JsStr (fst kv)) @ '': '' @ json_print (snd kv)"

fun indent_members :: "(string \<times> json) list \<Rightarrow> string" where
  "indent_members [] = []"
| "indent_members [m] = indent_member m"
| "indent_members (m # n # ms) = indent_member m @ '','' @ indent_members (n # ms)"

definition config_text :: "config \<Rightarrow> string" where
  "config_text c = CHR ''{'' # indent_members (config_members c) @ [CHR 0x0A, CHR ''}'', CHR 0x0A]"

text \<open>\<^verbatim>\<open>SaveTo\<close>: the text goes to a file beside the target, which is then renamed. Every step can fail; a
  write that fails may have made the file (\<open>Some n\<close>: with \<open>n\<close> bytes) or not.\<close>

datatype save_fault = NoFault | MkdirFails | WriteFails "nat option" | RenameFails

definition config_SaveTo :: "save_fault \<Rightarrow> config \<Rightarrow> string \<Rightarrow> (string \<rightharpoonup> bytes) \<Rightarrow> bool \<times> (string \<rightharpoonup> bytes)" where
  "config_SaveTo f c path fs =
     (let raw = bytes_of (config_text c); tmp = path @ ''.tmp'' in
      case f of
        MkdirFails \<Rightarrow> (False, fs)
      | WriteFails None \<Rightarrow> (False, fs)
      | WriteFails (Some n) \<Rightarrow> (False, fs(tmp \<mapsto> take n raw))
      | RenameFails \<Rightarrow> (False, fs(tmp \<mapsto> raw))
      | NoFault \<Rightarrow> (True, (fs(tmp := None))(path \<mapsto> raw)))"

section \<open>Lemmas\<close>

lemma overlay_simps [simp]: "overlay [] y = y" "x \<noteq> [] \<Longrightarrow> overlay x y = x"
  by (simp_all add: overlay_def)

lemma env_bool_Nil [simp]: "env_bool [] b = b"
  by (simp add: env_bool_def)

lemma applyEnv_unset: "(\<And>k. has_prefix ''GHOSTDROP_'' k \<Longrightarrow> getenv k = []) \<Longrightarrow> config_applyEnv getenv c = c"
  by (cases c) (simp add: config_applyEnv_def has_prefix_def)

text \<open>The value of a member as a parser reads it.\<close>

definition rj_of :: "json \<Rightarrow> rj" where
  "rj_of v = (case v of JsStr s \<Rightarrow> RjStr s | JsBool b \<Rightarrow> RjBool b | _ \<Rightarrow> RjNull)"

lemma decode_config: "dec_struct fld config_fields config_zero (RjObj (map (\<lambda>(k, v). (k, rj_of v)) (config_members c))) = Some c"
  by (cases c) (simp add: dec_struct_def config_members_def rj_of_def config_fields_def config_zero_def equal_fold_def fold_case_def
      is_ascii_def ascii_lower_def is_upper_def dec_str_def dec_bool_def)

text \<open>A field that no member names keeps its value.\<close>

lemma dec_members_keeps:
  assumes "dec_members fld fs ms s = Some s'" "\<forall>(k, v) \<in> set ms. \<not> equal_fold fld k key"
    and "\<And>k st v c c'. (k, st) \<in> set fs \<Longrightarrow> k \<noteq> key \<Longrightarrow> st v c = Some c' \<Longrightarrow> get c' = get c"
  shows "get s' = get s"
  using assms(1,2)
proof (induction ms arbitrary: s)
  case (Cons m ms)
  obtain k v where m: "m = (k, v)" by fastforce
  show ?case
  proof (cases "List.find (\<lambda>(f, _). equal_fold fld k f) fs")
    case None
    then show ?thesis using Cons m by auto
  next
    case (Some x)
    obtain f st where x: "x = (f, st)" by fastforce
    from Some have f: "(f, st) \<in> set fs" "equal_fold fld k f" unfolding x by (auto simp: find_Some_iff in_set_conv_nth)
    then have "f \<noteq> key" using Cons.prems(2) m by auto
    moreover obtain s1 where "st v s = Some s1" "dec_members fld fs ms s1 = Some s'"
      using Cons.prems(1) Some x m by (auto split: option.splits)
    ultimately show ?thesis using Cons.IH [of s1] Cons.prems(2) assms(3) [OF f(1)] by auto
  qed
qed simp

section \<open>Properties\<close>

text \<open>
  C39 A configuration that is saved is loaded again, with no \<^verbatim>\<open>GHOSTDROP_\<close> variable set and a parser that
  reads what \<^verbatim>\<open>encoding/json\<close> prints: every boolean as it was and every string, an empty one replaced
  by its default. And if any step of saving fails the old file is untouched; no file but the target and its
  temporary one changes.
\<close>

theorem config_save_load:
  assumes "\<And>k. has_prefix ''GHOSTDROP_'' k \<Longrightarrow> oe_getenv e k = []"
    and "parse (bytes_of (config_text c)) = Some (RjObj (map (\<lambda>(k, v). (k, rj_of v)) (config_members c)))"
    and "config_SaveTo f c path fs = (ok, fs')"
  shows "(if ok then \<exists>raw. fs' path = Some raw \<and> config_LoadFrom e fld parse (Content raw) = Inr (config_merge (config_Defaults e) c)
      else fs' path = fs path) \<and>
    (\<forall>q. q = path \<or> q = path @ ''.tmp'' \<or> fs' q = fs q) \<and>
    (cf_RelayEndpoint c \<noteq> [] \<and> cf_DefaultExpiry c \<noteq> [] \<and> cf_StorageProvider c \<noteq> [] \<and> cf_DeroEndpoint c \<noteq> [] \<and>
      cf_WalletEndpoint c \<noteq> [] \<and> cf_Privacy c \<noteq> [] \<and> cf_DownloadDir c \<noteq> [] \<and> cf_Theme c \<noteq> []
      \<longrightarrow> config_merge (config_Defaults e) c = c)"
proof (intro conjI)
  have "bytes_of (config_text c) \<noteq> []" by (simp add: config_text_def bytes_of_def)
  then have "config_LoadFrom e fld parse (Content (bytes_of (config_text c))) = Inr (config_merge (config_Defaults e) c)"
    using assms(2) decode_config [of fld c] applyEnv_unset [OF assms(1)] by (simp add: config_LoadFrom_def)
  then show "if ok then \<exists>raw. fs' path = Some raw \<and> config_LoadFrom e fld parse (Content raw) = Inr (config_merge (config_Defaults e) c)
      else fs' path = fs path"
    using assms(3) by (auto simp: config_SaveTo_def Let_def split: save_fault.splits option.splits)
  have "fs' q = fs q" if "q \<noteq> path" "q \<noteq> path @ ''.tmp''" for q
    using assms(3) that by (auto simp: config_SaveTo_def Let_def split: save_fault.splits option.splits)
  then show "\<forall>q. q = path \<or> q = path @ ''.tmp'' \<or> fs' q = fs q" by blast
qed (cases c, simp add: config_merge_def)

definition sample_os :: os_env where
  "sample_os = \<lparr>oe_GOOS = OtherOS, oe_getenv = (\<lambda>k. []), oe_home = Some ''/home/me'',
     oe_join = (\<lambda>ps. fold (\<lambda>p acc. filepath_Join acc p) ps []), oe_isAbs = rooted\<rparr>"

theorem config_save_load_witness:
  "\<exists>raw fs'. config_SaveTo NoFault (config_Defaults sample_os) ''c.json'' Map.empty = (True, fs') \<and> fs' ''c.json'' = Some raw \<and>
     config_LoadFrom sample_os (\<lambda>s. s) (\<lambda>_. Some (RjObj (map (\<lambda>(k, v). (k, rj_of v)) (config_members (config_Defaults sample_os)))))
       (Content raw) = Inr (config_Defaults sample_os)"
proof -
  define c where "c = config_Defaults sample_os"
  let ?p = "\<lambda>_ :: bytes. Some (RjObj (map (\<lambda>(k, v). (k, rj_of v)) (config_members c)))"
  obtain fs' where s: "config_SaveTo NoFault c ''c.json'' Map.empty = (True, fs')"
    by (simp add: config_SaveTo_def Let_def)
  have "oe_getenv sample_os k = []" for k by (simp add: sample_os_def)
  note load = config_save_load [of sample_os ?p c, OF this refl s, of "\<lambda>s. s"]
  have "cf_DownloadDir c \<noteq> []" unfolding c_def by code_simp
  then have "cf_RelayEndpoint c \<noteq> [] \<and> cf_DefaultExpiry c \<noteq> [] \<and> cf_StorageProvider c \<noteq> [] \<and> cf_DeroEndpoint c \<noteq> [] \<and>
      cf_WalletEndpoint c \<noteq> [] \<and> cf_Privacy c \<noteq> [] \<and> cf_DownloadDir c \<noteq> [] \<and> cf_Theme c \<noteq> []"
    by (simp add: c_def config_Defaults_def)
  with load have "config_merge (config_Defaults sample_os) c = c" by blast
  with load s show ?thesis unfolding c_def [symmetric] by auto
qed

text \<open>
  C40 A file that leaves out a switch turns it off. Whatever else the file holds, if it does not mention
  \<^verbatim>\<open>notifications\<close> (or \<^verbatim>\<open>auto_delete\<close>) in any case, then the loaded configuration has it off, although it is
  on by default and without a file.
\<close>

theorem config_switch_off:
  assumes "config_LoadFrom e fld parse (Content raw) = Inr c" "raw \<noteq> []" "parse raw = Some (RjObj ms)"
    and "\<And>k. has_prefix ''GHOSTDROP_'' k \<Longrightarrow> oe_getenv e k = []"
  shows "((\<exists>(k, v) \<in> set ms. equal_fold fld k ''notifications'') \<or> \<not> cf_Notifications c) \<and>
    ((\<exists>(k, v) \<in> set ms. equal_fold fld k ''auto_delete'') \<or> \<not> cf_AutoDelete c) \<and>
    (\<exists>d. config_LoadFrom e fld parse Missing = Inr d \<and> cf_Notifications d \<and> cf_AutoDelete d)"
proof (intro conjI)
  obtain fl where fl: "dec_members fld config_fields ms config_zero = Some fl" "c = config_merge (config_Defaults e) fl"
    using assms(1-3) applyEnv_unset [OF assms(4)] by (auto simp: config_LoadFrom_def dec_struct_def split: option.splits)
  have "cf_Notifications fl = cf_Notifications config_zero" if "\<not> (\<exists>(k, v) \<in> set ms. equal_fold fld k ''notifications'')"
    by (rule dec_members_keeps [OF fl(1), of "''notifications''"]) (use that in \<open>auto simp: config_fields_def\<close>)
  then show "(\<exists>(k, v) \<in> set ms. equal_fold fld k ''notifications'') \<or> \<not> cf_Notifications c"
    using fl(2) by (auto simp: config_merge_def config_zero_def)
  have "cf_AutoDelete fl = cf_AutoDelete config_zero" if "\<not> (\<exists>(k, v) \<in> set ms. equal_fold fld k ''auto_delete'')"
    by (rule dec_members_keeps [OF fl(1), of "''auto_delete''"]) (use that in \<open>auto simp: config_fields_def\<close>)
  then show "(\<exists>(k, v) \<in> set ms. equal_fold fld k ''auto_delete'') \<or> \<not> cf_AutoDelete c"
    using fl(2) by (auto simp: config_merge_def config_zero_def)
  show "\<exists>d. config_LoadFrom e fld parse Missing = Inr d \<and> cf_Notifications d \<and> cf_AutoDelete d"
    using applyEnv_unset [OF assms(4)] by (simp add: config_LoadFrom_def config_Defaults_def)
qed

theorem config_switch_off_witness:
  "\<exists>c. config_LoadFrom sample_os (\<lambda>s. s) (\<lambda>_. Some (RjObj [(''theme'', RjStr ''light'')])) (Content [1]) = Inr c \<and>
     cf_Theme c = ''light'' \<and> \<not> cf_Notifications c \<and> \<not> cf_AutoDelete c"
proof -
  let ?p = "\<lambda>_ :: bytes. Some (RjObj [(''theme'', RjStr ''light'')])"
  have unset: "oe_getenv sample_os k = []" for k by (simp add: sample_os_def)
  have "dec_struct (\<lambda>s. s) config_fields config_zero (RjObj [(''theme'', RjStr ''light'')]) = Some (config_zero\<lparr>cf_Theme := ''light''\<rparr>)"
    by (simp add: dec_struct_def config_fields_def equal_fold_def fold_case_def is_ascii_def ascii_lower_def is_upper_def dec_str_def)
  then have c: "config_LoadFrom sample_os (\<lambda>s. s) ?p (Content [1]) =
      Inr (config_merge (config_Defaults sample_os) (config_zero\<lparr>cf_Theme := ''light''\<rparr>))"
    using applyEnv_unset [OF unset] by (simp add: config_LoadFrom_def)
  have "\<not> equal_fold (\<lambda>s. s) ''theme'' ''notifications''" "\<not> equal_fold (\<lambda>s. s) ''theme'' ''auto_delete''"
    by (simp_all add: equal_fold_def fold_case_def is_ascii_def ascii_lower_def is_upper_def)
  then show ?thesis
    using config_switch_off [where parse = ?p, OF c _ refl unset] by (auto simp: c config_merge_def)
qed

text \<open>
  An expiry of so many days is the length of these days, if they are at most 106751, and something else
  otherwise (a negative duration for one day more): the multiplication wraps around.
\<close>

lemma wrap64_mult_wrap64 [simp]: "wrap64 (wrap64 a * b) = wrap64 (a * b)"
proof -
  have "wrap64 (wrap64 a * b) = wrap64 (wrap64 (wrap64 a) * wrap64 b)" by (simp only: wrap64_def signed_take_bit_mult)
  also have "\<dots> = wrap64 (a * b)" by (simp add: wrap64_def signed_take_bit_mult)
  finally show ?thesis .
qed

lemma config_expiry_days:
  assumes "cf_DefaultExpiry c = format_nat n @ ''d''" "n < 2 ^ 63"
  shows "config_ExpiryDuration frac c = Some (wrap64 (int n * day_ns))"
    "config_ExpiryDuration frac c = Some (int n * day_ns) \<longleftrightarrow> n \<le> 106751"
proof -
  have "0 < length (format_nat n)" by simp
  then have "1 < length (cf_DefaultExpiry c)" "last (cf_DefaultExpiry c) = CHR ''d''" "butlast (cf_DefaultExpiry c) = format_nat n"
    unfolding assms(1) by (simp_all only: last_snoc butlast_snoc length_append list.size)
  then show v: "config_ExpiryDuration frac c = Some (wrap64 (int n * day_ns))"
    using assms(2) unfolding config_ExpiryDuration_def Let_def
    by (simp only: parse_int_format_nat wrap64_mult_wrap64) (simp add: day_ns_def mult.commute)
  have "wrap64 (int n * day_ns) = int n * day_ns \<longleftrightarrow> in_int64 (int n * day_ns)" by (metis in_int64_wrap64 wrap64_id)
  also have "\<dots> \<longleftrightarrow> n \<le> 106751" unfolding in_int64_def day_ns_def by auto
  finally show "config_ExpiryDuration frac c = Some (int n * day_ns) \<longleftrightarrow> n \<le> 106751"
    unfolding v by simp
qed

lemma config_expiry_overflow:
  "config_ExpiryDuration frac (c\<lparr>cf_DefaultExpiry := ''106752d''\<rparr>) = Some (- 9223371273709551616)"
proof -
  have "''106752d'' = format_nat 106752 @ ''d''" by (simp add: format_nat.simps digit_char_def) code_simp
  then show ?thesis
    using config_expiry_days(1) [of "c\<lparr>cf_DefaultExpiry := ''106752d''\<rparr>" 106752 frac] by (simp add: wrap64_def day_ns_def)
qed

end
