(* ===== verification/Spec2Isabelle.thy ===== *)
theory Spec2Isabelle
  imports AppCrypto MemoryStore LocalStore Transport RelayProps RelayEnd2End RelayLimits AppManifest AppStore
    Archive DropsProps P2pProps Identity AppServiceSafety UiProps Config
begin

text \<open>
  GhostDrop moves files between people as encrypted \<open>drops\<close>. This development models its Go packages
  under \<^verbatim>\<open>src/internal\<close> as HOL functions and step relations and proves what makes them correct.

  The program and how its parts interact. A file is sealed into the chunked format GD01 under a fresh file key
  (\<^verbatim>\<open>crypto\<close>; a second copy in \<^verbatim>\<open>app/filecrypt.go\<close>). The file key is wrapped for a recipient or under a
  password, and a manifest describes and signs the payload (\<^verbatim>\<open>manifest\<close>; a second one in
  \<^verbatim>\<open>app/manifest.go\<close>). The payload goes to a store: memory, a directory, or a relay over HTTP (\<^verbatim>\<open>storage\<close>,
  \<^verbatim>\<open>relay\<close>), or directly to a peer (\<^verbatim>\<open>p2p\<close>). Two services put these together: \<^verbatim>\<open>drops\<close>, over any storage
  provider with a database of records, and \<^verbatim>\<open>app\<close>, behind the command line. Payment and identity rest on
  the JSON-RPC client of a DERO daemon and wallet (\<^verbatim>\<open>dero\<close>, \<^verbatim>\<open>wallet\<close>, \<^verbatim>\<open>payments\<close>, \<^verbatim>\<open>identity\<close>). The
  desktop server (\<^verbatim>\<open>ui\<close>) publishes its progress on a bus (\<^verbatim>\<open>events\<close>).

  The theories and the code they model, below \<^verbatim>\<open>src/internal\<close>:

  \<^item> \<open>Prelude\<close>, \<open>GoStrings\<close>, \<open>GoTime\<close>, \<open>Paths\<close>, \<open>Json\<close>, \<open>Base64\<close>: what the program uses of the Go library:
    bytes, big-endian words, 64-bit wrap-around (\<open>wrap64\<close>), directories as association lists, \<^verbatim>\<open>strings\<close>,
    \<^verbatim>\<open>strconv\<close>, \<^verbatim>\<open>time\<close>, \<^verbatim>\<open>path/filepath\<close>, the JSON encoder, base 64.
  \<^item> \<open>Primitives\<close>: the cryptographic primitives, which are not part of the repository, as a record of functions
    with their documented laws as predicates (\<open>aead_ok\<close>, \<open>dh_ok\<close>, \<open>sig_ok\<close>); a computable instance serves the
    witnesses.
  \<^item> \<open>Framing\<close>: the locales \<open>nonce_scheme\<close> and \<open>frame_reader\<close>: what a chunk nonce must satisfy and what follows for
    a reader of length-prefixed sealed chunks. Interpreted by \<open>Crypto\<close> (\<^verbatim>\<open>crypto/crypto.go\<close>), \<open>AppCrypto\<close>
    (\<^verbatim>\<open>app/filecrypt.go\<close>, \<^verbatim>\<open>app/seal.go\<close>) and, for its nonces, \<open>P2p\<close> (\<^verbatim>\<open>p2p/p2p.go\<close>).
  \<^item> \<open>StorageApi\<close> (\<^verbatim>\<open>storage/provider.go\<close>): the provider interface as a record and its contract as the
    locales \<open>plain_store\<close> and \<open>blob_store\<close>, with the abstract map with expiry that a provider refines.
    Interpreted by \<open>MemoryStore\<close> (\<^verbatim>\<open>storage/memory.go\<close>), \<open>LocalStore\<close> (\<^verbatim>\<open>storage/local.go\<close>) and
    \<open>AppStore\<close> (\<^verbatim>\<open>app/store.go\<close>).
  \<^item> \<open>Transport\<close> (\<^verbatim>\<open>transport/transport.go\<close>); \<open>Relay\<close>, \<open>RelayInv\<close>, \<open>RelayProps\<close>, \<open>RelayLimits\<close>
    (\<^verbatim>\<open>relay/server.go\<close>: handlers, their interleavings as the relation \<open>relay_step\<close>, properties);
    \<open>RelayClients\<close> (the clients in \<^verbatim>\<open>relay/server.go\<close>, \<^verbatim>\<open>storage/relay.go\<close>, \<^verbatim>\<open>app/relay.go\<close>) and
    \<open>RelayEnd2End\<close> (clients against the server).
  \<^item> \<open>Manifest\<close> (\<^verbatim>\<open>manifest/manifest.go\<close>), \<open>AppManifest\<close> (\<^verbatim>\<open>app/manifest.go\<close>), \<open>Archive\<close>
    (\<^verbatim>\<open>app/zip.go\<close>), \<open>AppLink\<close> (\<^verbatim>\<open>app/uri.go\<close>), \<open>AppAccess\<close> and \<open>AppService\<close> (\<^verbatim>\<open>app/app.go\<close>), with
    their properties in \<open>AppServiceProps\<close> and \<open>AppServiceSafety\<close>.
  \<^item> \<open>Database\<close> (\<^verbatim>\<open>database/database.go\<close>), \<open>Drops\<close> and \<open>DropsProps\<close> (\<^verbatim>\<open>drops/manager.go\<close>), \<open>P2p\<close> and
    \<open>P2pProps\<close> (\<^verbatim>\<open>p2p/p2p.go\<close>).
  \<^item> \<open>Dero\<close> (\<^verbatim>\<open>dero/dero.go\<close>), \<open>Payments\<close> (\<^verbatim>\<open>wallet/wallet.go\<close>, \<^verbatim>\<open>payments/payments.go\<close>),
    \<open>Identity\<close> (\<^verbatim>\<open>identity/identity.go\<close>).
  \<^item> \<open>Events\<close> (\<^verbatim>\<open>events/bus.go\<close>), \<open>UiServer\<close> and \<open>UiProps\<close> (\<^verbatim>\<open>ui/server.go\<close>, \<^verbatim>\<open>ui/model.go\<close>,
    \<^verbatim>\<open>notifications/notify.go\<close>), \<open>Config\<close> (\<^verbatim>\<open>config/config.go\<close>, \<^verbatim>\<open>platform/platform.go\<close>).

  How state corresponds. A Go struct is a record with its fields; a map or directory an association list with
  unique keys (\<open>dir\<close>), or a partial function \<open>fs\<close> from paths to contents where no order is needed; the lock-protected
  sections of a handler are one transition each. The clock, random draws (\<open>None\<close> where the source of
  randomness fails), the cancellation of a context and what the outside world answers are arguments. Errors are values of
  a datatype per package, returned in a sum or an option. Sizes that the code keeps in \<^verbatim>\<open>int64\<close> are
  \<open>int\<close> with \<open>wrap64\<close> where the arithmetic can overflow, and \<^verbatim>\<open>uint32\<close> and \<^verbatim>\<open>uint64\<close> are words.

  What the lemmas show: sealing and opening are inverse, opening accepts exactly the framings of the key, and both
  implementations agree; wrapped keys are recovered; stores refine a map with expiry and keep their
  accounts; the relay keeps its invariant under all interleavings, protects drops by their token, and delivers what was
  uploaded; signed manifests are bound to their contents; archives, links, paths and configurations make
  round trips and stay in their directories; both services deliver what was sent; transfers between
  peers are complete and resumable; payments are authorised only by an answer of the daemon; the desktop server and its
  bus keep their invariants. Some theorems state what goes wrong as the code stands, e.g. \<open>app_send_relay_fails\<close>,
  \<open>storage_relay_put_fails\<close>, \<open>relay_one_time_race\<close>, \<open>ui_delete_race\<close>, \<open>config_switch_off\<close>.

  Loops and bounds. Every loop of the code is a total function: by structural recursion or on a measure (the bytes
  that are left, the attempts that are left), so no fuel is used. The one loop that may run forever,
  \<^verbatim>\<open>AwaitPayment\<close>, is a \<open>partial_function\<close> with \<open>None\<close> for not returning, and its theorem says exactly
  when that happens.

  Not modelled: \<^verbatim>\<open>security\<close> (which no modelled package calls); \<^verbatim>\<open>app/doctor.go\<close> and the three commands
  under \<^verbatim>\<open>src/cmd\<close>, which are flag parsing, printing and probes of the environment; listeners, dialling and tickers; notices of
  the operating system; the parsers of JSON, multipart and zip files and the QR encoder (parameters); faults
  of the disk, except where a function above says so; the SQL engine (its tables are lists of rows).
\<close>

end
